(* ===== verification/Rust_Base.thy ===== *)
theory Rust_Base
  imports Main "HOL-Library.Sublist" "HOL-Library.Char_ord" "HOL-Library.List_Lexorder"
    "HOL-Library.Product_Lexorder"
begin

text \<open>
  The part of Rust and of its standard library that the modelled components share.

  A Rust \<^verbatim>\<open>String\<close> is its sequence of UTF-8 bytes, so it is modelled as \<^typ>\<open>string\<close> with one
  \<^typ>\<open>char\<close> per byte: \<^verbatim>\<open>len()\<close> is \<^const>\<open>length\<close>, byte offsets are list positions, and the
  operations on ASCII patterns (\<^verbatim>\<open>strip_prefix\<close>, \<^verbatim>\<open>split\<close>, \<^verbatim>\<open>find\<close>) act on bytes. The operations
  that see characters (\<^verbatim>\<open>chars\<close>, \<^verbatim>\<open>trim\<close>, \<^verbatim>\<open>is_whitespace\<close>) go through \<open>utf8_chars\<close>, which cuts
  the bytes into encoded characters. \<^verbatim>\<open>usize\<close> is \<^typ>\<open>nat\<close> with the saturation of the 64-bit type
  written out. \<^verbatim>\<open>Result\<close> is the datatype \<open>result\<close>.
\<close>

named_theorems rust_str \<open>characteristic facts of the string operations\<close>

section \<open>Results and machine sizes\<close>

datatype ('a, 'e) result = Ok 'a | Err 'e

fun is_ok :: "('a, 'e) result \<Rightarrow> bool" where
  "is_ok (Ok _) = True"
| "is_ok (Err _) = False"

fun map_err :: "('e \<Rightarrow> 'f) \<Rightarrow> ('a, 'e) result \<Rightarrow> ('a, 'f) result" where
  "map_err f (Ok x) = Ok x"
| "map_err f (Err e) = Err (f e)"

fun and_then :: "('a, 'e) result \<Rightarrow> ('a \<Rightarrow> ('b, 'e) result) \<Rightarrow> ('b, 'e) result" where
  "and_then (Ok x) f = f x"
| "and_then (Err e) f = Err e"

definition ok_or :: "'e \<Rightarrow> 'a option \<Rightarrow> ('a, 'e) result" where
  "ok_or e x = (case x of None \<Rightarrow> Err e | Some y \<Rightarrow> Ok y)"

fun ok_of :: "('a, 'e) result \<Rightarrow> 'a option" where
  "ok_of (Ok x) = Some x"
| "ok_of (Err _) = None"

definition usize_max :: nat where
  "usize_max = 2 ^ 64 - 1"

definition saturating_add :: "nat \<Rightarrow> nat \<Rightarrow> nat" where
  "saturating_add a b = min (a + b) usize_max"

definition saturating_mul :: "nat \<Rightarrow> nat \<Rightarrow> nat" where
  "saturating_mul a b = min (a * b) usize_max"

definition checked_sub :: "nat \<Rightarrow> nat \<Rightarrow> nat option" where
  "checked_sub a b = (if b \<le> a then Some (a - b) else None)"

definition div_ceil :: "nat \<Rightarrow> nat \<Rightarrow> nat" where
  "div_ceil a b = (a + b - 1) div b"

text \<open>\<^verbatim>\<open>Iterator::position\<close>.\<close>

fun find_index :: "('a \<Rightarrow> bool) \<Rightarrow> 'a list \<Rightarrow> nat option" where
  "find_index P [] = None"
| "find_index P (x # xs) = (if P x then Some 0 else map_option Suc (find_index P xs))"

lemma find_index_None: "find_index P xs = None \<longleftrightarrow> (\<forall>x\<in>set xs. \<not> P x)"
  by (induction xs) auto

lemma find_index_Some:
  "find_index P xs = Some i \<Longrightarrow> i < length xs \<and> P (xs ! i) \<and> (\<forall>j<i. \<not> P (xs ! j))"
  by (induction xs arbitrary: i) (auto split: if_splits simp: nth_Cons split: nat.splits)

lemma and_then_eq_Ok [simp]: "and_then r f = Ok y \<longleftrightarrow> (\<exists>x. r = Ok x \<and> f x = Ok y)"
  by (cases r) auto

lemma map_err_eq_Ok [simp]: "map_err f r = Ok y \<longleftrightarrow> r = Ok y"
  by (cases r) auto

lemma is_ok_iff: "is_ok r \<longleftrightarrow> (\<exists>x. r = Ok x)"
  by (cases r) auto

lemma checked_sub_Some [simp]: "checked_sub a b = Some c \<longleftrightarrow> b \<le> a \<and> c = a - b"
  by (auto simp: checked_sub_def)

lemma checked_sub_None [simp]: "checked_sub a b = None \<longleftrightarrow> a < b"
  by (auto simp: checked_sub_def)

section \<open>Prefixes, suffixes and substrings\<close>

fun strip_prefix :: "'a list \<Rightarrow> 'a list \<Rightarrow> 'a list option" where
  "strip_prefix [] s = Some s"
| "strip_prefix (p # ps) [] = None"
| "strip_prefix (p # ps) (c # cs) = (if p = c then strip_prefix ps cs else None)"

definition strip_suffix :: "'a list \<Rightarrow> 'a list \<Rightarrow> 'a list option" where
  "strip_suffix p s = map_option rev (strip_prefix (rev p) (rev s))"

definition starts_with :: "'a list \<Rightarrow> 'a list \<Rightarrow> bool" where
  "starts_with p s \<longleftrightarrow> strip_prefix p s \<noteq> None"

definition ends_with :: "'a list \<Rightarrow> 'a list \<Rightarrow> bool" where
  "ends_with p s \<longleftrightarrow> strip_suffix p s \<noteq> None"

text \<open>\<^verbatim>\<open>find\<close> returns the first byte offset of a substring, \<^verbatim>\<open>rfind\<close> the last one.\<close>

fun find_str :: "'a list \<Rightarrow> 'a list \<Rightarrow> nat option" where
  "find_str p [] = (if p = [] then Some 0 else None)"
| "find_str p (c # cs) =
     (if starts_with p (c # cs) then Some 0 else map_option Suc (find_str p cs))"

fun rfind_str :: "'a list \<Rightarrow> 'a list \<Rightarrow> nat option" where
  "rfind_str p [] = (if p = [] then Some 0 else None)"
| "rfind_str p (c # cs) =
     (case rfind_str p cs of
        Some n \<Rightarrow> Some (Suc n)
      | None \<Rightarrow> if starts_with p (c # cs) then Some 0 else None)"

definition contains_str :: "'a list \<Rightarrow> 'a list \<Rightarrow> bool" where
  "contains_str p s \<longleftrightarrow> find_str p s \<noteq> None"

definition split_once :: "'a list \<Rightarrow> 'a list \<Rightarrow> ('a list \<times> 'a list) option" where
  "split_once p s = map_option (\<lambda>i. (take i s, drop (i + length p) s)) (find_str p s)"

definition contains_any :: "'a list \<Rightarrow> 'a list \<Rightarrow> bool" where
  "contains_any cs s \<longleftrightarrow> list_ex (\<lambda>c. c \<in> set cs) s"

lemma strip_prefix_Some [simp]: "strip_prefix p s = Some r \<longleftrightarrow> s = p @ r"
  by (induction p s rule: strip_prefix.induct) auto

lemma strip_prefix_append [simp]: "strip_prefix p (p @ r) = Some r"
  by simp

lemma strip_prefix_self [simp]: "strip_prefix p p = Some []"
  by simp

lemma strip_suffix_Some [simp]: "strip_suffix p s = Some r \<longleftrightarrow> s = r @ p"
proof -
  have "strip_suffix p s = Some r \<longleftrightarrow> rev s = rev p @ rev r"
    by (auto simp: strip_suffix_def)
  also have "\<dots> \<longleftrightarrow> s = r @ p"
    by (metis rev_append rev_rev_ident)
  finally show ?thesis .
qed

lemma strip_suffix_append [simp]: "strip_suffix p (r @ p) = Some r"
  by simp

lemma strip_suffix_self [simp]: "strip_suffix p p = Some []"
  by simp

lemma starts_with_iff [rust_str]: "starts_with p s \<longleftrightarrow> (\<exists>r. s = p @ r)"
  by (cases "strip_prefix p s") (auto simp: starts_with_def)

lemma starts_with_prefix: "starts_with p s \<longleftrightarrow> prefix p s"
  by (simp add: starts_with_iff prefix_def)

lemma ends_with_iff [rust_str]: "ends_with p s \<longleftrightarrow> (\<exists>r. s = r @ p)"
  by (simp add: ends_with_def flip: not_None_eq) (metis not_Some_eq strip_suffix_Some)

lemma strip_prefix_None: "strip_prefix p s = None \<longleftrightarrow> \<not> starts_with p s"
  unfolding starts_with_def by blast

lemma starts_with_append [simp]: "starts_with p (p @ r)"
  by (auto simp: starts_with_iff)

lemma starts_with_Nil [simp]: "starts_with [] s"
  by (simp add: starts_with_def)

lemma starts_with_Nil2 [simp]: "starts_with p [] \<longleftrightarrow> p = []"
  by (auto simp: starts_with_iff)

lemma starts_with_Cons_Cons [simp]:
  "starts_with (p # ps) (c # cs) \<longleftrightarrow> p = c \<and> starts_with ps cs"
  by (auto simp: starts_with_def)

lemma find_str_Some:
  "find_str p s = Some i \<Longrightarrow> (\<exists>r. s = take i s @ p @ r) \<and> i + length p \<le> length s"
proof (induction p s arbitrary: i rule: find_str.induct)
  case (1 p)
  then show ?case by (auto split: if_splits)
next
  case (2 p c cs)
  show ?case
  proof (cases "starts_with p (c # cs)")
    case True
    with "2.prems" show ?thesis
      by (auto simp: starts_with_iff) (metis length_append length_Cons le_add1)
  next
    case False
    with "2.prems" obtain j where "find_str p cs = Some j" "i = Suc j" by auto
    with "2.IH" False show ?thesis by auto
  qed
qed

lemma find_str_least: "find_str p s = Some i \<Longrightarrow> j < i \<Longrightarrow> \<not> starts_with p (drop j s)"
proof (induction p s arbitrary: i j rule: find_str.induct)
  case (2 p c cs)
  then show ?case by (cases j) (auto split: if_splits)
qed (auto split: if_splits)

lemma find_str_None: "find_str p s = None \<Longrightarrow> \<not> starts_with p (drop j s)"
proof (induction p s arbitrary: j rule: find_str.induct)
  case (2 p c cs)
  then show ?case by (cases j) (auto split: if_splits)
qed (auto split: if_splits)

lemma rfind_str_Some: "rfind_str p s = Some i \<Longrightarrow> starts_with p (drop i s)"
  by (induction p s arbitrary: i rule: rfind_str.induct) (auto split: if_splits option.splits)

lemma rfind_str_None:
  "rfind_str p s = None \<Longrightarrow> j \<le> length s \<Longrightarrow> \<not> starts_with p (drop j s)"
proof (induction p s arbitrary: j rule: rfind_str.induct)
  case (2 p c cs)
  then show ?case by (cases j) (auto split: if_splits option.splits)
qed (auto split: if_splits)

lemma rfind_str_greatest:
  "rfind_str p s = Some i \<Longrightarrow> i < j \<Longrightarrow> j \<le> length s \<Longrightarrow> \<not> starts_with p (drop j s)"
proof (induction p s arbitrary: i j rule: rfind_str.induct)
  case (2 p c cs)
  then show ?case
    by (cases j) (auto split: if_splits option.splits dest: rfind_str_None)
qed (auto split: if_splits)

lemma split_once_Some:
  "split_once p s = Some (a, b) \<Longrightarrow> s = a @ p @ b"
  by (auto simp: split_once_def dest!: find_str_Some)
     (metis append_eq_append_conv_if append_eq_conv_conj append_take_drop_id drop_drop add.commute)

section \<open>Splitting\<close>

abbreviation LF :: char where
  "LF \<equiv> CHR 0x0A"

abbreviation CR :: char where
  "CR \<equiv> CHR 0x0D"

abbreviation DQ :: char where
  "DQ \<equiv> CHR 0x22"

text \<open>\<^verbatim>\<open>str::split\<close> on an ASCII character class always yields at least one piece.\<close>

fun split_on :: "(char \<Rightarrow> bool) \<Rightarrow> string \<Rightarrow> string list" where
  "split_on P [] = [[]]"
| "split_on P (c # cs) =
     (if P c then [] # split_on P cs
      else (case split_on P cs of [] \<Rightarrow> [[c]] | w # ws \<Rightarrow> (c # w) # ws))"

text \<open>\<^verbatim>\<open>str::split_inclusive\<close> keeps the separator and drops a final empty piece.\<close>

fun split_inclusive :: "char \<Rightarrow> string \<Rightarrow> string list" where
  "split_inclusive d [] = []"
| "split_inclusive d (c # cs) =
     (if c = d then [c] # split_inclusive d cs
      else (case split_inclusive d cs of [] \<Rightarrow> [[c]] | w # ws \<Rightarrow> (c # w) # ws))"

definition strip_line_end :: "string \<Rightarrow> string" where
  "strip_line_end l =
     (case strip_suffix [LF] l of
        None \<Rightarrow> l
      | Some m \<Rightarrow> (case strip_suffix [CR] m of None \<Rightarrow> m | Some k \<Rightarrow> k))"

definition str_lines :: "string \<Rightarrow> string list" where
  "str_lines s = map strip_line_end (split_inclusive LF s)"

fun join :: "string \<Rightarrow> string list \<Rightarrow> string" where
  "join d [] = []"
| "join d [w] = w"
| "join d (w # ws) = w @ d @ join d ws"

lemma split_on_not_Nil [simp]: "split_on P s \<noteq> []"
  by (induction s) (auto split: list.splits)

lemma split_on_pieces: "w \<in> set (split_on P s) \<Longrightarrow> c \<in> set w \<Longrightarrow> \<not> P c"
proof (induction s arbitrary: w)
  case (Cons a s)
  then show ?case by (fastforce split: if_splits list.splits)
qed auto

lemma concat_split_inclusive [simp]: "concat (split_inclusive d s) = s"
proof (induction s)
  case (Cons c s)
  then show ?case by (auto split: list.splits)
qed simp

lemma split_inclusive_Nil_iff [simp]: "split_inclusive d s = [] \<longleftrightarrow> s = []"
  by (cases s) (auto split: list.splits)

lemma split_inclusive_piece_ne: "w \<in> set (split_inclusive d s) \<Longrightarrow> w \<noteq> []"
proof (induction s arbitrary: w)
  case (Cons a s)
  then show ?case by (auto split: if_splits list.splits)
qed auto

lemma split_inclusive_no_sep:
  "d \<notin> set s \<Longrightarrow> s \<noteq> [] \<Longrightarrow> split_inclusive d s = [s]"
proof (induction s)
  case (Cons a s)
  then show ?case by (cases "s = []") auto
qed simp

lemma split_inclusive_line:
  "d \<notin> set s \<Longrightarrow> split_inclusive d (s @ d # r) = (s @ [d]) # split_inclusive d r"
  by (induction s) auto

section \<open>UTF-8 characters and whitespace\<close>

text \<open>The width of an encoded character is read off the high bits of its first byte.\<close>

fun utf8_width :: "char \<Rightarrow> nat" where
  "utf8_width (Char b0 b1 b2 b3 b4 b5 b6 b7) =
     (if \<not> b7 \<or> \<not> b6 then 1 else if \<not> b5 then 2 else if \<not> b4 then 3 else 4)"

fun is_continuation :: "char \<Rightarrow> bool" where
  "is_continuation (Char b0 b1 b2 b3 b4 b5 b6 b7) \<longleftrightarrow> b7 \<and> \<not> b6"

fun utf8_chars :: "string \<Rightarrow> string list" where
  "utf8_chars [] = []"
| "utf8_chars (b # bs) =
     (b # take (utf8_width b - 1) bs) # utf8_chars (drop (utf8_width b - 1) bs)"

text \<open>\<^verbatim>\<open>char::is_whitespace\<close>: the code points of the Unicode property White_Space, encoded.\<close>

definition whitespace_chars :: "string list" where
  "whitespace_chars =
     [[CHR 0x09], [CHR 0x0A], [CHR 0x0B], [CHR 0x0C], [CHR 0x0D], [CHR 0x20],
      [CHR 0xC2, CHR 0x85], [CHR 0xC2, CHR 0xA0], [CHR 0xE1, CHR 0x9A, CHR 0x80],
      [CHR 0xE2, CHR 0x80, CHR 0x80], [CHR 0xE2, CHR 0x80, CHR 0x81],
      [CHR 0xE2, CHR 0x80, CHR 0x82], [CHR 0xE2, CHR 0x80, CHR 0x83],
      [CHR 0xE2, CHR 0x80, CHR 0x84], [CHR 0xE2, CHR 0x80, CHR 0x85],
      [CHR 0xE2, CHR 0x80, CHR 0x86], [CHR 0xE2, CHR 0x80, CHR 0x87],
      [CHR 0xE2, CHR 0x80, CHR 0x88], [CHR 0xE2, CHR 0x80, CHR 0x89],
      [CHR 0xE2, CHR 0x80, CHR 0x8A], [CHR 0xE2, CHR 0x80, CHR 0xA8],
      [CHR 0xE2, CHR 0x80, CHR 0xA9], [CHR 0xE2, CHR 0x80, CHR 0xAF],
      [CHR 0xE2, CHR 0x81, CHR 0x9F], [CHR 0xE3, CHR 0x80, CHR 0x80]]"

definition is_whitespace :: "string \<Rightarrow> bool" where
  "is_whitespace c \<longleftrightarrow> c \<in> set whitespace_chars"

definition trim_start :: "string \<Rightarrow> string" where
  "trim_start s = concat (dropWhile is_whitespace (utf8_chars s))"

definition trim_end :: "string \<Rightarrow> string" where
  "trim_end s = concat (rev (dropWhile is_whitespace (rev (utf8_chars s))))"

definition trim :: "string \<Rightarrow> string" where
  "trim s = trim_end (trim_start s)"

lemma concat_utf8_chars [simp]: "concat (utf8_chars s) = s"
  by (induction s rule: utf8_chars.induct) auto

lemma utf8_chars_append:
  "utf8_chars s = xs @ ys \<Longrightarrow> utf8_chars (concat xs) = xs \<and> utf8_chars (concat ys) = ys"
proof (induction s arbitrary: xs rule: utf8_chars.induct)
  case (2 b bs)
  show ?case
  proof (cases xs)
    case Nil
    with "2.prems" have ys: "ys = utf8_chars (b # bs)" by simp
    then have "concat ys = b # bs" by (simp only: concat_utf8_chars)
    with Nil ys show ?thesis by (simp only: utf8_chars.simps(1) concat.simps)
  next
    case (Cons x xs')
    let ?w = "utf8_width b - 1"
    from "2.prems" Cons have x: "x = b # take ?w bs"
      and eq: "utf8_chars (drop ?w bs) = xs' @ ys" by auto
    from "2.IH"[OF eq] have IH: "utf8_chars (concat xs') = xs'" "utf8_chars (concat ys) = ys"
      by auto
    have "utf8_chars (concat xs) = xs"
    proof (cases "?w \<le> length bs")
      case True
      with Cons x IH show ?thesis by simp
    next
      case False
      then have "xs' = []" using eq by simp
      with Cons x False show ?thesis by simp
    qed
    with IH show ?thesis by simp
  qed
qed simp

lemma utf8_chars_trim_start [simp]:
  "utf8_chars (trim_start s) = dropWhile is_whitespace (utf8_chars s)"
  using utf8_chars_append[of s "takeWhile is_whitespace (utf8_chars s)"
      "dropWhile is_whitespace (utf8_chars s)"]
  by (simp add: trim_start_def)

lemma rev_dropWhile_prefix:
  "\<exists>zs. xs = rev (dropWhile P (rev xs)) @ zs \<and> (\<forall>z\<in>set zs. P z)"
proof -
  have "rev (rev xs) = rev (takeWhile P (rev xs) @ dropWhile P (rev xs))"
    by (simp only: takeWhile_dropWhile_id)
  then have "xs = rev (dropWhile P (rev xs)) @ rev (takeWhile P (rev xs))"
    by (simp only: rev_append rev_rev_ident)
  moreover have "\<forall>z\<in>set (rev (takeWhile P (rev xs))). P z"
    by (auto dest: set_takeWhileD)
  ultimately show ?thesis by blast
qed

lemma utf8_chars_trim_end [simp]:
  "utf8_chars (trim_end s) = rev (dropWhile is_whitespace (rev (utf8_chars s)))"
proof -
  obtain zs where "utf8_chars s = rev (dropWhile is_whitespace (rev (utf8_chars s))) @ zs"
    using rev_dropWhile_prefix[of "utf8_chars s" is_whitespace] by blast
  from utf8_chars_append[OF this] show ?thesis unfolding trim_end_def by (rule conjunct1)
qed

lemma string_eqI: "utf8_chars s = utf8_chars t \<Longrightarrow> s = t"
  by (metis concat_utf8_chars)

lemma dropWhile_rev_comm:
  "dropWhile P (rev (dropWhile P (rev xs))) = rev (dropWhile P (rev (dropWhile P xs)))"
proof (induction xs rule: rev_induct)
  case (snoc x xs)
  show ?case
  proof (cases "P x")
    case True
    show ?thesis
    proof (cases "\<forall>y\<in>set xs. P y")
      case all: True
      with True show ?thesis by (auto dest: set_dropWhileD)
    next
      case False
      then have "dropWhile P (xs @ [x]) = dropWhile P xs @ [x]"
        by (auto simp: dropWhile_append)
      with True snoc.IH show ?thesis by simp
    qed
  next
    case False
    then show ?thesis by (simp add: dropWhile_append)
  qed
qed simp

lemma trim_start_trim_end: "trim_start (trim_end s) = trim s"
  by (rule string_eqI) (simp add: trim_def dropWhile_rev_comm)

lemma trim_trim_end [simp]: "trim (trim_end s) = trim s"
proof (rule string_eqI)
  have "utf8_chars (trim (trim_end s)) = utf8_chars (trim_start (trim_end (trim_end s)))"
    by (simp add: trim_start_trim_end)
  then show "utf8_chars (trim (trim_end s)) = utf8_chars (trim s)"
    by (simp add: trim_def dropWhile_rev_comm dropWhile_idem)
qed

lemma trim_end_idem [simp]: "trim_end (trim_end s) = trim_end s"
  by (rule string_eqI) (simp add: dropWhile_idem)

lemma trim_start_idem [simp]: "trim_start (trim_start s) = trim_start s"
  by (rule string_eqI) (simp add: dropWhile_idem)

lemma trim_idem [simp]: "trim (trim s) = trim s"
  by (metis trim_def trim_trim_end trim_start_idem)

lemma trim_Nil [simp]: "trim [] = []"
  by (simp add: trim_def trim_start_def trim_end_def)

lemma trim_end_Nil [simp]: "trim_end [] = []"
  by (simp add: trim_end_def)

lemma trim_end_prefix: "\<exists>w. s = trim_end s @ w"
proof -
  obtain zs where "utf8_chars s = rev (dropWhile is_whitespace (rev (utf8_chars s))) @ zs"
    using rev_dropWhile_prefix[of "utf8_chars s" is_whitespace] by blast
  then have "concat (utf8_chars s) = concat (rev (dropWhile is_whitespace (rev (utf8_chars s))) @ zs)"
    by (rule arg_cong)
  then have "s = trim_end s @ concat zs"
    by (simp only: concat_utf8_chars concat_append trim_end_def)
  then show ?thesis ..
qed

section \<open>ASCII and decimal numbers\<close>

definition ascii_lower :: "char \<Rightarrow> char" where
  "ascii_lower c =
     (case map_of (zip ''ABCDEFGHIJKLMNOPQRSTUVWXYZ'' ''abcdefghijklmnopqrstuvwxyz'') c of
        Some l \<Rightarrow> l
      | None \<Rightarrow> c)"

definition to_ascii_lowercase :: "string \<Rightarrow> string" where
  "to_ascii_lowercase s = map ascii_lower s"

definition eq_ignore_ascii_case :: "string \<Rightarrow> string \<Rightarrow> bool" where
  "eq_ignore_ascii_case a b \<longleftrightarrow> to_ascii_lowercase a = to_ascii_lowercase b"

definition is_ascii_digit :: "char \<Rightarrow> bool" where
  "is_ascii_digit c \<longleftrightarrow> c \<in> set ''0123456789''"

definition is_ascii_alphabetic :: "char \<Rightarrow> bool" where
  "is_ascii_alphabetic c \<longleftrightarrow> ascii_lower c \<in> set ''abcdefghijklmnopqrstuvwxyz''"

definition is_ascii_hexdigit :: "char \<Rightarrow> bool" where
  "is_ascii_hexdigit c \<longleftrightarrow> c \<in> set ''0123456789abcdefABCDEF''"

definition digit_char :: "nat \<Rightarrow> char" where
  "digit_char n = ''0123456789'' ! n"

definition digit_val :: "char \<Rightarrow> nat" where
  "digit_val c = (case map_of (zip ''0123456789'' [0..<10]) c of Some n \<Rightarrow> n | None \<Rightarrow> 0)"

text \<open>\<^verbatim>\<open>to_string\<close> of an unsigned number.\<close>

fun show_nat :: "nat \<Rightarrow> string" where
  "show_nat n = (if n < 10 then [digit_char n] else show_nat (n div 10) @ [digit_char (n mod 10)])"

declare show_nat.simps [simp del]

definition digits_val :: "string \<Rightarrow> nat" where
  "digits_val s = foldl (\<lambda>n c. 10 * n + digit_val c) 0 s"

text \<open>\<^verbatim>\<open>usize::from_str\<close>: an optional plus sign, at least one digit, no overflow.\<close>

definition parse_usize :: "string \<Rightarrow> nat option" where
  "parse_usize s =
     (let d = (case strip_prefix ''+'' s of Some r \<Rightarrow> r | None \<Rightarrow> s)
      in if d = [] \<or> \<not> list_all is_ascii_digit d \<or> usize_max < digits_val d then None
         else Some (digits_val d))"

lemma ascii_lower_idem [simp]: "ascii_lower (ascii_lower c) = ascii_lower c"
  by (simp add: ascii_lower_def split: option.split)

lemma to_ascii_lowercase_idem [simp]:
  "to_ascii_lowercase (to_ascii_lowercase s) = to_ascii_lowercase s"
  by (simp add: to_ascii_lowercase_def)

lemma length_to_ascii_lowercase [simp]: "length (to_ascii_lowercase s) = length s"
  by (simp add: to_ascii_lowercase_def)

lemma to_ascii_lowercase_append [simp]:
  "to_ascii_lowercase (a @ b) = to_ascii_lowercase a @ to_ascii_lowercase b"
  by (simp add: to_ascii_lowercase_def)

lemma digit_cases: "n < 10 \<Longrightarrow> n \<in> {0, 1, 2, 3, 4, 5, 6, 7, 8, 9::nat}"
  by auto

lemma digit_val_digit_char [simp]: "n < 10 \<Longrightarrow> digit_val (digit_char n) = n"
  by (drule digit_cases) (auto simp: digit_val_def digit_char_def upt_rec[of _ 10])

lemma is_ascii_digit_digit_char [simp]: "n < 10 \<Longrightarrow> is_ascii_digit (digit_char n)"
  by (drule digit_cases) (auto simp: is_ascii_digit_def digit_char_def)

lemma digits_val_append: "digits_val (a @ [c]) = 10 * digits_val a + digit_val c"
  by (simp add: digits_val_def)

lemma show_nat_digits:
  "digits_val (show_nat n) = n \<and> list_all is_ascii_digit (show_nat n) \<and> show_nat n \<noteq> []"
proof (induction n rule: show_nat.induct)
  case (1 n)
  show ?case
  proof (cases "n < 10")
    case True
    then show ?thesis by (simp add: show_nat.simps[of n] digits_val_def)
  next
    case False
    with 1 show ?thesis by (simp add: show_nat.simps[of n] digits_val_append)
  qed
qed

lemma show_nat_no_plus: "strip_prefix ''+'' (show_nat n) = None"
proof -
  obtain c cs where c: "show_nat n = c # cs" "is_ascii_digit c"
    using show_nat_digits[of n] by (cases "show_nat n") auto
  then have "c \<noteq> CHR ''+''" by (auto simp: is_ascii_digit_def)
  with c show ?thesis by simp
qed

lemma parse_usize_show_nat [simp]: "n \<le> usize_max \<Longrightarrow> parse_usize (show_nat n) = Some n"
  using show_nat_digits[of n] show_nat_no_plus[of n] by (simp add: parse_usize_def)

definition is_ascii :: "char \<Rightarrow> bool" where
  "is_ascii c \<longleftrightarrow> utf8_width c = 1"

lemma utf8_chars_ascii_prefix:
  "list_all is_ascii m \<Longrightarrow> utf8_chars (m @ s) = map (\<lambda>c. [c]) m @ utf8_chars s"
  by (induction m) (auto simp: is_ascii_def)

end
