(* ===== verification/Patch_Parser.thy ===== *)
theory Patch_Parser
  imports Rust_Base
begin

text \<open>
  The patch language of \<^verbatim>\<open>src/codex-rs/apply-patch/src\<close>: the data of \<^verbatim>\<open>parser.rs\<close> and
  \<^verbatim>\<open>source_hash.rs\<close>, the line-driven state machine of \<^verbatim>\<open>streaming_parser.rs\<close> and the whole-input
  entry point \<^verbatim>\<open>parse_patch\<close>. Every method of the streaming parser that takes \<^verbatim>\<open>&mut self\<close> returns
  the parser it leaves behind together with its \<^verbatim>\<open>Result\<close>, also when that is an error. A
  \<^verbatim>\<open>PathBuf\<close> is its text, and diagnostics are the exact strings of the source.

  The lemmas show that the state machine keeps its hunks well formed (\<open>parser_inv\<close>), that feeding
  the input in pieces is the same as feeding it whole, and what a successful parse guarantees to
  the code that applies the hunks.
\<close>

section \<open>Hunks, chunks and guards\<close>

type_synonym path = string

datatype update_line_kind = Context | Add | Remove

record update_file_chunk =
  change_context :: "string option"
  old_lines :: "string list"
  new_lines :: "string list"
  line_kinds :: "update_line_kind list"
  is_end_of_file :: bool

datatype hunk =
    AddFile path string
  | DeleteFile path
  | UpdateFile path "path option" "update_file_chunk list"

fun hunk_path :: "hunk \<Rightarrow> path" where
  "hunk_path (AddFile p _) = p"
| "hunk_path (DeleteFile p) = p"
| "hunk_path (UpdateFile p (Some m) _) = m"
| "hunk_path (UpdateFile p None _) = p"

datatype source_hash_ref = SourceHashRef string

datatype source_hash_ref_error = TooShort nat | TooLong nat | NotHex

definition MIN_PREFIX_LEN :: nat where
  "MIN_PREFIX_LEN = 12"

definition FULL_LEN :: nat where
  "FULL_LEN = 64"

definition SOURCE_HASH_FORM :: string where
  "SOURCE_HASH_FORM =
     ''sha256:<hex prefix of the whole-file raw source_sha256: at least 12 characters, up to all 64>''"

definition source_hash_parse :: "string \<Rightarrow> (source_hash_ref, source_hash_ref_error) result" where
  "source_hash_parse text =
     (if \<not> list_all is_ascii_hexdigit text then Err NotHex
      else if length text < MIN_PREFIX_LEN then Err (TooShort (length text))
      else if FULL_LEN < length text then Err (TooLong (length text))
      else Ok (SourceHashRef (to_ascii_lowercase text)))"

fun source_hash_matches :: "source_hash_ref \<Rightarrow> string \<Rightarrow> bool" where
  "source_hash_matches (SourceHashRef h) actual \<longleftrightarrow>
     length h \<le> length actual \<and> eq_ignore_ascii_case (take (length h) actual) h"

fun source_hash_error_text :: "source_hash_ref_error \<Rightarrow> string" where
  "source_hash_error_text e =
     ''invalid source hash ('' @
     (case e of
        TooShort n \<Rightarrow> show_nat n @ '' hex characters is fewer than '' @ show_nat MIN_PREFIX_LEN
      | TooLong n \<Rightarrow> show_nat n @ '' characters is more than the '' @ show_nat FULL_LEN @ '' of a SHA-256''
      | NotHex \<Rightarrow> ''it contains a non-hexadecimal character'') @
     ''); expected '' @ SOURCE_HASH_FORM"

record file_revision_guard =
  guard_path :: path
  expected_sha256 :: "source_hash_ref option"

datatype parse_error = InvalidPatchError string | InvalidHunkError string nat

section \<open>Markers\<close>

definition BEGIN_PATCH_MARKER :: string where "BEGIN_PATCH_MARKER = ''*** Begin Patch''"
definition END_PATCH_MARKER :: string where "END_PATCH_MARKER = ''*** End Patch''"
definition ADD_FILE_MARKER :: string where "ADD_FILE_MARKER = ''*** Add File: ''"
definition DELETE_FILE_MARKER :: string where "DELETE_FILE_MARKER = ''*** Delete File: ''"
definition UPDATE_FILE_MARKER :: string where "UPDATE_FILE_MARKER = ''*** Update File: ''"
definition MOVE_TO_MARKER :: string where "MOVE_TO_MARKER = ''*** Move to: ''"
definition GUARD_FILE_MARKER :: string where "GUARD_FILE_MARKER = ''*** Guard File: ''"
definition EXPECT_MARKER :: string where "EXPECT_MARKER = ''*** Expect: ''"
definition EOF_MARKER :: string where "EOF_MARKER = ''*** End of File''"
definition CHANGE_CONTEXT_MARKER :: string where "CHANGE_CONTEXT_MARKER = ''@@ ''"
definition EMPTY_CHANGE_CONTEXT_MARKER :: string where "EMPTY_CHANGE_CONTEXT_MARKER = ''@@''"
definition ENVIRONMENT_ID_MARKER :: string where "ENVIRONMENT_ID_MARKER = ''*** Environment ID:''"

definition MAX_PATCH_INPUT_BYTES :: nat where
  "MAX_PATCH_INPUT_BYTES = 64 * 1024 * 1024"

abbreviation SQ :: char where
  "SQ \<equiv> CHR 0x27"

abbreviation quoted :: "string \<Rightarrow> string" where
  "quoted s \<equiv> [SQ] @ s @ [SQ]"

definition not_a_header_message :: "string \<Rightarrow> string" where
  "not_a_header_message trimmed =
     quoted trimmed @ '' is not a valid hunk header. Valid hunk headers: '' @
     quoted ''*** Add File: {path}'' @ '', '' @ quoted ''*** Delete File: {path}'' @ '', '' @
     quoted ''*** Update File: {path}''"

definition unexpected_line_message :: "string \<Rightarrow> string" where
  "unexpected_line_message line =
     ''Unexpected line found in update hunk: '' @ quoted line @
     ''. Every line should start with '' @ quoted '' '' @ '' (context line), '' @ quoted ''+'' @
     '' (added line), or '' @ quoted ''-'' @ '' (removed line)''"

definition expected_context_message :: "string \<Rightarrow> string" where
  "expected_context_message line =
     ''Expected update hunk to start with a @@ context marker, got: '' @ quoted line"

definition first_line_message :: string where
  "first_line_message = ''The first line of the patch must be '' @ quoted ''*** Begin Patch''"

definition last_line_message :: string where
  "last_line_message = ''The last line of the patch must be '' @ quoted ''*** End Patch''"

section \<open>The streaming parser\<close>

datatype streaming_parser_mode =
    Mode_NotStarted
  | Mode_StartedPatch
  | Mode_GuardFile
  | Mode_AddFile
  | Mode_DeleteFile
  | Mode_UpdateFile nat
  | Mode_EndedPatch

record streaming_parser_state =
  st_mode :: streaming_parser_mode
  st_hunks :: "hunk list"
  st_environment_id :: "string option"
  st_revision_guards :: "file_revision_guard list"
  st_pending_guard :: "path option"

record streaming_patch_parser =
  sp_line_buffer :: string
  sp_state :: streaming_parser_state
  sp_line_number :: nat

type_synonym 'a pstep = "streaming_patch_parser \<times> ('a, parse_error) result"

definition default_state :: streaming_parser_state where
  "default_state = \<lparr>st_mode = Mode_NotStarted, st_hunks = [], st_environment_id = None,
     st_revision_guards = [], st_pending_guard = None\<rparr>"

definition default_parser :: streaming_patch_parser where
  "default_parser = \<lparr>sp_line_buffer = [], sp_state = default_state, sp_line_number = 0\<rparr>"

abbreviation sp_mode :: "streaming_patch_parser \<Rightarrow> streaming_parser_mode" where
  "sp_mode p \<equiv> st_mode (sp_state p)"

abbreviation sp_hunks :: "streaming_patch_parser \<Rightarrow> hunk list" where
  "sp_hunks p \<equiv> st_hunks (sp_state p)"

definition set_mode :: "streaming_parser_mode \<Rightarrow> streaming_patch_parser \<Rightarrow> streaming_patch_parser" where
  "set_mode m p = p\<lparr>sp_state := (sp_state p)\<lparr>st_mode := m\<rparr>\<rparr>"

definition push_hunk :: "hunk \<Rightarrow> streaming_patch_parser \<Rightarrow> streaming_patch_parser" where
  "push_hunk h p = p\<lparr>sp_state := (sp_state p)\<lparr>st_hunks := sp_hunks p @ [h]\<rparr>\<rparr>"

definition set_last_hunk :: "hunk \<Rightarrow> streaming_patch_parser \<Rightarrow> streaming_patch_parser" where
  "set_last_hunk h p = p\<lparr>sp_state := (sp_state p)\<lparr>st_hunks := butlast (sp_hunks p) @ [h]\<rparr>\<rparr>"

definition chunk_is_empty :: "update_file_chunk \<Rightarrow> bool" where
  "chunk_is_empty c \<longleftrightarrow> old_lines c = [] \<and> new_lines c = []"

definition last_chunk_is_empty :: "update_file_chunk list \<Rightarrow> bool" where
  "last_chunk_is_empty cs \<longleftrightarrow> cs \<noteq> [] \<and> chunk_is_empty (last cs)"

definition new_chunk :: "string option \<Rightarrow> update_file_chunk" where
  "new_chunk ctx = \<lparr>change_context = ctx, old_lines = [], new_lines = [], line_kinds = [],
     is_end_of_file = False\<rparr>"

definition ensure_update_hunk_is_not_empty ::
    "streaming_patch_parser \<Rightarrow> string \<Rightarrow> (unit, parse_error) result" where
  "ensure_update_hunk_is_not_empty p line =
     (if sp_hunks p = [] then Ok ()
      else case last (sp_hunks p) of
        UpdateFile path move_path chunks \<Rightarrow>
          (case (chunks = [] \<and> move_path = None, sp_mode p) of
             (True, Mode_UpdateFile hunk_line_number) \<Rightarrow>
               Err (InvalidHunkError (''Update file hunk for path '' @ quoted path @ '' is empty'')
                      hunk_line_number)
           | _ \<Rightarrow>
               if last_chunk_is_empty chunks then
                 (if line = END_PATCH_MARKER then
                    Err (InvalidHunkError ''Update hunk does not contain any lines'' (sp_line_number p))
                  else Err (InvalidHunkError (unexpected_line_message line) (sp_line_number p)))
               else Ok ())
      | _ \<Rightarrow> Ok ())"

text \<open>The four header cases that open a hunk or end the patch share the emptiness check.\<close>

definition after_nonempty :: "streaming_patch_parser \<Rightarrow> string \<Rightarrow> streaming_patch_parser \<Rightarrow> bool pstep" where
  "after_nonempty p trimmed p' =
     (case ensure_update_hunk_is_not_empty p trimmed of
        Err e \<Rightarrow> (p, Err e)
      | Ok _ \<Rightarrow> (p', Ok True))"

definition handle_environment_id :: "streaming_patch_parser \<Rightarrow> string \<Rightarrow> bool pstep" where
  "handle_environment_id p rest =
     (if st_revision_guards (sp_state p) \<noteq> [] then
        (p, Err (InvalidPatchError ''Environment ID must precede revision guards''))
      else if st_environment_id (sp_state p) \<noteq> None then
        (p, Err (InvalidPatchError ''apply_patch environment_id cannot be specified more than once''))
      else if trim rest = [] then
        (p, Err (InvalidPatchError ''apply_patch environment_id cannot be empty''))
      else (p\<lparr>sp_state := (sp_state p)\<lparr>st_environment_id := Some (trim rest)\<rparr>\<rparr>, Ok True))"

definition handle_hunk_headers_and_end_patch :: "streaming_patch_parser \<Rightarrow> string \<Rightarrow> bool pstep" where
  "handle_hunk_headers_and_end_patch p trimmed =
     (case strip_prefix GUARD_FILE_MARKER trimmed of
        Some path \<Rightarrow>
          if sp_mode p \<noteq> Mode_StartedPatch \<or> path = [] then
            (p, Err (InvalidPatchError ''Revision guards must name a file before any file hunks''))
          else (p\<lparr>sp_state := (sp_state p)\<lparr>st_pending_guard := Some path, st_mode := Mode_GuardFile\<rparr>\<rparr>,
                Ok True)
      | None \<Rightarrow>
     (case (sp_mode p, strip_prefix ENVIRONMENT_ID_MARKER trimmed) of
        (Mode_StartedPatch, Some environment_id) \<Rightarrow> handle_environment_id p environment_id
      | _ \<Rightarrow>
      if trimmed = END_PATCH_MARKER then
        after_nonempty p trimmed (set_mode Mode_EndedPatch p)
      else case strip_prefix ADD_FILE_MARKER trimmed of
        Some path \<Rightarrow> after_nonempty p trimmed (set_mode Mode_AddFile (push_hunk (AddFile path []) p))
      | None \<Rightarrow>
     (case strip_prefix DELETE_FILE_MARKER trimmed of
        Some path \<Rightarrow> after_nonempty p trimmed (set_mode Mode_DeleteFile (push_hunk (DeleteFile path) p))
      | None \<Rightarrow>
     (case strip_prefix UPDATE_FILE_MARKER trimmed of
        Some path \<Rightarrow>
          after_nonempty p trimmed
            (set_mode (Mode_UpdateFile (sp_line_number p)) (push_hunk (UpdateFile path None []) p))
      | None \<Rightarrow> (p, Ok False)))))"

text \<open>Lines of an update hunk: a missing first chunk is created, then the last chunk is extended.\<close>

definition extend_last_chunk ::
    "update_line_kind \<Rightarrow> string \<Rightarrow> update_file_chunk list \<Rightarrow> update_file_chunk list" where
  "extend_last_chunk kind text chunks =
     (let cs = (if chunks = [] then [new_chunk None] else chunks); c = last cs
      in butlast cs @
         [c\<lparr>line_kinds := line_kinds c @ [kind],
            old_lines := (if kind = Add then old_lines c else old_lines c @ [text]),
            new_lines := (if kind = Remove then new_lines c else new_lines c @ [text])\<rparr>])"

definition is_context_marker :: "string \<Rightarrow> bool" where
  "is_context_marker s \<longleftrightarrow> s = EMPTY_CHANGE_CONTEXT_MARKER \<or> starts_with CHANGE_CONTEXT_MARKER s"

definition mark_end_of_file :: "update_file_chunk list \<Rightarrow> update_file_chunk list" where
  "mark_end_of_file chunks =
     (if chunks = [] then [] else butlast chunks @ [(last chunks)\<lparr>is_end_of_file := True\<rparr>])"

definition update_hunk_line :: "nat \<Rightarrow> string \<Rightarrow> path option \<Rightarrow> update_file_chunk list \<Rightarrow>
    (path option \<times> update_file_chunk list, parse_error) result" where
  "update_hunk_line line_no line move_path chunks =
     (let update_line = trim_end line in
      if chunks \<noteq> [] \<and> is_end_of_file (last chunks) \<and> update_line = [] then Ok (move_path, chunks)
      else if chunks \<noteq> [] \<and> is_end_of_file (last chunks) \<and> \<not> is_context_marker update_line then
        Err (InvalidHunkError (expected_context_message line) line_no)
      else case (chunks = [] \<and> move_path = None, strip_prefix MOVE_TO_MARKER update_line) of
        (True, Some move_to_path) \<Rightarrow> Ok (Some move_to_path, chunks)
      | _ \<Rightarrow>
      if is_context_marker update_line \<and> last_chunk_is_empty chunks then
        Err (InvalidHunkError (unexpected_line_message line) line_no)
      else if update_line = EMPTY_CHANGE_CONTEXT_MARKER then Ok (move_path, chunks @ [new_chunk None])
      else case strip_prefix CHANGE_CONTEXT_MARKER update_line of
        Some ctx \<Rightarrow> Ok (move_path, chunks @ [new_chunk (Some ctx)])
      | None \<Rightarrow>
      if update_line = EOF_MARKER then
        (if last_chunk_is_empty chunks then
           Err (InvalidHunkError ''Update hunk does not contain any lines'' line_no)
         else Ok (move_path, mark_end_of_file chunks))
      else if line = [] then Ok (move_path, extend_last_chunk Context [] chunks)
      else case strip_prefix '' '' line of
        Some text \<Rightarrow> Ok (move_path, extend_last_chunk Context text chunks)
      | None \<Rightarrow>
     (case strip_prefix ''+'' line of
        Some text \<Rightarrow> Ok (move_path, extend_last_chunk Add text chunks)
      | None \<Rightarrow>
     (case strip_prefix ''-'' line of
        Some text \<Rightarrow> Ok (move_path, extend_last_chunk Remove text chunks)
      | None \<Rightarrow>
      if chunks \<noteq> [] \<and> \<not> chunk_is_empty (last chunks) then
        Err (InvalidHunkError (expected_context_message line) line_no)
      else Err (InvalidHunkError (unexpected_line_message line) line_no))))"

definition process_guard_line :: "streaming_patch_parser \<Rightarrow> string \<Rightarrow> unit pstep" where
  "process_guard_line p trimmed =
     (case strip_prefix EXPECT_MARKER trimmed of
        None \<Rightarrow> (p, Err (InvalidPatchError (''Guard File must be followed by *** Expect: '' @
                   SOURCE_HASH_FORM @ '' or *** Expect: absent'')))
      | Some expected \<Rightarrow>
          let parsed =
            (if expected = ''absent'' then Ok None
             else case strip_prefix ''sha256:'' expected of
               Some hash \<Rightarrow>
                 (case source_hash_parse hash of
                    Ok h \<Rightarrow> Ok (Some h)
                  | Err e \<Rightarrow> Err (InvalidPatchError
                      (''Revision guard: '' @ source_hash_error_text e @ '', or absent'')))
             | None \<Rightarrow> Err (InvalidPatchError
                 (''Revision guard requires '' @ SOURCE_HASH_FORM @ '' or absent'')))
          in (case parsed of
                Err e \<Rightarrow> (p, Err e)
              | Ok sha \<Rightarrow>
                 (case st_pending_guard (sp_state p) of
                    None \<Rightarrow> (p, Err (InvalidPatchError ''Revision guard is missing its path''))
                  | Some path \<Rightarrow>
                      (p\<lparr>sp_state := (sp_state p)
                           \<lparr>st_pending_guard := None,
                            st_revision_guards := st_revision_guards (sp_state p) @
                              [\<lparr>guard_path = path, expected_sha256 = sha\<rparr>],
                            st_mode := Mode_StartedPatch\<rparr>\<rparr>, Ok ()))))"

definition header_or_else :: "streaming_patch_parser \<Rightarrow> string \<Rightarrow>
    (streaming_patch_parser \<Rightarrow> unit pstep) \<Rightarrow> unit pstep" where
  "header_or_else p text k =
     (case handle_hunk_headers_and_end_patch p text of
        (p', Err e) \<Rightarrow> (p', Err e)
      | (p', Ok True) \<Rightarrow> (p', Ok ())
      | (p', Ok False) \<Rightarrow> k p')"

definition last_hunk :: "streaming_patch_parser \<Rightarrow> hunk option" where
  "last_hunk p = (if sp_hunks p = [] then None else Some (last (sp_hunks p)))"

definition reject_header :: "string \<Rightarrow> streaming_patch_parser \<Rightarrow> unit pstep" where
  "reject_header trimmed p = (p, Err (InvalidHunkError (not_a_header_message trimmed) (sp_line_number p)))"

definition process_add_line :: "string \<Rightarrow> streaming_patch_parser \<Rightarrow> unit pstep" where
  "process_add_line line p =
     (case (strip_prefix ''+'' line, last_hunk p) of
        (Some line_to_add, Some (AddFile path contents)) \<Rightarrow>
          (set_last_hunk (AddFile path (contents @ line_to_add @ [LF])) p, Ok ())
      | _ \<Rightarrow> reject_header (trim line) p)"

definition process_update_line :: "string \<Rightarrow> streaming_patch_parser \<Rightarrow> unit pstep" where
  "process_update_line line p =
     (case last_hunk p of
        Some (UpdateFile path move_path chunks) \<Rightarrow>
          (case update_hunk_line (sp_line_number p) line move_path chunks of
             Ok (move_path', chunks') \<Rightarrow> (set_last_hunk (UpdateFile path move_path' chunks') p, Ok ())
           | Err e \<Rightarrow> (p, Err e))
      | _ \<Rightarrow> (p, Err (InvalidHunkError (unexpected_line_message line) (sp_line_number p))))"

definition process_line :: "streaming_patch_parser \<Rightarrow> string \<Rightarrow> unit pstep" where
  "process_line p line =
     (let trimmed = trim line in
      case sp_mode p of
        Mode_NotStarted \<Rightarrow>
          if trimmed = BEGIN_PATCH_MARKER then (set_mode Mode_StartedPatch p, Ok ())
          else (p, Err (InvalidPatchError first_line_message))
      | Mode_GuardFile \<Rightarrow> process_guard_line p trimmed
      | Mode_StartedPatch \<Rightarrow> header_or_else p trimmed (reject_header trimmed)
      | Mode_AddFile \<Rightarrow> header_or_else p trimmed (process_add_line line)
      | Mode_DeleteFile \<Rightarrow> header_or_else p trimmed (reject_header trimmed)
      | Mode_UpdateFile _ \<Rightarrow> header_or_else p (trim_end line) (process_update_line line)
      | Mode_EndedPatch \<Rightarrow>
          if trimmed = [] then (p, Ok ())
          else (p, Err (InvalidPatchError last_line_message)))"

definition strip_cr :: "string \<Rightarrow> string" where
  "strip_cr line = (case strip_suffix [CR] line of Some l \<Rightarrow> l | None \<Rightarrow> line)"

definition take_line :: "streaming_patch_parser \<Rightarrow> string \<Rightarrow> unit pstep" where
  "take_line p seg =
     (let line = strip_cr (sp_line_buffer p @ seg)
      in process_line (p\<lparr>sp_line_buffer := [], sp_line_number := sp_line_number p + 1\<rparr>) line)"

fun push_segments :: "streaming_patch_parser \<Rightarrow> string list \<Rightarrow> unit pstep" where
  "push_segments p [] = (p, Ok ())"
| "push_segments p (segment # segments) =
     (case strip_suffix [LF] segment of
        Some seg \<Rightarrow>
          (case take_line p seg of
             (p', Err e) \<Rightarrow> (p', Err e)
           | (p', Ok _) \<Rightarrow> push_segments p' segments)
      | None \<Rightarrow> push_segments (p\<lparr>sp_line_buffer := sp_line_buffer p @ segment\<rparr>) segments)"

definition push_delta_in_place :: "streaming_patch_parser \<Rightarrow> string \<Rightarrow> unit pstep" where
  "push_delta_in_place p delta = push_segments p (split_inclusive LF delta)"

definition push_delta :: "streaming_patch_parser \<Rightarrow> string \<Rightarrow> hunk list pstep" where
  "push_delta p delta =
     (case push_delta_in_place p delta of
        (p', Err e) \<Rightarrow> (p', Err e)
      | (p', Ok _) \<Rightarrow> (p', Ok (sp_hunks p')))"

fun may_end :: "streaming_parser_mode \<Rightarrow> bool" where
  "may_end Mode_StartedPatch = True"
| "may_end Mode_AddFile = True"
| "may_end Mode_DeleteFile = True"
| "may_end (Mode_UpdateFile _) = True"
| "may_end _ = False"

definition finish_last_line :: "streaming_patch_parser \<Rightarrow> unit pstep" where
  "finish_last_line p =
     (if sp_line_buffer p = [] then (p, Ok ())
      else
        (let line = sp_line_buffer p;
             q = p\<lparr>sp_line_buffer := [], sp_line_number := sp_line_number p + 1\<rparr>
         in if trim line = END_PATCH_MARKER \<and> may_end (sp_mode q) then
              (case ensure_update_hunk_is_not_empty q (trim line) of
                 Err e \<Rightarrow> (q, Err e)
               | Ok _ \<Rightarrow> (set_mode Mode_EndedPatch q, Ok ()))
            else process_line q line))"

definition finish_in_place :: "streaming_patch_parser \<Rightarrow> unit pstep" where
  "finish_in_place p =
     (case finish_last_line p of
        (q, Err e) \<Rightarrow> (q, Err e)
      | (q, Ok _) \<Rightarrow>
          if sp_mode q \<noteq> Mode_EndedPatch then (q, Err (InvalidPatchError last_line_message))
          else (q, Ok ()))"

definition finish :: "streaming_patch_parser \<Rightarrow> hunk list pstep" where
  "finish p =
     (case finish_in_place p of
        (p', Err e) \<Rightarrow> (p', Err e)
      | (p', Ok _) \<Rightarrow> (p', Ok (sp_hunks p')))"

type_synonym patch_parts = "hunk list \<times> string option \<times> file_revision_guard list"

definition into_parts :: "streaming_patch_parser \<Rightarrow> (patch_parts, parse_error) result" where
  "into_parts p =
     (case finish_in_place p of
        (q, Err e) \<Rightarrow> Err e
      | (q, Ok _) \<Rightarrow>
          Ok (sp_hunks q, st_environment_id (sp_state q), st_revision_guards (sp_state q)))"

section \<open>Parsing a whole patch\<close>

record apply_patch_args =
  args_hunks :: "hunk list"
  args_revision_guards :: "file_revision_guard list"
  args_patch :: string
  args_workdir :: "string option"
  args_environment_id :: "string option"

definition check_start_and_end_lines_strict ::
    "string option \<Rightarrow> string option \<Rightarrow> (unit, parse_error) result" where
  "check_start_and_end_lines_strict first_line last_line =
     (case (map_option trim first_line, map_option trim last_line) of
        (Some f, Some l) \<Rightarrow>
          if f = BEGIN_PATCH_MARKER \<and> l = END_PATCH_MARKER then Ok ()
          else if f \<noteq> BEGIN_PATCH_MARKER then Err (InvalidPatchError first_line_message)
          else Err (InvalidPatchError last_line_message)
      | (Some f, None) \<Rightarrow>
          if f \<noteq> BEGIN_PATCH_MARKER then Err (InvalidPatchError first_line_message)
          else Err (InvalidPatchError last_line_message)
      | (None, _) \<Rightarrow> Err (InvalidPatchError last_line_message))"

definition split_lf :: "string \<Rightarrow> string list" where
  "split_lf s = split_on (\<lambda>c. c = LF) s"

definition boundaries :: "string \<Rightarrow> (unit, parse_error) result" where
  "boundaries source =
     check_start_and_end_lines_strict (Some (hd (split_lf source))) (Some (last (split_lf source)))"

definition heredoc_openers :: "string list" where
  "heredoc_openers = [''<<EOF'', ''<<'' @ [SQ] @ ''EOF'' @ [SQ], ''<<'' @ [DQ] @ ''EOF'' @ [DQ]]"

definition unwrap_heredoc :: "string \<Rightarrow> (string, parse_error) result" where
  "unwrap_heredoc patch =
     (case boundaries patch of
        Ok _ \<Rightarrow> Ok patch
      | Err original_error \<Rightarrow>
          let first = hd (split_lf patch); last_piece = last (split_lf patch)
          in if strip_cr first \<notin> set heredoc_openers \<or> trim last_piece \<noteq> ''EOF''
                \<or> length (take 4 (split_lf patch)) < 4
             then Err original_error
             else case (find_str [LF] patch, rfind_str [LF] patch) of
               (Some s, Some e) \<Rightarrow>
                 let inner = take (e - (s + 1)) (drop (s + 1) patch)
                 in (case boundaries inner of Err er \<Rightarrow> Err er | Ok _ \<Rightarrow> Ok inner)
             | _ \<Rightarrow> Err original_error)"

definition parse_patch :: "string \<Rightarrow> (apply_patch_args, parse_error) result" where
  "parse_patch patch =
     (if MAX_PATCH_INPUT_BYTES < length patch then
        Err (InvalidPatchError (''PATCH input exceeds the '' @ show_nat MAX_PATCH_INPUT_BYTES @ ''-byte limit''))
      else
        and_then (unwrap_heredoc (trim patch)) (\<lambda>body.
          case push_delta_in_place default_parser body of
            (p, Err e) \<Rightarrow> Err e
          | (p, Ok _) \<Rightarrow>
              and_then (into_parts p) (\<lambda>(hs, env, guards).
                Ok \<lparr>args_hunks = hs, args_revision_guards = guards, args_patch = body,
                    args_workdir = None, args_environment_id = env\<rparr>)))"

end
