(* ===== verification/Parser_Invariant.thy ===== *)
theory Parser_Invariant
  imports Patch_Parser
begin

text \<open>
  What the line-driven parser keeps true of its state, and what its callers may rely on.

  \<^item> \<open>incremental\<close> is the contract of a consumer that is fed its input in pieces; the streaming
    parser provides it, so the way the input is cut never matters.
  \<^item> \<open>mode_edge\<close> is the abstract state machine of the parser, which every processed line follows.
  \<^item> \<open>parser_inv\<close> is the well-formedness of the parser's state: completed hunks are well formed,
    the hunk being read is well formed up to its unfinished last chunk, and mode, hunks and pending
    guard agree.
\<close>

section \<open>Feeding the input in pieces\<close>

text \<open>A caller that streams hands over one delta at a time and stops at the first error.\<close>

fun feed_all :: "('p \<Rightarrow> 'd \<Rightarrow> 'p \<times> (unit, 'e) result) \<Rightarrow> 'p \<Rightarrow> 'd list \<Rightarrow> 'p \<times> (unit, 'e) result" where
  "feed_all feed p [] = (p, Ok ())"
| "feed_all feed p (d # ds) =
     (case feed p d of (q, Err e) \<Rightarrow> (q, Err e) | (q, Ok _) \<Rightarrow> feed_all feed q ds)"

text \<open>
  A consumer with an error sink: feeding nothing changes nothing, and feeding two pieces is
  feeding the first and, if that succeeded, the second.
\<close>

locale incremental =
  fixes feed :: "'p \<Rightarrow> 'a list \<Rightarrow> 'p \<times> (unit, 'e) result"
  assumes feed_Nil: "feed p [] = (p, Ok ())"
    and feed_append: "feed p (a @ b) =
      (case feed p a of (q, Err e) \<Rightarrow> (q, Err e) | (q, Ok _) \<Rightarrow> feed q b)"
begin

lemma feed_all_concat: "feed_all feed p ds = feed p (concat ds)"
  by (induction ds arbitrary: p)
     (auto simp: feed_Nil feed_append split: prod.splits result.splits)

lemma feed_all_cut: "concat ds = concat es \<Longrightarrow> feed_all feed p ds = feed_all feed p es"
  by (simp add: feed_all_concat)

lemma feed_prefix_ok:
  assumes "feed p (a @ b) = (q, Ok ())"
  shows "\<exists>r. feed p a = (r, Ok ()) \<and> feed r b = (q, Ok ())"
  using assms by (auto simp: feed_append split: prod.splits result.splits)

lemma feed_invariant:
  assumes step: "\<And>p x q r. I p \<Longrightarrow> feed p [x] = (q, r) \<Longrightarrow> I q"
  shows "I p \<Longrightarrow> feed p s = (q, r) \<Longrightarrow> I q"
proof (induction s arbitrary: p)
  case Nil
  then show ?case by (simp add: feed_Nil)
next
  case (Cons x s)
  obtain q1 r1 where one: "feed p [x] = (q1, r1)" by fastforce
  with step Cons.prems(1) have "I q1" by blast
  moreover have "feed p (x # s) = (case r1 of Err e \<Rightarrow> (q1, Err e) | Ok _ \<Rightarrow> feed q1 s)"
    using feed_append[of p "[x]" s] one by simp
  ultimately show ?case using Cons by (cases r1) auto
qed

end

text \<open>The parser consumes its input byte by byte: a byte is buffered, a line feed ends the line.\<close>

fun push_bytes :: "streaming_patch_parser \<Rightarrow> string \<Rightarrow> unit pstep" where
  "push_bytes p [] = (p, Ok ())"
| "push_bytes p (c # cs) =
     (if c = LF then
        (case take_line p [] of (q, Err e) \<Rightarrow> (q, Err e) | (q, Ok _) \<Rightarrow> push_bytes q cs)
      else push_bytes (p\<lparr>sp_line_buffer := sp_line_buffer p @ [c]\<rparr>) cs)"

lemma take_line_buffer:
  "take_line p s = take_line (p\<lparr>sp_line_buffer := sp_line_buffer p @ s\<rparr>) []"
  by (simp add: take_line_def)

lemma strip_suffix_LF_Cons:
  assumes "c \<noteq> LF"
  shows "strip_suffix [LF] (c # w) = map_option ((#) c) (strip_suffix [LF] w)"
proof (cases "strip_suffix [LF] w")
  case None
  have "strip_suffix [LF] (c # w) \<noteq> Some r" for r
    using None assms by (cases r) auto
  with None show ?thesis by (cases "strip_suffix [LF] (c # w)") auto
next
  case (Some r)
  then have "c # w = (c # r) @ [LF]" by simp
  with Some show ?thesis by (simp only: strip_suffix_append option.map)
qed

lemma take_line_Cons:
  "take_line p (c # s) = take_line (p\<lparr>sp_line_buffer := sp_line_buffer p @ [c]\<rparr>) s"
  by (simp add: take_line_def)

lemma push_segments_line:
  "push_segments p ((s @ [LF]) # ws) =
     (case take_line p s of (q, Err e) \<Rightarrow> (q, Err e) | (q, Ok _) \<Rightarrow> push_segments q ws)"
  by simp

lemma push_segments_Cons_byte:
  assumes "c \<noteq> LF"
  shows "push_segments p ((c # w) # ws) =
     push_segments (p\<lparr>sp_line_buffer := sp_line_buffer p @ [c]\<rparr>) (w # ws)"
proof (cases "strip_suffix [LF] w")
  case None
  with strip_suffix_LF_Cons[OF assms, of w] show ?thesis by simp
next
  case (Some r)
  then have "w = r @ [LF]" "c # w = (c # r) @ [LF]" by simp_all
  then show ?thesis by (simp only: push_segments_line take_line_Cons)
qed

lemma push_delta_eq_bytes: "push_delta_in_place p s = push_bytes p s"
proof (induction s arbitrary: p)
  case Nil
  then show ?case by (simp add: push_delta_in_place_def)
next
  case (Cons c s)
  show ?case
  proof (cases "c = LF")
    case True
    with Cons.IH show ?thesis
      by (simp add: push_delta_in_place_def split: prod.split result.split)
  next
    case False
    show ?thesis
    proof (cases "split_inclusive LF s")
      case Nil
      then have "s = []" by simp
      moreover have "strip_suffix [LF] [c] = None"
        using False by (simp add: strip_suffix_LF_Cons strip_suffix_def)
      ultimately show ?thesis using False by (simp add: push_delta_in_place_def)
    next
      case (Cons w ws)
      with False Cons.IH[symmetric] show ?thesis
        by (simp add: push_delta_in_place_def push_segments_Cons_byte del: push_segments.simps)
    qed
  qed
qed

lemma push_bytes_append:
  "push_bytes p (a @ b) =
     (case push_bytes p a of (q, Err e) \<Rightarrow> (q, Err e) | (q, Ok _) \<Rightarrow> push_bytes q b)"
  by (induction a arbitrary: p) (auto split: prod.split result.split)

interpretation patch_stream: incremental push_delta_in_place
proof
  fix p :: streaming_patch_parser and a b :: string
  show "push_delta_in_place p [] = (p, Ok ())" by (simp add: push_delta_in_place_def)
  show "push_delta_in_place p (a @ b) =
      (case push_delta_in_place p a of (q, Err e) \<Rightarrow> (q, Err e) | (q, Ok _) \<Rightarrow> push_delta_in_place q b)"
    by (simp only: push_delta_eq_bytes push_bytes_append)
qed

section \<open>Well-formed chunks, hunks and guards\<close>

text \<open>
  The kinds of a chunk account for its lines one by one: a context line is in both sides, an added
  line only in the new one, a removed line only in the old one.
\<close>

fun aligned :: "update_line_kind list \<Rightarrow> string list \<Rightarrow> string list \<Rightarrow> bool" where
  "aligned [] os ns \<longleftrightarrow> os = [] \<and> ns = []"
| "aligned (Context # ks) (x # os) (y # ns) \<longleftrightarrow> x = y \<and> aligned ks os ns"
| "aligned (Add # ks) os (y # ns) \<longleftrightarrow> aligned ks os ns"
| "aligned (Remove # ks) (x # os) ns \<longleftrightarrow> aligned ks os ns"
| "aligned _ _ _ \<longleftrightarrow> False"

definition chunk_wf :: "update_file_chunk \<Rightarrow> bool" where
  "chunk_wf c \<longleftrightarrow> aligned (line_kinds c) (old_lines c) (new_lines c)"

definition nonempty_chunk :: "update_file_chunk \<Rightarrow> bool" where
  "nonempty_chunk c \<longleftrightarrow> \<not> chunk_is_empty c"

fun hunk_open :: "hunk \<Rightarrow> bool" where
  "hunk_open (AddFile p contents) \<longleftrightarrow> p \<noteq> [] \<and> (contents = [] \<or> ends_with [LF] contents)"
| "hunk_open (DeleteFile p) \<longleftrightarrow> p \<noteq> []"
| "hunk_open (UpdateFile p m cs) \<longleftrightarrow>
     p \<noteq> [] \<and> m \<noteq> Some [] \<and> list_all chunk_wf cs \<and> list_all nonempty_chunk (butlast cs)"

fun hunk_done :: "hunk \<Rightarrow> bool" where
  "hunk_done (UpdateFile p m cs) \<longleftrightarrow>
     p \<noteq> [] \<and> m \<noteq> Some [] \<and> (cs = [] \<longrightarrow> m \<noteq> None) \<and> list_all chunk_wf cs \<and> list_all nonempty_chunk cs"
| "hunk_done h \<longleftrightarrow> hunk_open h"

fun hash_ref_ok :: "source_hash_ref \<Rightarrow> bool" where
  "hash_ref_ok (SourceHashRef h) \<longleftrightarrow>
     MIN_PREFIX_LEN \<le> length h \<and> length h \<le> FULL_LEN \<and> list_all is_ascii_hexdigit h
     \<and> to_ascii_lowercase h = h"

definition guard_ok :: "file_revision_guard \<Rightarrow> bool" where
  "guard_ok g \<longleftrightarrow> guard_path g \<noteq> [] \<and> pred_option hash_ref_ok (expected_sha256 g)"

fun mode_hunks_ok :: "streaming_parser_mode \<Rightarrow> hunk list \<Rightarrow> bool" where
  "mode_hunks_ok Mode_NotStarted hs \<longleftrightarrow> hs = []"
| "mode_hunks_ok Mode_StartedPatch hs \<longleftrightarrow> hs = []"
| "mode_hunks_ok Mode_GuardFile hs \<longleftrightarrow> hs = []"
| "mode_hunks_ok Mode_AddFile hs \<longleftrightarrow> (\<exists>hs' p c. hs = hs' @ [AddFile p c])"
| "mode_hunks_ok Mode_DeleteFile hs \<longleftrightarrow> (\<exists>hs' p. hs = hs' @ [DeleteFile p])"
| "mode_hunks_ok (Mode_UpdateFile _) hs \<longleftrightarrow> (\<exists>hs' p m cs. hs = hs' @ [UpdateFile p m cs])"
| "mode_hunks_ok Mode_EndedPatch hs \<longleftrightarrow> list_all hunk_done hs"

definition state_inv :: "streaming_parser_state \<Rightarrow> bool" where
  "state_inv st \<longleftrightarrow>
     list_all hunk_done (butlast (st_hunks st))
     \<and> (st_hunks st \<noteq> [] \<longrightarrow> hunk_open (last (st_hunks st)))
     \<and> mode_hunks_ok (st_mode st) (st_hunks st)
     \<and> (st_pending_guard st \<noteq> None \<longleftrightarrow> st_mode st = Mode_GuardFile)
     \<and> st_pending_guard st \<noteq> Some []
     \<and> list_all guard_ok (st_revision_guards st)
     \<and> st_environment_id st \<noteq> Some []"

definition parser_inv :: "streaming_patch_parser \<Rightarrow> bool" where
  "parser_inv p \<longleftrightarrow> state_inv (sp_state p)"

lemma hunk_done_open: "hunk_done h \<Longrightarrow> hunk_open h"
  by (cases h) (auto simp: list_all_iff dest: in_set_butlastD)

lemma hunk_open_done: "hunk_open h \<Longrightarrow> (\<And>p m cs. h \<noteq> UpdateFile p m cs) \<Longrightarrow> hunk_done h"
  by (cases h) auto

lemma aligned_snoc:
  "aligned ks os ns \<Longrightarrow> aligned (ks @ [Context]) (os @ [x]) (ns @ [x])"
  "aligned ks os ns \<Longrightarrow> aligned (ks @ [Add]) os (ns @ [x])"
  "aligned ks os ns \<Longrightarrow> aligned (ks @ [Remove]) (os @ [x]) ns"
  by (induction ks os ns rule: aligned.induct) auto

lemma butlast_last_all:
  "xs \<noteq> [] \<Longrightarrow> list_all P xs \<longleftrightarrow> list_all P (butlast xs) \<and> P (last xs)"
  by (induction xs rule: rev_induct) auto

lemma aligned_lengths:
  "aligned ks os ns \<Longrightarrow>
     length os = length (filter (\<lambda>k. k \<noteq> Add) ks) \<and> length ns = length (filter (\<lambda>k. k \<noteq> Remove) ks)"
  by (induction ks os ns rule: aligned.induct) auto

lemma to_ascii_lowercase_hex:
  assumes "is_ascii_hexdigit c"
  shows "is_ascii_hexdigit (ascii_lower c)"
proof -
  have "list_all (\<lambda>c. is_ascii_hexdigit (ascii_lower c)) ''0123456789abcdefABCDEF''" by code_simp
  with assms show ?thesis unfolding is_ascii_hexdigit_def[of c] list_all_iff by blast
qed

lemma source_hash_parse_ok: "source_hash_parse s = Ok h \<Longrightarrow> hash_ref_ok h"
  by (auto simp: source_hash_parse_def to_ascii_lowercase_def list_all_iff to_ascii_lowercase_hex
      split: if_splits)

section \<open>Every operation keeps the invariant\<close>

lemma marker_not_trimmed:
  "trim_end ADD_FILE_MARKER \<noteq> ADD_FILE_MARKER"
  "trim_end DELETE_FILE_MARKER \<noteq> DELETE_FILE_MARKER"
  "trim_end UPDATE_FILE_MARKER \<noteq> UPDATE_FILE_MARKER"
  "trim_end MOVE_TO_MARKER \<noteq> MOVE_TO_MARKER"
  by code_simp+

lemma trim_end_trim [simp]: "trim_end (trim s) = trim s"
  by (simp add: trim_def)

lemma trimmed_rest_ne:
  assumes "trim_end t = t" "t = m @ r" "trim_end m \<noteq> m"
  shows "r \<noteq> []"
  using assms by auto

lemma set_mode_sel [simp]:
  "sp_hunks (set_mode m p) = sp_hunks p" "sp_mode (set_mode m p) = m"
  "sp_line_buffer (set_mode m p) = sp_line_buffer p" "sp_line_number (set_mode m p) = sp_line_number p"
  "st_pending_guard (sp_state (set_mode m p)) = st_pending_guard (sp_state p)"
  "st_revision_guards (sp_state (set_mode m p)) = st_revision_guards (sp_state p)"
  "st_environment_id (sp_state (set_mode m p)) = st_environment_id (sp_state p)"
  by (simp_all add: set_mode_def)

lemma push_hunk_sel [simp]:
  "sp_hunks (push_hunk h p) = sp_hunks p @ [h]" "sp_mode (push_hunk h p) = sp_mode p"
  "sp_line_buffer (push_hunk h p) = sp_line_buffer p" "sp_line_number (push_hunk h p) = sp_line_number p"
  "st_pending_guard (sp_state (push_hunk h p)) = st_pending_guard (sp_state p)"
  "st_revision_guards (sp_state (push_hunk h p)) = st_revision_guards (sp_state p)"
  "st_environment_id (sp_state (push_hunk h p)) = st_environment_id (sp_state p)"
  by (simp_all add: push_hunk_def)

lemma set_last_hunk_sel [simp]:
  "sp_hunks (set_last_hunk h p) = butlast (sp_hunks p) @ [h]" "sp_mode (set_last_hunk h p) = sp_mode p"
  "sp_line_buffer (set_last_hunk h p) = sp_line_buffer p"
  "sp_line_number (set_last_hunk h p) = sp_line_number p"
  "st_pending_guard (sp_state (set_last_hunk h p)) = st_pending_guard (sp_state p)"
  "st_revision_guards (sp_state (set_last_hunk h p)) = st_revision_guards (sp_state p)"
  "st_environment_id (sp_state (set_last_hunk h p)) = st_environment_id (sp_state p)"
  by (simp_all add: set_last_hunk_def)

lemma mode_hunks_ok_Update_last:
  "mode_hunks_ok m (hs @ [UpdateFile p mv cs]) \<Longrightarrow>
     (\<exists>n. m = Mode_UpdateFile n) \<or> (m = Mode_EndedPatch \<and> hunk_done (UpdateFile p mv cs))"
  by (cases m) auto

text \<open>The emptiness check that precedes every new hunk completes the hunk being read.\<close>

lemma ensure_completes:
  assumes inv: "parser_inv p" and ok: "ensure_update_hunk_is_not_empty p l = Ok ()"
  shows "list_all hunk_done (sp_hunks p)"
proof (cases "sp_hunks p" rule: rev_cases)
  case (snoc hs h)
  from inv snoc have front: "list_all hunk_done hs" and h: "hunk_open h"
    and mode: "mode_hunks_ok (sp_mode p) (hs @ [h])"
    by (auto simp: parser_inv_def state_inv_def)
  have "hunk_done h"
  proof (cases h)
    case (UpdateFile path mv cs)
    with h ok snoc mode show ?thesis
      by (cases "cs = []")
         (auto simp: ensure_update_hunk_is_not_empty_def last_chunk_is_empty_def nonempty_chunk_def
           butlast_last_all[of cs] split: if_splits option.splits bool.splits
           dest: mode_hunks_ok_Update_last)
  qed (use h in auto)
  with front snoc show ?thesis by simp
qed simp

lemma after_nonempty_cases:
  assumes "after_nonempty p t p' = (q, r)"
  obtains (empty) e where "q = p" "r = Err e"
    | (nonempty) "q = p'" "r = Ok True" "ensure_update_hunk_is_not_empty p t = Ok ()"
  using assms by (auto simp: after_nonempty_def split: result.splits)

text \<open>The outcomes of the header handler, one per branch of its code.\<close>

lemma handle_headers_cases:
  assumes "handle_hunk_headers_and_end_patch p t = (q, r)"
  obtains (error) e where "q = p" "r = Err e"
    | (guard) path where "t = GUARD_FILE_MARKER @ path" "path \<noteq> []" "sp_mode p = Mode_StartedPatch"
        "r = Ok True"
        "q = p\<lparr>sp_state := (sp_state p)\<lparr>st_pending_guard := Some path, st_mode := Mode_GuardFile\<rparr>\<rparr>"
    | (environment) env where "sp_mode p = Mode_StartedPatch" "trim env \<noteq> []" "r = Ok True"
        "t = ENVIRONMENT_ID_MARKER @ env"
        "st_environment_id (sp_state p) = None" "st_revision_guards (sp_state p) = []"
        "q = p\<lparr>sp_state := (sp_state p)\<lparr>st_environment_id := Some (trim env)\<rparr>\<rparr>"
    | (end_patch) "t = END_PATCH_MARKER" "r = Ok True" "q = set_mode Mode_EndedPatch p"
        "ensure_update_hunk_is_not_empty p t = Ok ()"
    | (add_file) path where "t = ADD_FILE_MARKER @ path" "r = Ok True"
        "q = set_mode Mode_AddFile (push_hunk (AddFile path []) p)"
        "ensure_update_hunk_is_not_empty p t = Ok ()"
    | (delete_file) path where "t = DELETE_FILE_MARKER @ path" "r = Ok True"
        "q = set_mode Mode_DeleteFile (push_hunk (DeleteFile path) p)"
        "ensure_update_hunk_is_not_empty p t = Ok ()"
    | (update_file) path where "t = UPDATE_FILE_MARKER @ path" "r = Ok True"
        "q = set_mode (Mode_UpdateFile (sp_line_number p)) (push_hunk (UpdateFile path None []) p)"
        "ensure_update_hunk_is_not_empty p t = Ok ()"
    | (no_header) "q = p" "r = Ok False"
proof -
  note D = handle_hunk_headers_and_end_patch_def
  have rest: thesis if no_guard: "strip_prefix GUARD_FILE_MARKER t = None"
    and eq: "(if t = END_PATCH_MARKER then
        after_nonempty p t (set_mode Mode_EndedPatch p)
      else case strip_prefix ADD_FILE_MARKER t of
        Some path \<Rightarrow> after_nonempty p t (set_mode Mode_AddFile (push_hunk (AddFile path []) p))
      | None \<Rightarrow>
     (case strip_prefix DELETE_FILE_MARKER t of
        Some path \<Rightarrow> after_nonempty p t (set_mode Mode_DeleteFile (push_hunk (DeleteFile path) p))
      | None \<Rightarrow>
     (case strip_prefix UPDATE_FILE_MARKER t of
        Some path \<Rightarrow>
          after_nonempty p t
            (set_mode (Mode_UpdateFile (sp_line_number p)) (push_hunk (UpdateFile path None []) p))
      | None \<Rightarrow> (p, Ok False)))) = (q, r)"
  proof (cases "t = END_PATCH_MARKER")
    case True
    with eq show ?thesis by (simp) (erule after_nonempty_cases; simp add: error end_patch)
  next
    case False
    with eq show ?thesis
      by (simp split: option.splits)
         (use no_header error add_file delete_file update_file in
          \<open>blast elim: after_nonempty_cases\<close>)+
  qed
  show thesis
  proof (cases "strip_prefix GUARD_FILE_MARKER t")
    case (Some path)
    with assms show ?thesis by (auto simp: D intro: error guard split: if_splits)
  next
    case None
    show ?thesis
    proof (cases "sp_mode p = Mode_StartedPatch \<and> starts_with ENVIRONMENT_ID_MARKER t")
      case True
      then obtain env where "t = ENVIRONMENT_ID_MARKER @ env" by (auto simp: starts_with_iff)
      with None True assms show ?thesis
        by (auto simp: D handle_environment_id_def intro: error environment split: if_splits)
    next
      case False
      then have "sp_mode p \<noteq> Mode_StartedPatch \<or> strip_prefix ENVIRONMENT_ID_MARKER t = None"
        by (simp add: strip_prefix_None)
      with None assms show ?thesis
        by (intro rest) (auto simp: D split: streaming_parser_mode.splits)
    qed
  qed
qed

lemma parser_inv_push:
  assumes "parser_inv p" "list_all hunk_done (sp_hunks p)" "hunk_open h"
    and "mode_hunks_ok m (sp_hunks p @ [h])" "m \<noteq> Mode_GuardFile" "sp_mode p \<noteq> Mode_GuardFile"
  shows "parser_inv (set_mode m (push_hunk h p))"
  using assms by (auto simp: parser_inv_def state_inv_def)

lemma parser_inv_end:
  assumes "parser_inv p" "list_all hunk_done (sp_hunks p)" "sp_mode p \<noteq> Mode_GuardFile"
  shows "parser_inv (set_mode Mode_EndedPatch p)"
  using assms by (auto simp: parser_inv_def state_inv_def)

lemma handle_headers_inv:
  assumes inv: "parser_inv p" and trimmed: "trim_end t = t" and mode: "sp_mode p \<noteq> Mode_GuardFile"
    and step: "handle_hunk_headers_and_end_patch p t = (q, r)"
  shows "parser_inv q"
  using step
proof (cases rule: handle_headers_cases)
  case (guard path)
  with inv show ?thesis by (auto simp: parser_inv_def state_inv_def)
next
  case (environment env)
  with inv show ?thesis by (auto simp: parser_inv_def state_inv_def)
next
  case end_patch
  with inv mode show ?thesis by (simp add: parser_inv_end ensure_completes)
next
  case (add_file path)
  with trimmed marker_not_trimmed(1) have "path \<noteq> []" using trimmed_rest_ne by blast
  with add_file inv mode show ?thesis by (simp add: parser_inv_push ensure_completes)
next
  case (delete_file path)
  with trimmed marker_not_trimmed(2) have "path \<noteq> []" using trimmed_rest_ne by blast
  with delete_file inv mode show ?thesis by (simp add: parser_inv_push ensure_completes)
next
  case (update_file path)
  with trimmed marker_not_trimmed(3) have "path \<noteq> []" using trimmed_rest_ne by blast
  with update_file inv mode show ?thesis by (simp add: parser_inv_push ensure_completes)
qed (use inv in auto)

lemma chunk_wf_new [simp]: "chunk_wf (new_chunk ctx)"
  by (simp add: chunk_wf_def new_chunk_def)

lemma extend_last_chunk_open:
  assumes "list_all chunk_wf cs" "list_all nonempty_chunk (butlast cs)"
  shows "list_all chunk_wf (extend_last_chunk k t cs)
    \<and> list_all nonempty_chunk (extend_last_chunk k t cs)"
  using assms
  by (cases k; cases "cs = []")
     (auto simp: extend_last_chunk_def Let_def butlast_last_all[of cs] chunk_wf_def aligned_snoc
       new_chunk_def nonempty_chunk_def chunk_is_empty_def)

lemma push_new_chunk_open:
  assumes "list_all chunk_wf cs" "list_all nonempty_chunk (butlast cs)" "\<not> last_chunk_is_empty cs"
  shows "list_all chunk_wf (cs @ [new_chunk ctx]) \<and> list_all nonempty_chunk (butlast (cs @ [new_chunk ctx]))"
  using assms
  by (cases "cs = []") (auto simp: butlast_last_all[of cs] last_chunk_is_empty_def nonempty_chunk_def)

lemma mark_end_of_file_open:
  assumes "list_all chunk_wf cs" "list_all nonempty_chunk (butlast cs)"
  shows "list_all chunk_wf (mark_end_of_file cs) \<and> list_all nonempty_chunk (butlast (mark_end_of_file cs))"
  using assms by (cases "cs = []") (auto simp: mark_end_of_file_def butlast_last_all[of cs] chunk_wf_def)

lemma butlast_all: "list_all P xs \<Longrightarrow> list_all P (butlast xs)"
  by (auto simp: list_all_iff dest: in_set_butlastD)

text \<open>The successful outcomes of a line of an update hunk.\<close>

inductive update_line_effect ::
    "string \<Rightarrow> path option \<Rightarrow> update_file_chunk list \<Rightarrow> path option \<Rightarrow> update_file_chunk list \<Rightarrow> bool" where
  skip: "update_line_effect l m cs m cs"
| move: "trim_end l = MOVE_TO_MARKER @ dest \<Longrightarrow> update_line_effect l None [] (Some dest) []"
| new_context: "\<not> last_chunk_is_empty cs \<Longrightarrow> update_line_effect l m cs m (cs @ [new_chunk ctx])"
| eof: "\<not> last_chunk_is_empty cs \<Longrightarrow> update_line_effect l m cs m (mark_end_of_file cs)"
| line: "l = pre @ t \<Longrightarrow> update_line_effect l m cs m (extend_last_chunk k t cs)"

lemma update_hunk_line_effect:
  assumes ok: "update_hunk_line n l m cs = Ok (m', cs')"
  shows "update_line_effect l m cs m' cs'"
proof -
  let ?u = "trim_end l"
  have body: ?thesis if eq: "(if ?u = EOF_MARKER then
        (if last_chunk_is_empty cs then
           Err (InvalidHunkError ''Update hunk does not contain any lines'' n)
         else Ok (m, mark_end_of_file cs))
      else if l = [] then Ok (m, extend_last_chunk Context [] cs)
      else case strip_prefix '' '' l of
        Some text \<Rightarrow> Ok (m, extend_last_chunk Context text cs)
      | None \<Rightarrow>
     (case strip_prefix ''+'' l of
        Some text \<Rightarrow> Ok (m, extend_last_chunk Add text cs)
      | None \<Rightarrow>
     (case strip_prefix ''-'' l of
        Some text \<Rightarrow> Ok (m, extend_last_chunk Remove text cs)
      | None \<Rightarrow>
      if cs \<noteq> [] \<and> \<not> chunk_is_empty (last cs) then
        Err (InvalidHunkError (expected_context_message l) n)
      else Err (InvalidHunkError (unexpected_line_message l) n)))) = Ok (m', cs')"
    using eq by (auto split: if_splits option.splits intro: update_line_effect.eof)
       (auto intro: update_line_effect.line[where pre = "[]"] update_line_effect.line[where pre = "[_]"])
  have not_ctx: "strip_prefix CHANGE_CONTEXT_MARKER ?u = None" "?u \<noteq> EMPTY_CHANGE_CONTEXT_MARKER"
    if "\<not> is_context_marker ?u" using that by (auto simp: is_context_marker_def strip_prefix_None)
  have after_move: ?thesis if "\<not> (cs \<noteq> [] \<and> is_end_of_file (last cs) \<and> \<not> is_context_marker ?u)"
    and "\<not> (cs = [] \<and> m = None \<and> strip_prefix MOVE_TO_MARKER ?u \<noteq> None)"
    and "\<not> (cs \<noteq> [] \<and> is_end_of_file (last cs) \<and> ?u = [])"
  proof (cases "is_context_marker ?u")
    case True
    with ok that show ?thesis unfolding update_hunk_line_def Let_def
      by (cases "?u = EMPTY_CHANGE_CONTEXT_MARKER"; cases "strip_prefix CHANGE_CONTEXT_MARKER ?u")
         (auto simp: is_context_marker_def starts_with_def simp del: strip_prefix_Some
           split: if_splits bool.splits option.splits
           intro: update_line_effect.new_context update_line_effect.new_context[of "[]", simplified])
  next
    case False
    with ok that not_ctx show ?thesis unfolding update_hunk_line_def Let_def
      by (intro body) (auto simp del: strip_prefix_Some split: if_splits bool.splits option.splits)
  qed
  consider (skip) "cs \<noteq> [] \<and> is_end_of_file (last cs) \<and> ?u = []"
    | (refuse) "cs \<noteq> [] \<and> is_end_of_file (last cs) \<and> ?u \<noteq> [] \<and> \<not> is_context_marker ?u"
    | (move) dest where "cs = []" "m = None" "strip_prefix MOVE_TO_MARKER ?u = Some dest"
    | (other) "\<not> (cs \<noteq> [] \<and> is_end_of_file (last cs) \<and> \<not> is_context_marker ?u)"
        "\<not> (cs = [] \<and> m = None \<and> strip_prefix MOVE_TO_MARKER ?u \<noteq> None)"
        "\<not> (cs \<noteq> [] \<and> is_end_of_file (last cs) \<and> ?u = [])"
    by blast
  then show ?thesis
  proof cases
    case skip
    with ok show ?thesis by (simp add: update_hunk_line_def update_line_effect.skip)
  next
    case refuse
    with ok show ?thesis by (simp add: update_hunk_line_def)
  next
    case (move dest)
    with ok have "m' = Some dest" "cs' = []" by (simp_all add: update_hunk_line_def)
    with move show ?thesis by (simp add: update_line_effect.move)
  qed (rule after_move)
qed

lemma update_hunk_line_open:
  assumes "hunk_open (UpdateFile path m cs)" "update_hunk_line n l m cs = Ok (m', cs')"
  shows "hunk_open (UpdateFile path m' cs')"
  using update_hunk_line_effect[OF assms(2)] assms(1)
proof cases
  case (move dest)
  have "dest \<noteq> []" by (rule trimmed_rest_ne[OF trim_end_idem move(5) marker_not_trimmed(4)])
  with move assms(1) show ?thesis by simp
next
  case (line pre t k)
  with assms(1) extend_last_chunk_open[of cs k t] show ?thesis by (auto intro: butlast_all)
qed (use assms(1) push_new_chunk_open mark_end_of_file_open in auto)

lemma process_guard_line_inv:
  assumes inv: "parser_inv p" and mode: "sp_mode p = Mode_GuardFile"
    and step: "process_guard_line p t = (q, r)"
  shows "parser_inv q \<and> r \<noteq> Err (InvalidPatchError ''Revision guard is missing its path'')"
proof -
  obtain path where path: "st_pending_guard (sp_state p) = Some path" "path \<noteq> []"
    using inv mode by (auto simp: parser_inv_def state_inv_def)
  then have push: "pred_option hash_ref_ok sha \<Longrightarrow> parser_inv (p\<lparr>sp_state := (sp_state p)
      \<lparr>st_pending_guard := None, st_revision_guards := st_revision_guards (sp_state p) @
        [\<lparr>guard_path = path, expected_sha256 = sha\<rparr>], st_mode := Mode_StartedPatch\<rparr>\<rparr>)" for sha
    using inv mode by (auto simp: parser_inv_def state_inv_def guard_ok_def)
  show ?thesis
    using step inv path push source_hash_parse_ok
    by (auto simp: process_guard_line_def Let_def split: option.splits if_splits result.splits)
qed

lemma parser_inv_set_last:
  assumes "parser_inv p" "sp_hunks p = hs @ [h]" "hunk_open h'" "mode_hunks_ok (sp_mode p) (hs @ [h'])"
  shows "parser_inv (set_last_hunk h' p)"
  using assms by (auto simp: parser_inv_def state_inv_def)

lemma handle_headers_err: "handle_hunk_headers_and_end_patch p t = (q, Err e) \<Longrightarrow> q = p"
  by (erule handle_headers_cases) auto

lemma header_or_else_cases:
  assumes "header_or_else p t k = (q, r)"
  obtains (header) r' where "handle_hunk_headers_and_end_patch p t = (q, r')" "r' = Ok True \<and> r = Ok () \<or> (\<exists>e. r' = Err e \<and> r = Err e)"
    | (body) "k p = (q, r)" "handle_hunk_headers_and_end_patch p t = (p, Ok False)"
proof -
  obtain p' r' where h: "handle_hunk_headers_and_end_patch p t = (p', r')" by fastforce
  show thesis
  proof (cases r')
    case (Ok b)
    show thesis
    proof (cases b)
      case True
      with Ok h assms show ?thesis by (intro header) (auto simp: header_or_else_def)
    next
      case False
      with Ok h have "p' = p" by (auto elim: handle_headers_cases)
      with Ok h False assms show ?thesis by (intro body) (auto simp: header_or_else_def)
    qed
  next
    case (Err e)
    with h assms show ?thesis by (intro header) (auto simp: header_or_else_def)
  qed
qed

text \<open>The effect of a body line on the parser: it is rejected, or it rewrites the last hunk.\<close>

lemma process_add_line_cases:
  assumes "process_add_line l p = (q, r)"
  obtains (rejected) e where "q = p" "r = Err e"
    | (added) hs path c t where "sp_hunks p = hs @ [AddFile path c]" "l = CHR ''+'' # t" "r = Ok ()"
        "q = set_last_hunk (AddFile path (c @ t @ [LF])) p"
proof -
  show thesis
  proof (cases "strip_prefix ''+'' l")
    case None
    with assms rejected show ?thesis by (auto simp: process_add_line_def reject_header_def)
  next
    case (Some t)
    then have l: "l = CHR ''+'' # t" by simp
    from assms l rejected show ?thesis
      by (cases "sp_hunks p" rule: rev_cases)
         (auto simp: process_add_line_def reject_header_def last_hunk_def split: hunk.splits intro: added)
  qed
qed

lemma process_update_line_cases:
  assumes "process_update_line l p = (q, r)"
  obtains (rejected) e where "q = p" "r = Err e"
    | (updated) hs path m cs m' cs' where "sp_hunks p = hs @ [UpdateFile path m cs]" "r = Ok ()"
        "update_hunk_line (sp_line_number p) l m cs = Ok (m', cs')"
        "q = set_last_hunk (UpdateFile path m' cs') p"
  using assms
  by (cases "sp_hunks p" rule: rev_cases)
     (auto simp: process_update_line_def last_hunk_def split: hunk.splits result.splits intro: that)

text \<open>One case per branch of \<^verbatim>\<open>process_line\<close>, with the header handler's outcome where it decides.\<close>

lemma process_line_cases:
  assumes "process_line p l = (q, r)"
  obtains (rejected) e where "q = p" "r = Err e"
    | (begin_patch) "sp_mode p = Mode_NotStarted" "q = set_mode Mode_StartedPatch p" "r = Ok ()"
    | (expectation) "sp_mode p = Mode_GuardFile" "process_guard_line p (trim l) = (q, r)"
    | (header) t where "t = trim l \<or> t = trim_end l" "r = Ok ()"
        "sp_mode p = Mode_StartedPatch \<or> sp_mode p = Mode_AddFile \<or> sp_mode p = Mode_DeleteFile
         \<or> (\<exists>n. sp_mode p = Mode_UpdateFile n)"
        "handle_hunk_headers_and_end_patch p t = (q, Ok True)"
    | (add_line) "sp_mode p = Mode_AddFile" "process_add_line l p = (q, r)"
    | (update_line) n where "sp_mode p = Mode_UpdateFile n" "process_update_line l p = (q, r)"
    | (blank) "sp_mode p = Mode_EndedPatch" "trim l = []" "q = p" "r = Ok ()"
proof -
  have reject: "reject_header t p = (q, r) \<Longrightarrow> thesis" for t
    using rejected by (auto simp: reject_header_def)
  note hdr = header
  have headed: thesis if step: "header_or_else p t k = (q, r)" and body: "k p = (q, r) \<Longrightarrow> thesis"
    and t: "t = trim l \<or> t = trim_end l" and m: "sp_mode p = Mode_StartedPatch \<or> sp_mode p = Mode_AddFile
       \<or> sp_mode p = Mode_DeleteFile \<or> (\<exists>n. sp_mode p = Mode_UpdateFile n)" for t k
    using step
  proof (cases rule: header_or_else_cases)
    case (header r')
    then show ?thesis using hdr[OF t _ m] rejected handle_headers_err[of p t q] by blast
  qed (rule body)
  show thesis
    using assms unfolding process_line_def Let_def
    by (cases "sp_mode p")
       (auto split: if_splits intro: rejected begin_patch expectation blank
        elim!: headed intro: reject add_line update_line)
qed

lemma process_line_inv:
  assumes inv: "parser_inv p" and step: "process_line p l = (q, r)"
  shows "parser_inv q"
  using step
proof (cases rule: process_line_cases)
  case begin_patch
  with inv show ?thesis by (auto simp: parser_inv_def state_inv_def)
next
  case expectation
  with inv process_guard_line_inv show ?thesis by blast
next
  case (header t)
  then have "trim_end t = t" "sp_mode p \<noteq> Mode_GuardFile" by auto
  with header inv handle_headers_inv show ?thesis by blast
next
  case add_line
  from add_line(2) show ?thesis
  proof (cases rule: process_add_line_cases)
    case (added hs path c t)
    have "path \<noteq> []" using inv added(1) by (auto simp: parser_inv_def state_inv_def)
    then show ?thesis unfolding added(4)
      by (intro parser_inv_set_last[OF inv added(1)]) (auto simp: ends_with_iff add_line(1))
  qed (use inv in simp)
next
  case (update_line n)
  from update_line(2) show ?thesis
  proof (cases rule: process_update_line_cases)
    case (updated hs path m cs m' cs')
    have uopen: "hunk_open (UpdateFile path m cs)"
      using inv updated(1) by (auto simp: parser_inv_def state_inv_def)
    show ?thesis unfolding updated(4)
      by (rule parser_inv_set_last[OF inv updated(1)])
         (rule update_hunk_line_open[OF uopen updated(3)], simp add: update_line(1))
  qed (use inv in simp)
qed (use inv in simp_all)

text \<open>A rejected line leaves the parser as it was, so a caller may report and go on.\<close>

lemma process_guard_line_err: "process_guard_line p t = (q, Err e) \<Longrightarrow> q = p"
  by (auto simp: process_guard_line_def Let_def split: option.splits result.splits if_splits)

lemma process_line_err:
  assumes "process_line p l = (q, Err e)"
  shows "q = p"
  using assms
  by (cases rule: process_line_cases)
     (auto elim: process_add_line_cases process_update_line_cases dest: process_guard_line_err)

section \<open>The state machine of the modes\<close>

inductive opens_hunk :: "streaming_parser_mode \<Rightarrow> bool" where
  "opens_hunk Mode_AddFile"
| "opens_hunk Mode_DeleteFile"
| "opens_hunk (Mode_UpdateFile n)"

inductive mode_edge :: "streaming_parser_mode \<Rightarrow> streaming_parser_mode \<Rightarrow> bool" where
  begin_patch: "mode_edge Mode_NotStarted Mode_StartedPatch"
| environment: "mode_edge Mode_StartedPatch Mode_StartedPatch"
| guard: "mode_edge Mode_StartedPatch Mode_GuardFile"
| expect: "mode_edge Mode_GuardFile Mode_StartedPatch"
| file_header: "m = Mode_StartedPatch \<or> opens_hunk m \<Longrightarrow> opens_hunk m' \<Longrightarrow> mode_edge m m'"
| body_line: "opens_hunk m \<Longrightarrow> mode_edge m m"
| end_patch: "m = Mode_StartedPatch \<or> opens_hunk m \<Longrightarrow> mode_edge m Mode_EndedPatch"
| blank_after_end: "mode_edge Mode_EndedPatch Mode_EndedPatch"

inductive_simps opens_hunk_simps [simp]:
  "opens_hunk Mode_NotStarted" "opens_hunk Mode_StartedPatch" "opens_hunk Mode_GuardFile"
  "opens_hunk Mode_AddFile" "opens_hunk Mode_DeleteFile" "opens_hunk (Mode_UpdateFile n)"
  "opens_hunk Mode_EndedPatch"

inductive_cases mode_edgeE: "mode_edge m m'"

text \<open>Modes only advance: header part, file hunks, end.\<close>

fun mode_rank :: "streaming_parser_mode \<Rightarrow> nat" where
  "mode_rank Mode_NotStarted = 0"
| "mode_rank Mode_StartedPatch = 1"
| "mode_rank Mode_GuardFile = 1"
| "mode_rank Mode_EndedPatch = 3"
| "mode_rank _ = 2"

lemma opens_hunk_rank: "opens_hunk m \<longleftrightarrow> mode_rank m = 2"
  by (cases m) auto

lemma mode_edge_rank: "mode_edge m m' \<Longrightarrow> mode_rank m \<le> mode_rank m'"
  by (erule mode_edgeE) (auto simp: opens_hunk_rank)

lemma handle_headers_edge:
  assumes "handle_hunk_headers_and_end_patch p t = (q, Ok True)"
    and "sp_mode p = Mode_StartedPatch \<or> opens_hunk (sp_mode p)"
  shows "mode_edge (sp_mode p) (sp_mode q)"
  using assms
  by (cases rule: handle_headers_cases)
     (auto intro: mode_edge.intros mode_edge.file_header mode_edge.end_patch)

lemma process_line_edge:
  assumes "process_line p l = (q, Ok u)"
  shows "mode_edge (sp_mode p) (sp_mode q)"
  using assms
proof (cases rule: process_line_cases)
  case begin_patch
  then show ?thesis by (simp add: mode_edge.begin_patch)
next
  case expectation
  then show ?thesis
    by (auto simp: process_guard_line_def Let_def split: option.splits result.splits if_splits
        intro: mode_edge.expect)
next
  case (header t)
  then show ?thesis by (auto intro: handle_headers_edge)
next
  case add_line
  from add_line(2) show ?thesis
    by (cases rule: process_add_line_cases) (simp_all add: add_line(1) mode_edge.body_line)
next
  case (update_line n)
  from update_line(2) show ?thesis
    by (cases rule: process_update_line_cases) (simp_all add: update_line(1) mode_edge.body_line)
qed (auto intro: mode_edge.blank_after_end)

section \<open>Completed hunks never change\<close>

definition hunks_grow :: "hunk list \<Rightarrow> hunk list \<Rightarrow> bool" where
  "hunks_grow hs hs' \<longleftrightarrow> length hs \<le> length hs' \<and> prefix (butlast hs) (butlast hs')"

lemma hunks_grow_refl [simp]: "hunks_grow hs hs"
  by (simp add: hunks_grow_def)

lemma hunks_grow_trans: "hunks_grow a b \<Longrightarrow> hunks_grow b c \<Longrightarrow> hunks_grow a c"
  unfolding hunks_grow_def using prefix_order.trans by fastforce

lemma hunks_grow_snoc [simp]: "hunks_grow hs (hs @ [h])"
  using prefixeq_butlast[of hs] by (simp add: hunks_grow_def)

lemma hunks_grow_set_last [simp]: "hs \<noteq> [] \<Longrightarrow> hunks_grow hs (butlast hs @ [h])"
  by (simp add: hunks_grow_def)

lemma process_line_grow:
  assumes "process_line p l = (q, r)"
  shows "hunks_grow (sp_hunks p) (sp_hunks q)"
  using assms
proof (cases rule: process_line_cases)
  case expectation
  then show ?thesis
    by (auto simp: process_guard_line_def Let_def split: option.splits result.splits if_splits)
next
  case (header t)
  from header(4) show ?thesis by (cases rule: handle_headers_cases) auto
next
  case add_line
  from add_line(2) show ?thesis by (cases rule: process_add_line_cases) (auto simp: hunks_grow_def)
next
  case (update_line n)
  from update_line(2) show ?thesis
    by (cases rule: process_update_line_cases) (auto simp: hunks_grow_def)
qed auto

text \<open>Revision guards are collected before the first file hunk and fixed from then on.\<close>

lemma process_line_guards:
  assumes inv: "parser_inv p" and hunks: "sp_hunks p \<noteq> []" and step: "process_line p l = (q, r)"
  shows "st_revision_guards (sp_state q) = st_revision_guards (sp_state p)"
  using step
proof (cases rule: process_line_cases)
  case expectation
  with inv hunks show ?thesis by (auto simp: parser_inv_def state_inv_def)
next
  case (header t)
  from header(4) show ?thesis by (cases rule: handle_headers_cases) auto
next
  case add_line
  from add_line(2) show ?thesis by (cases rule: process_add_line_cases) auto
next
  case (update_line n)
  from update_line(2) show ?thesis by (cases rule: process_update_line_cases) auto
qed auto

lemma process_line_buffer:
  assumes "process_line p l = (q, r)"
  shows "sp_line_buffer q = sp_line_buffer p"
  using assms
proof (cases rule: process_line_cases)
  case expectation
  then show ?thesis
    by (auto simp: process_guard_line_def Let_def split: option.splits result.splits if_splits)
next
  case (header t)
  from header(4) show ?thesis by (cases rule: handle_headers_cases) auto
next
  case add_line
  from add_line(2) show ?thesis by (cases rule: process_add_line_cases) auto
next
  case (update_line n)
  from update_line(2) show ?thesis by (cases rule: process_update_line_cases) auto
qed auto

section \<open>The whole input\<close>

lemma push_byte:
  "push_delta_in_place p [c] =
     (if c = LF then process_line (p\<lparr>sp_line_buffer := [], sp_line_number := sp_line_number p + 1\<rparr>)
                       (strip_cr (sp_line_buffer p))
      else (p\<lparr>sp_line_buffer := sp_line_buffer p @ [c]\<rparr>, Ok ()))"
  by (auto simp: push_delta_eq_bytes take_line_def split: prod.split result.split)

lemma parser_inv_update [simp]:
  "parser_inv (p\<lparr>sp_line_buffer := b\<rparr>) = parser_inv p"
  "parser_inv (p\<lparr>sp_line_number := n\<rparr>) = parser_inv p"
  by (simp_all add: parser_inv_def)

lemma push_delta_inv: "parser_inv p \<Longrightarrow> push_delta_in_place p s = (q, r) \<Longrightarrow> parser_inv q"
proof (rule patch_stream.feed_invariant[of parser_inv])
  fix p x q r
  assume "parser_inv p" "push_delta_in_place p [x] = (q, r)"
  then show "parser_inv q" by (auto simp: push_byte split: if_splits intro: process_line_inv[rotated])
qed

lemma push_delta_grow:
  assumes "push_delta_in_place p s = (q, r)"
  shows "hunks_grow (sp_hunks p) (sp_hunks q)"
proof (rule patch_stream.feed_invariant[of "\<lambda>q. hunks_grow (sp_hunks p) (sp_hunks q)", OF _ _ assms])
  fix p' x q' r'
  assume "hunks_grow (sp_hunks p) (sp_hunks p')" "push_delta_in_place p' [x] = (q', r')"
  then show "hunks_grow (sp_hunks p) (sp_hunks q')"
    by (auto simp: push_byte split: if_splits dest!: process_line_grow intro: hunks_grow_trans)
qed simp

lemma default_parser_inv [simp]: "parser_inv default_parser"
  by (simp add: parser_inv_def state_inv_def default_parser_def default_state_def)

lemma finish_in_place_done:
  assumes inv: "parser_inv p" and ok: "finish_in_place p = (q, Ok u)"
  shows "parser_inv q \<and> list_all hunk_done (sp_hunks q) \<and> sp_mode q = Mode_EndedPatch"
proof -
  from ok have last: "finish_last_line p = (q, Ok ())" and ended: "sp_mode q = Mode_EndedPatch"
    by (auto simp: finish_in_place_def split: prod.splits result.splits if_splits)
  have "parser_inv q"
  proof (cases "sp_line_buffer p = []")
    case True
    with last inv show ?thesis by (simp add: finish_last_line_def)
  next
    case False
    let ?p = "p\<lparr>sp_line_buffer := [], sp_line_number := sp_line_number p + 1\<rparr>"
    have inv': "parser_inv ?p" using inv by simp
    show ?thesis
    proof (cases "trim (sp_line_buffer p) = END_PATCH_MARKER \<and> may_end (sp_mode ?p)")
      case True
      with False last have "q = set_mode Mode_EndedPatch ?p"
        and ne: "ensure_update_hunk_is_not_empty ?p (trim (sp_line_buffer p)) = Ok ()"
        by (auto simp: finish_last_line_def Let_def split: result.splits)
      moreover have "sp_mode ?p \<noteq> Mode_GuardFile" using True by auto
      ultimately show ?thesis using parser_inv_end ensure_completes[OF inv' ne] inv' by blast
    next
      case no: False
      with False last have "process_line ?p (sp_line_buffer p) = (q, Ok ())"
        by (simp add: finish_last_line_def Let_def split: if_splits)
      with inv' process_line_inv show ?thesis by blast
    qed
  qed
  with ended show ?thesis by (auto simp: parser_inv_def state_inv_def)
qed

definition args_ok :: "apply_patch_args \<Rightarrow> bool" where
  "args_ok a \<longleftrightarrow> list_all hunk_done (args_hunks a) \<and> list_all guard_ok (args_revision_guards a)
     \<and> args_environment_id a \<noteq> Some []"

lemma parse_patch_cases:
  assumes "parse_patch s = Ok a"
  obtains p q where "length s \<le> MAX_PATCH_INPUT_BYTES" "unwrap_heredoc (trim s) = Ok (args_patch a)"
    "push_delta_in_place default_parser (args_patch a) = (p, Ok ())" "finish_in_place p = (q, Ok ())"
    "args_hunks a = sp_hunks q" "args_environment_id a = st_environment_id (sp_state q)"
    "args_revision_guards a = st_revision_guards (sp_state q)"
proof -
  from assms obtain body where body: "length s \<le> MAX_PATCH_INPUT_BYTES" "unwrap_heredoc (trim s) = Ok body"
    by (auto simp: parse_patch_def split: if_splits)
  obtain p r where push: "push_delta_in_place default_parser body = (p, r)" by fastforce
  obtain q r' where fin: "finish_in_place p = (q, r')" by fastforce
  from assms body push fin show thesis
    by (cases r; cases r') (auto simp: parse_patch_def into_parts_def intro: that)
qed

lemma parse_patch_ok:
  assumes "parse_patch s = Ok a"
  shows "args_ok a"
proof -
  from assms obtain p q where "push_delta_in_place default_parser (args_patch a) = (p, Ok ())"
    and fin: "finish_in_place p = (q, Ok ())"
    and a: "args_hunks a = sp_hunks q" "args_environment_id a = st_environment_id (sp_state q)"
      "args_revision_guards a = st_revision_guards (sp_state q)"
    by (rule parse_patch_cases)
  then have "parser_inv p" using push_delta_inv[OF default_parser_inv] by blast
  from finish_in_place_done[OF this fin] a show ?thesis
    by (simp add: args_ok_def parser_inv_def state_inv_def)
qed

section \<open>Properties\<close>

text \<open>
  C19: cutting the input of the streaming parser into deltas does not matter. Whatever parser state
  the deltas start from, feeding them one by one and stopping at the first error leaves the same
  state and result as one call with the whole text.
\<close>

theorem push_delta_chunking:
  "feed_all push_delta_in_place p deltas = push_delta_in_place p (concat deltas)"
  by (rule patch_stream.feed_all_concat)

text \<open>
  C17: while a patch streams in, hunks before the last one are final. From the empty parser, after
  any input (accepted or not) the state is well formed, further input keeps it so, and every hunk
  but the last is a complete well-formed hunk that stays where it is.
\<close>

theorem streamed_hunks_stable:
  assumes "push_delta_in_place default_parser s = (p, r)" "push_delta_in_place p t = (q, r')"
  shows "parser_inv q \<and> list_all hunk_done (butlast (sp_hunks p))
    \<and> prefix (butlast (sp_hunks p)) (butlast (sp_hunks q))"
proof -
  have "parser_inv p" by (rule push_delta_inv[OF default_parser_inv assms(1)])
  with push_delta_inv[OF this assms(2)] push_delta_grow[OF assms(2)] show ?thesis
    by (simp add: parser_inv_def state_inv_def hunks_grow_def)
qed

theorem streamed_hunks_stable_witness:
  "parser_inv (fst (push_delta_in_place (fst (push_delta_in_place default_parser ''x'')) ''y''))"
  using streamed_hunks_stable[of "''x''" "fst (push_delta_in_place default_parser ''x'')"
      "snd (push_delta_in_place default_parser ''x'')" "''y''"
      "fst (push_delta_in_place (fst (push_delta_in_place default_parser ''x'')) ''y'')"
      "snd (push_delta_in_place (fst (push_delta_in_place default_parser ''x'')) ''y'')"]
  by simp

text \<open>
  C20: the line handler refines the state machine of the modes. An accepted line moves the mode
  along an edge (header part, then file hunks, then the end; guards only before the first hunk); a
  rejected line leaves the parser exactly as it was.
\<close>

theorem process_line_refines_modes:
  "case process_line p l of
     (q, Ok _) \<Rightarrow> mode_edge (sp_mode p) (sp_mode q) \<and> mode_rank (sp_mode p) \<le> mode_rank (sp_mode q)
   | (q, Err _) \<Rightarrow> q = p"
  using process_line_edge[of p l] process_line_err[of p l] mode_edge_rank
  by (auto split: prod.split result.split)



text \<open>
  C18: what a successful parse promises to the code that applies the patch. Every hunk is complete:
  paths are not empty, an update has chunks or a move, every chunk has lines, and the line kinds of
  a chunk account for its old and new lines one by one; every guard names a file and carries a
  lowercase hash of 12 to 64 digits or absence.
\<close>

theorem parse_patch_wellformed:
  assumes "parse_patch s = Ok a"
  shows "list_all hunk_done (args_hunks a) \<and> list_all guard_ok (args_revision_guards a)
    \<and> args_environment_id a \<noteq> Some [] \<and> length s \<le> MAX_PATCH_INPUT_BYTES"
proof -
  have "length s \<le> MAX_PATCH_INPUT_BYTES" by (rule parse_patch_cases[OF assms])
  with parse_patch_ok[OF assms] show ?thesis by (simp add: args_ok_def)
qed

text \<open>
  A source hash of a guard or handle is 12 to 64 hexadecimal digits, stored in lowercase, and
  matches a file exactly when the digits are a prefix of the file's hash, letter case aside; any
  other text is refused.
\<close>

lemma source_hash_meaning:
  "case source_hash_parse digits of
     Ok h \<Rightarrow> hash_ref_ok h \<and> 12 \<le> length digits \<and> length digits \<le> 64
       \<and> (\<forall>actual. source_hash_matches h actual \<longleftrightarrow>
            prefix (to_ascii_lowercase digits) (to_ascii_lowercase actual))
   | Err e \<Rightarrow> \<not> (12 \<le> length digits \<and> length digits \<le> 64 \<and> list_all is_ascii_hexdigit digits)"
proof (cases "source_hash_parse digits")
  case (Ok h)
  then have h: "h = SourceHashRef (to_ascii_lowercase digits)" "12 \<le> length digits" "length digits \<le> 64"
    by (auto simp: source_hash_parse_def MIN_PREFIX_LEN_def FULL_LEN_def split: if_splits)
  have "source_hash_matches h actual \<longleftrightarrow> prefix (to_ascii_lowercase digits) (to_ascii_lowercase actual)" for actual
  proof -
    have "to_ascii_lowercase (take n actual) = take n (to_ascii_lowercase actual)" for n
      by (simp add: to_ascii_lowercase_def take_map)
    then have "source_hash_matches h actual \<longleftrightarrow> length digits \<le> length actual
        \<and> take (length (to_ascii_lowercase digits)) (to_ascii_lowercase actual) = to_ascii_lowercase digits"
      by (simp add: h(1) eq_ignore_ascii_case_def)
    then show ?thesis
      by (metis append_eq_conv_conj length_to_ascii_lowercase prefixE prefix_length_le take_is_prefix)
  qed
  with Ok h source_hash_parse_ok[OF Ok] show ?thesis by simp
qed (auto simp: source_hash_parse_def MIN_PREFIX_LEN_def FULL_LEN_def split: if_splits)

end
