(* ===== verification/Patch_Render.thy ===== *)
theory Patch_Render
  imports Parser_Invariant
begin

text \<open>
  A printer for the patch language and the proof that \<^verbatim>\<open>parse_patch\<close> inverts it: every well-formed
  list of hunks, guards and environment id is the meaning of some patch text, and reading that text
  gives back exactly the value that was printed. The printer is a specification device; the program
  only reads patches.
\<close>

section \<open>Printing\<close>

fun render_lines :: "update_line_kind list \<Rightarrow> string list \<Rightarrow> string list \<Rightarrow> string list" where
  "render_lines (Context # ks) (x # os) (y # ns) = (CHR '' '' # x) # render_lines ks os ns"
| "render_lines (Add # ks) os (y # ns) = (CHR ''+'' # y) # render_lines ks os ns"
| "render_lines (Remove # ks) (x # os) ns = (CHR ''-'' # x) # render_lines ks os ns"
| "render_lines _ _ _ = []"

definition render_context :: "string option \<Rightarrow> string" where
  "render_context ctx =
     (case ctx of None \<Rightarrow> EMPTY_CHANGE_CONTEXT_MARKER | Some t \<Rightarrow> CHANGE_CONTEXT_MARKER @ t)"

definition render_chunk :: "update_file_chunk \<Rightarrow> string list" where
  "render_chunk c = render_context (change_context c)
     # render_lines (line_kinds c) (old_lines c) (new_lines c)
     @ (if is_end_of_file c then [EOF_MARKER] else [])"

fun render_hunk :: "hunk \<Rightarrow> string list" where
  "render_hunk (AddFile p contents) =
     (ADD_FILE_MARKER @ p) # map (\<lambda>l. CHR ''+'' # butlast l) (split_inclusive LF contents)"
| "render_hunk (DeleteFile p) = [DELETE_FILE_MARKER @ p]"
| "render_hunk (UpdateFile p m cs) =
     (UPDATE_FILE_MARKER @ p) # (case m of None \<Rightarrow> [] | Some d \<Rightarrow> [MOVE_TO_MARKER @ d])
     @ concat (map render_chunk cs)"

fun render_hash :: "source_hash_ref option \<Rightarrow> string" where
  "render_hash None = ''absent''"
| "render_hash (Some (SourceHashRef h)) = ''sha256:'' @ h"

definition render_guard :: "file_revision_guard \<Rightarrow> string list" where
  "render_guard g = [GUARD_FILE_MARKER @ guard_path g, EXPECT_MARKER @ render_hash (expected_sha256 g)]"

definition render_body :: "string option \<Rightarrow> file_revision_guard list \<Rightarrow> hunk list \<Rightarrow> string list" where
  "render_body env gs hs = BEGIN_PATCH_MARKER
     # (case env of None \<Rightarrow> [] | Some e \<Rightarrow> [ENVIRONMENT_ID_MARKER @ '' '' @ e])
     @ concat (map render_guard gs) @ concat (map render_hunk hs)"

definition render_patch :: "string option \<Rightarrow> file_revision_guard list \<Rightarrow> hunk list \<Rightarrow> string" where
  "render_patch env gs hs = concat (map (\<lambda>l. l @ [LF]) (render_body env gs hs)) @ END_PATCH_MARKER"

text \<open>What can be printed: texts on one line, names with no blanks at their end.\<close>

definition line_text :: "string \<Rightarrow> bool" where
  "line_text t \<longleftrightarrow> LF \<notin> set t \<and> \<not> ends_with [CR] t"

definition name_text :: "string \<Rightarrow> bool" where
  "name_text t \<longleftrightarrow> line_text t \<and> t \<noteq> [] \<and> trim_end t = t"

definition printable_chunk :: "update_file_chunk \<Rightarrow> bool" where
  "printable_chunk c \<longleftrightarrow> chunk_wf c \<and> nonempty_chunk c \<and> pred_option name_text (change_context c)
     \<and> list_all line_text (old_lines c) \<and> list_all line_text (new_lines c)"

fun printable_hunk :: "hunk \<Rightarrow> bool" where
  "printable_hunk (AddFile p contents) \<longleftrightarrow> name_text p \<and> (contents = [] \<or> ends_with [LF] contents)
     \<and> \<not> contains_str [CR, LF] contents"
| "printable_hunk (DeleteFile p) \<longleftrightarrow> name_text p"
| "printable_hunk (UpdateFile p m cs) \<longleftrightarrow> name_text p \<and> pred_option name_text m
     \<and> (cs = [] \<longrightarrow> m \<noteq> None) \<and> list_all printable_chunk cs"

definition printable_guard :: "file_revision_guard \<Rightarrow> bool" where
  "printable_guard g \<longleftrightarrow> name_text (guard_path g) \<and> pred_option hash_ref_ok (expected_sha256 g)"

definition printable :: "string option \<Rightarrow> file_revision_guard list \<Rightarrow> hunk list \<Rightarrow> bool" where
  "printable env gs hs \<longleftrightarrow> pred_option (\<lambda>e. name_text e \<and> trim_start e = e) env
     \<and> list_all printable_guard gs \<and> list_all printable_hunk hs"

section \<open>Trimming printed lines\<close>

lemma trim_end_fixed:
  "trim_end s = s \<longleftrightarrow> s = [] \<or> \<not> is_whitespace (last (utf8_chars s))"
proof (cases "utf8_chars s" rule: rev_cases)
  case Nil
  then have "s = []" by (cases s) auto
  then show ?thesis by simp
next
  case (snoc cs c)
  then have ne: "s \<noteq> []" by auto
  have "trim_end s = s \<longleftrightarrow> utf8_chars (trim_end s) = utf8_chars s" by (metis concat_utf8_chars)
  also have "\<dots> \<longleftrightarrow> \<not> is_whitespace c"
  proof (cases "is_whitespace c")
    case True
    have "length (dropWhile is_whitespace (rev cs)) \<le> length cs"
      using length_dropWhile_le[of is_whitespace "rev cs"] by simp
    then have "rev (dropWhile is_whitespace (rev cs)) \<noteq> cs @ [c]"
      by (metis length_append_singleton length_rev not_less_eq_eq order_refl)
    with True snoc show ?thesis by simp
  qed (use snoc in simp)
  finally show ?thesis using snoc ne by simp
qed

lemma trim_end_prefix_name:
  assumes "list_all is_ascii m" "s \<noteq> []" "trim_end s = s"
  shows "trim_end (m @ s) = m @ s"
proof -
  have "utf8_chars s \<noteq> []" using assms(2) by (cases s) auto
  with assms show ?thesis
    by (simp add: trim_end_fixed utf8_chars_ascii_prefix)
qed

lemma trim_start_ascii:
  assumes "is_ascii c" "\<not> is_whitespace [c]"
  shows "trim_start (c # s) = c # s"
  using assms utf8_chars_ascii_prefix[of "[c]" s] by (simp add: trim_start_def is_ascii_def)

lemma trim_marker_name:
  assumes "m = c # m'" "list_all is_ascii m" "\<not> is_whitespace [c]" "s \<noteq> []" "trim_end s = s"
  shows "trim (m @ s) = m @ s"
  using assms trim_end_prefix_name[of m s] trim_start_ascii[of c "m' @ s"] by (simp add: trim_def)

lemmas marker_defs = BEGIN_PATCH_MARKER_def END_PATCH_MARKER_def ADD_FILE_MARKER_def
  DELETE_FILE_MARKER_def UPDATE_FILE_MARKER_def MOVE_TO_MARKER_def GUARD_FILE_MARKER_def
  EXPECT_MARKER_def EOF_MARKER_def CHANGE_CONTEXT_MARKER_def EMPTY_CHANGE_CONTEXT_MARKER_def
  ENVIRONMENT_ID_MARKER_def

lemma star_not_blank: "\<not> is_whitespace ''*''" "\<not> is_whitespace ''@''"
  by (simp_all add: is_whitespace_def whitespace_chars_def)

lemma markers_ascii:
  "list_all is_ascii ADD_FILE_MARKER" "list_all is_ascii DELETE_FILE_MARKER"
  "list_all is_ascii UPDATE_FILE_MARKER" "list_all is_ascii MOVE_TO_MARKER"
  "list_all is_ascii GUARD_FILE_MARKER" "list_all is_ascii EXPECT_MARKER"
  "list_all is_ascii CHANGE_CONTEXT_MARKER" "list_all is_ascii (ENVIRONMENT_ID_MARKER @ '' '')"
  by (simp_all add: marker_defs is_ascii_def)

lemma trim_star_marker:
  assumes "m = CHR ''*'' # m'" "list_all is_ascii m" "name_text s"
  shows "trim (m @ s) = m @ s" "trim_end (m @ s) = m @ s"
  using trim_marker_name[OF assms(1,2) star_not_blank(1), of s] assms trim_end_trim[of "m @ s"]
  by (simp_all add: name_text_def)

lemma trim_header:
  assumes "name_text s"
  shows "trim (ADD_FILE_MARKER @ s) = ADD_FILE_MARKER @ s"
    "trim (DELETE_FILE_MARKER @ s) = DELETE_FILE_MARKER @ s"
    "trim (UPDATE_FILE_MARKER @ s) = UPDATE_FILE_MARKER @ s"
    "trim (GUARD_FILE_MARKER @ s) = GUARD_FILE_MARKER @ s"
    "trim_end (MOVE_TO_MARKER @ s) = MOVE_TO_MARKER @ s"
  by (rule trim_star_marker[OF _ _ assms], simp add: marker_defs, rule markers_ascii)+

lemma split_inclusive_ends:
  "l \<in> set (split_inclusive d s) \<Longrightarrow> s = [] \<or> ends_with [d] s \<Longrightarrow> ends_with [d] l"
proof (induction s arbitrary: l)
  case (Cons c s)
  have s: "s = [] \<or> ends_with [d] s"
    using Cons.prems(2) by (cases s rule: rev_cases) (auto simp: ends_with_iff)
  show ?case
  proof (cases "c = d")
    case True
    with Cons.prems(1) s Cons.IH show ?thesis by (auto simp: ends_with_iff)
  next
    case False
    with Cons.prems(2) s have "ends_with [d] s" by (auto simp: ends_with_iff)
    with Cons.prems(1) False s Cons.IH show ?thesis
      by (fastforce simp: ends_with_iff split: list.splits)
  qed
qed simp

lemma split_inclusive_inner: "l \<in> set (split_inclusive d s) \<Longrightarrow> d \<notin> set (butlast l)"
proof (induction s arbitrary: l)
  case (Cons c s)
  then show ?case
    by (cases "split_inclusive d s") (auto split: if_splits dest: split_inclusive_piece_ne)
qed simp

lemma split_inclusive_infix: "l \<in> set (split_inclusive d s) \<Longrightarrow> \<exists>a b. s = a @ l @ b"
  by (metis concat_split_inclusive concat_append concat.simps(2) split_list)

section \<open>Reading printed lines\<close>

fun process_lines :: "streaming_patch_parser \<Rightarrow> string list \<Rightarrow> unit pstep" where
  "process_lines p [] = (p, Ok ())"
| "process_lines p (l # ls) =
     (case process_line (p\<lparr>sp_line_number := sp_line_number p + 1\<rparr>) l of
        (q, Err e) \<Rightarrow> (q, Err e)
      | (q, Ok _) \<Rightarrow> process_lines q ls)"

definition reads :: "streaming_patch_parser \<Rightarrow> string list \<Rightarrow> (streaming_patch_parser \<Rightarrow> bool) \<Rightarrow> bool" where
  "reads p ls Q \<longleftrightarrow> (\<exists>q. process_lines p ls = (q, Ok ()) \<and> Q q)"

lemma reads_Nil [simp]: "reads p [] Q = Q p"
  by (simp add: reads_def)

lemma reads_Cons:
  assumes "process_line (p\<lparr>sp_line_number := sp_line_number p + 1\<rparr>) l = (q, Ok ())" "reads q ls Q"
  shows "reads p (l # ls) Q"
  using assms by (simp add: reads_def)

lemma reads_append: "reads p a (\<lambda>q. reads q b Q) \<Longrightarrow> reads p (a @ b) Q"
  by (induction a arbitrary: p) (auto simp: reads_def split: prod.splits result.splits)

lemma reads_seq:
  assumes "reads p a R" "\<And>q. R q \<Longrightarrow> reads q b Q"
  shows "reads p (a @ b) Q"
  using assms by (intro reads_append) (auto simp: reads_def)

definition parts :: "streaming_patch_parser \<Rightarrow> string option \<Rightarrow> file_revision_guard list \<Rightarrow> hunk list \<Rightarrow> bool" where
  "parts p env gs hs \<longleftrightarrow> sp_line_buffer p = [] \<and> st_environment_id (sp_state p) = env
     \<and> st_revision_guards (sp_state p) = gs \<and> sp_hunks p = hs"

definition ready :: "streaming_patch_parser \<Rightarrow> bool" where
  "ready p \<longleftrightarrow> sp_mode p = Mode_StartedPatch \<or> opens_hunk (sp_mode p)"

lemma parts_number [simp]: "parts (p\<lparr>sp_line_number := n\<rparr>) env gs hs = parts p env gs hs"
  by (simp add: parts_def)

lemma ready_number [simp]: "ready (p\<lparr>sp_line_number := n\<rparr>) = ready p"
  by (simp add: ready_def)

lemma ensure_ok:
  assumes "list_all hunk_done (sp_hunks p)"
  shows "ensure_update_hunk_is_not_empty p t = Ok ()"
proof (cases "sp_hunks p" rule: rev_cases)
  case (snoc hs h)
  with assms have "hunk_done h" by simp
  with snoc show ?thesis
    by (cases h) (auto simp: ensure_update_hunk_is_not_empty_def last_chunk_is_empty_def
        nonempty_chunk_def list_all_iff split: bool.split streaming_parser_mode.split)
qed (simp add: ensure_update_hunk_is_not_empty_def)

lemma header_line:
  assumes "ready p" "trim l = l" "handle_hunk_headers_and_end_patch p l = (q, Ok True)"
  shows "process_line p l = (q, Ok ())"
proof -
  have "trim_end l = l" using assms(2) trim_end_trim[of l] by simp
  with assms show ?thesis
    by (cases "sp_mode p") (auto simp: ready_def process_line_def header_or_else_def Let_def)
qed

lemma file_header_line:
  assumes "ready p" "name_text path" "list_all hunk_done (sp_hunks p)"
  shows "process_line p (ADD_FILE_MARKER @ path) =
      (set_mode Mode_AddFile (push_hunk (AddFile path []) p), Ok ())"
    "process_line p (DELETE_FILE_MARKER @ path) =
      (set_mode Mode_DeleteFile (push_hunk (DeleteFile path) p), Ok ())"
    "process_line p (UPDATE_FILE_MARKER @ path) =
      (set_mode (Mode_UpdateFile (sp_line_number p)) (push_hunk (UpdateFile path None []) p), Ok ())"
  by (rule header_line[OF assms(1)], simp add: trim_header assms,
      simp add: handle_hunk_headers_and_end_patch_def marker_defs after_nonempty_def ensure_ok assms
        split: streaming_parser_mode.split)+

text \<open>A line that does not begin with a star is no header.\<close>

lemma no_header:
  assumes "t = [] \<or> hd t \<noteq> CHR ''*''"
  shows "handle_hunk_headers_and_end_patch p t = (p, Ok False)"
  using assms
  by (cases t) (auto simp: handle_hunk_headers_and_end_patch_def marker_defs
      split: streaming_parser_mode.split)

lemma trim_end_hd: "trim_end (c # t) = [] \<or> (\<exists>u. trim_end (c # t) = c # u)"
  using trim_end_prefix[of "c # t"] by (cases "trim_end (c # t)") auto

lemma trim_end_CharE:
  obtains "trim_end (c # t) = []" | u where "trim_end (c # t) = c # u"
  using trim_end_hd by blast

lemma plus_not_blank: "\<not> is_whitespace ''+''"
  by (simp add: is_whitespace_def whitespace_chars_def)

lemma add_body_line:
  assumes "sp_mode p = Mode_AddFile" "sp_hunks p = hs @ [AddFile path c]"
  shows "process_line p (CHR ''+'' # t) = (set_last_hunk (AddFile path (c @ t @ [LF])) p, Ok ())"
proof -
  have "trim (CHR ''+'' # t) = trim_end (CHR ''+'' # t)"
    by (simp add: trim_def trim_start_ascii plus_not_blank is_ascii_def)
  then have "handle_hunk_headers_and_end_patch p (trim (CHR ''+'' # t)) = (p, Ok False)"
    using trim_end_hd[of "CHR ''+''" t] by (intro no_header) auto
  then show ?thesis
    using assms
    by (simp add: process_line_def header_or_else_def process_add_line_def last_hunk_def)
qed

lemma add_body_lines:
  assumes "sp_mode p = Mode_AddFile" "parts p env gs (hs @ [AddFile path c])"
    and "\<And>l. l \<in> set ls \<Longrightarrow> ends_with [LF] l"
  shows "reads p (map (\<lambda>l. CHR ''+'' # butlast l) ls)
     (\<lambda>q. sp_mode q = Mode_AddFile \<and> parts q env gs (hs @ [AddFile path (c @ concat ls)]))"
  using assms
proof (induction ls arbitrary: p c)
  case (Cons l ls)
  from Cons.prems(3)[of l] obtain t where l: "l = t @ [LF]" by (auto simp: ends_with_iff)
  let ?p = "p\<lparr>sp_line_number := sp_line_number p + 1\<rparr>"
  let ?q = "set_last_hunk (AddFile path (c @ t @ [LF])) ?p"
  have "process_line ?p (CHR ''+'' # t) = (?q, Ok ())"
    by (rule add_body_line[where hs = hs]) (use Cons.prems in \<open>auto simp: parts_def\<close>)
  moreover have "reads ?q (map (\<lambda>l. CHR ''+'' # butlast l) ls)
      (\<lambda>q. sp_mode q = Mode_AddFile \<and> parts q env gs (hs @ [AddFile path ((c @ l) @ concat ls)]))"
    by (rule Cons.IH) (use Cons.prems l in \<open>auto simp: parts_def\<close>)
  ultimately show ?case using l by (auto intro!: reads_Cons)
qed simp

lemma update_line_ok:
  assumes "sp_mode p = Mode_UpdateFile n" "sp_hunks p = hs @ [UpdateFile path m cs]"
    and "handle_hunk_headers_and_end_patch p (trim_end l) = (p, Ok False)"
    and "update_hunk_line (sp_line_number p) l m cs = Ok (m', cs')"
  shows "process_line p l = (set_last_hunk (UpdateFile path m' cs') p, Ok ())"
  using assms by (simp add: process_line_def header_or_else_def process_update_line_def last_hunk_def)

definition in_update :: "streaming_patch_parser \<Rightarrow> string option \<Rightarrow> file_revision_guard list \<Rightarrow> hunk list \<Rightarrow>
    path \<Rightarrow> path option \<Rightarrow> update_file_chunk list \<Rightarrow> bool" where
  "in_update p env gs hs path m cs \<longleftrightarrow>
     (\<exists>n. sp_mode p = Mode_UpdateFile n) \<and> parts p env gs (hs @ [UpdateFile path m cs])"

text \<open>One printed line of an update hunk takes the hunk one step on.\<close>

lemma reads_update_line:
  assumes "in_update p env gs hs path m cs"
    and "trim_end l = [] \<or> hd (trim_end l) \<noteq> CHR ''*'' \<or> trim_end l = EOF_MARKER
         \<or> (\<exists>d. trim_end l = MOVE_TO_MARKER @ d)"
    and "\<And>n. update_hunk_line n l m cs = Ok (m', cs')"
    and "\<And>q. in_update q env gs hs path m' cs' \<Longrightarrow> reads q ls Q"
  shows "reads p (l # ls) Q"
proof (rule reads_Cons)
  let ?p = "p\<lparr>sp_line_number := sp_line_number p + 1\<rparr>"
  from assms(1) obtain n where mode: "sp_mode p = Mode_UpdateFile n"
    and hunks: "sp_hunks p = hs @ [UpdateFile path m cs]" by (auto simp: in_update_def parts_def)
  have "handle_hunk_headers_and_end_patch ?p (trim_end l) = (?p, Ok False)"
    using assms(2)
  proof (elim disjE exE)
    assume "trim_end l = EOF_MARKER"
    then show ?thesis using mode by (simp add: handle_hunk_headers_and_end_patch_def marker_defs)
  next
    fix d
    assume "trim_end l = MOVE_TO_MARKER @ d"
    then show ?thesis using mode by (simp add: handle_hunk_headers_and_end_patch_def marker_defs)
  qed (simp_all add: no_header)
  then show "process_line ?p l = (set_last_hunk (UpdateFile path m' cs') ?p, Ok ())"
    by (intro update_line_ok[where hs = hs and n = n]) (use mode hunks assms(3) in auto)
  show "reads (set_last_hunk (UpdateFile path m' cs') ?p) ls Q"
    by (rule assms(4)) (use assms(1) in \<open>auto simp: in_update_def parts_def\<close>)
qed

lemma update_move_line:
  "name_text d \<Longrightarrow> update_hunk_line n (MOVE_TO_MARKER @ d) None [] = Ok (Some d, [])"
  by (simp add: update_hunk_line_def trim_header)

lemma trim_end_context:
  assumes "pred_option name_text ctx"
  shows "trim_end (render_context ctx) = render_context ctx"
proof (cases ctx)
  case None
  have "trim_end EMPTY_CHANGE_CONTEXT_MARKER = EMPTY_CHANGE_CONTEXT_MARKER" by code_simp
  with None show ?thesis by (simp add: render_context_def)
next
  case (Some t)
  with assms show ?thesis
    by (simp add: render_context_def name_text_def trim_end_prefix_name[OF markers_ascii(7)])
qed

lemma update_context_line:
  assumes "pred_option name_text ctx" "\<not> last_chunk_is_empty cs"
  shows "update_hunk_line n (render_context ctx) m cs = Ok (m, cs @ [new_chunk ctx])"
proof -
  define l where "l = render_context ctx"
  have u: "trim_end l = l" "l \<noteq> []" "is_context_marker l" "strip_prefix MOVE_TO_MARKER l = None"
    using assms(1) trim_end_context
    by (auto simp: l_def render_context_def is_context_marker_def marker_defs split: option.splits)
  have "update_hunk_line n l m cs = Ok (m, cs @ [new_chunk ctx])"
  proof (cases ctx)
    case None
    then have "l = EMPTY_CHANGE_CONTEXT_MARKER" by (simp add: l_def render_context_def)
    with None u assms(2) show ?thesis by (simp add: update_hunk_line_def split: bool.split)
  next
    case (Some t)
    then have l: "l \<noteq> EMPTY_CHANGE_CONTEXT_MARKER" "strip_prefix CHANGE_CONTEXT_MARKER l = Some t"
      by (simp_all add: l_def render_context_def marker_defs)
    show ?thesis
      using u(2,3,4) assms(2) unfolding update_hunk_line_def Let_def u(1) l(2)
      by (simp add: l(1) Some split: bool.split)
  qed
  then show ?thesis by (simp add: l_def)
qed

fun kind_char :: "update_line_kind \<Rightarrow> char" where
  "kind_char Context = CHR '' ''"
| "kind_char Add = CHR ''+''"
| "kind_char Remove = CHR ''-''"

lemma update_body_line:
  assumes "\<not> is_end_of_file c"
  shows "update_hunk_line n (kind_char k # t) m (cs @ [c]) = Ok (m, extend_last_chunk k t (cs @ [c]))"
proof -
  let ?l = "kind_char k # t"
  have "kind_char k \<noteq> CHR ''*''" "kind_char k \<noteq> CHR ''@''" by (cases k; simp)+
  then have u: "strip_prefix MOVE_TO_MARKER (trim_end ?l) = None" "\<not> is_context_marker (trim_end ?l)"
    "trim_end ?l \<noteq> EMPTY_CHANGE_CONTEXT_MARKER" "strip_prefix CHANGE_CONTEXT_MARKER (trim_end ?l) = None"
    "trim_end ?l \<noteq> EOF_MARKER"
    using trim_end_hd[of "kind_char k" t] by (auto simp: marker_defs is_context_marker_def)
  show ?thesis
    using u assms by (cases k) (simp_all add: update_hunk_line_def split: bool.split)
qed

lemma update_eof_line:
  assumes "\<not> chunk_is_empty c" "\<not> is_end_of_file c"
  shows "update_hunk_line n EOF_MARKER m (cs @ [c]) = Ok (m, cs @ [c\<lparr>is_end_of_file := True\<rparr>])"
proof -
  have "trim_end EOF_MARKER = EOF_MARKER" by code_simp
  then show ?thesis using assms
    by (simp add: update_hunk_line_def marker_defs is_context_marker_def last_chunk_is_empty_def
        mark_end_of_file_def split: bool.split)
qed

text \<open>Reading the printed lines of a chunk appends them to the chunk being read.\<close>

definition add_lines ::
    "update_line_kind list \<Rightarrow> string list \<Rightarrow> string list \<Rightarrow> update_file_chunk \<Rightarrow> update_file_chunk" where
  "add_lines ks os ns c = c\<lparr>line_kinds := line_kinds c @ ks, old_lines := old_lines c @ os,
     new_lines := new_lines c @ ns\<rparr>"

lemma extend_add_lines:
  "extend_last_chunk Context x (cs @ [c]) = cs @ [add_lines [Context] [x] [x] c]"
  "extend_last_chunk Add x (cs @ [c]) = cs @ [add_lines [Add] [] [x] c]"
  "extend_last_chunk Remove x (cs @ [c]) = cs @ [add_lines [Remove] [x] [] c]"
  by (simp_all add: extend_last_chunk_def add_lines_def Let_def)

lemma add_lines_add_lines [simp]:
  "add_lines ks os ns (add_lines ks' os' ns' c) = add_lines (ks' @ ks) (os' @ os) (ns' @ ns) c"
  "is_end_of_file (add_lines ks os ns c) = is_end_of_file c" "add_lines [] [] [] c = c"
  by (simp_all add: add_lines_def)

lemma kind_char_starts:
  "trim_end (kind_char k # t) = [] \<or> hd (trim_end (kind_char k # t)) \<noteq> CHR ''*''"
  by (rule trim_end_CharE[of "kind_char k" t]; cases k) auto

lemma reads_body_line:
  assumes "in_update p env gs hs path m (cs @ [c])" "\<not> is_end_of_file c"
    and "\<And>q. in_update q env gs hs path m (extend_last_chunk k t (cs @ [c])) \<Longrightarrow> reads q ls Q"
  shows "reads p ((kind_char k # t) # ls) Q"
  by (rule reads_update_line[OF assms(1)])
     (use kind_char_starts[of k t] update_body_line[OF assms(2)] assms(3) in blast)+

lemma reads_chunk_lines:
  assumes "aligned ks os ns" "in_update p env gs hs path m (cs @ [c])" "\<not> is_end_of_file c"
  shows "reads p (render_lines ks os ns)
     (\<lambda>q. in_update q env gs hs path m (cs @ [add_lines ks os ns c]))"
  using assms
proof (induction ks os ns arbitrary: p c rule: aligned.induct)
  case (2 ks x os y ns)
  from "2.prems" show ?case
    by (auto intro!: reads_body_line[of p env gs hs path m cs c Context, simplified]
        dest: "2.IH" simp: extend_add_lines)
next
  case (3 ks os y ns)
  from "3.prems" show ?case
    by (auto intro!: reads_body_line[of p env gs hs path m cs c Add, simplified]
        dest: "3.IH" simp: extend_add_lines)
next
  case (4 ks x os ns)
  from "4.prems" show ?case
    by (auto intro!: reads_body_line[of p env gs hs path m cs c Remove, simplified]
        dest: "4.IH" simp: extend_add_lines)
qed auto

lemma reads_mono: "reads p ls Q \<Longrightarrow> (\<And>q. Q q \<Longrightarrow> R q) \<Longrightarrow> reads p ls R"
  by (auto simp: reads_def)

lemma context_starts:
  assumes "pred_option name_text ctx"
  shows "hd (trim_end (render_context ctx)) \<noteq> CHR ''*''"
  by (simp add: trim_end_context[OF assms])
     (simp add: render_context_def marker_defs split: option.split)

lemma trim_end_EOF [simp]: "trim_end EOF_MARKER = EOF_MARKER"
  by code_simp

lemma reads_chunk:
  assumes p: "in_update p env gs hs path m cs" and ne: "\<not> last_chunk_is_empty cs" and c: "printable_chunk c"
  shows "reads p (render_chunk c) (\<lambda>q. in_update q env gs hs path m (cs @ [c]))"
proof -
  let ?ls = "render_lines (line_kinds c) (old_lines c) (new_lines c)"
  let ?c = "add_lines (line_kinds c) (old_lines c) (new_lines c) (new_chunk (change_context c))"
  have ctx: "pred_option name_text (change_context c)" and al: "aligned (line_kinds c) (old_lines c) (new_lines c)"
    and full: "\<not> chunk_is_empty ?c" and same: "?c\<lparr>is_end_of_file := is_end_of_file c\<rparr> = c"
    using c by (auto simp: printable_chunk_def chunk_wf_def nonempty_chunk_def chunk_is_empty_def
        add_lines_def new_chunk_def)
  have body: "reads q ?ls (\<lambda>q. in_update q env gs hs path m (cs @ [?c]))"
    if "in_update q env gs hs path m (cs @ [new_chunk (change_context c)])" for q
    by (rule reads_chunk_lines[OF al that]) (simp add: new_chunk_def)
  have last: "reads q (if is_end_of_file c then [EOF_MARKER] else [])
      (\<lambda>q. in_update q env gs hs path m (cs @ [c]))"
    if q: "in_update q env gs hs path m (cs @ [?c])" for q
  proof (cases "is_end_of_file c")
    case True
    have "update_hunk_line n EOF_MARKER m (cs @ [?c]) = Ok (m, cs @ [c])" for n
      using update_eof_line[OF full, of n m cs] True same by (simp add: new_chunk_def)
    with True show ?thesis by (simp add: reads_update_line[OF q])
  next
    case False
    moreover have "?c = c" using same False by (simp add: add_lines_def new_chunk_def)
    ultimately show ?thesis using q by simp
  qed
  show ?thesis
    unfolding render_chunk_def
    by (rule reads_update_line[OF p _ update_context_line[OF ctx ne]])
       (use context_starts[OF ctx] reads_seq[OF body last] in auto)
qed

lemma reads_chunks:
  assumes "in_update p env gs hs path m cs" "\<not> last_chunk_is_empty cs" "list_all printable_chunk ds"
  shows "reads p (concat (map render_chunk ds)) (\<lambda>q. in_update q env gs hs path m (cs @ ds))"
  using assms
proof (induction ds arbitrary: p cs)
  case (Cons d ds)
  then have d: "printable_chunk d" and ds: "list_all printable_chunk ds" by auto
  have "reads q (concat (map render_chunk ds)) (\<lambda>q. in_update q env gs hs path m (cs @ d # ds))"
    if "in_update q env gs hs path m (cs @ [d])" for q
    using Cons.IH[OF that _ ds] d
    by (simp add: last_chunk_is_empty_def printable_chunk_def nonempty_chunk_def)
  with reads_chunk[OF Cons.prems(1,2) d] show ?case by (auto intro: reads_seq)
qed simp

lemma reads_hunk:
  assumes p: "ready p" "parts p env gs hs" "list_all hunk_done hs" and h: "printable_hunk h"
  shows "reads p (render_hunk h) (\<lambda>q. ready q \<and> parts q env gs (hs @ [h]))"
proof -
  let ?p = "p\<lparr>sp_line_number := sp_line_number p + 1\<rparr>"
  have p': "ready ?p" "list_all hunk_done (sp_hunks ?p)" using p by (auto simp: parts_def)
  show ?thesis
  proof (cases h)
    case (DeleteFile path)
    with h p file_header_line(2)[OF p'(1) _ p'(2), of path] show ?thesis
      by (auto intro!: reads_Cons simp: parts_def ready_def)
  next
    case (AddFile path contents)
    let ?q = "set_mode Mode_AddFile (push_hunk (AddFile path []) ?p)"
    have ends: "ends_with [LF] l" if "l \<in> set (split_inclusive LF contents)" for l
      using that h AddFile by (auto simp: split_inclusive_ends)
    have "reads ?q (map (\<lambda>l. CHR ''+'' # butlast l) (split_inclusive LF contents))
      (\<lambda>q. sp_mode q = Mode_AddFile \<and> parts q env gs (hs @ [AddFile path ([] @ contents)]))"
      using add_body_lines[of ?q env gs hs path "[]" "split_inclusive LF contents"] ends p
      by (auto simp: parts_def)
    then have "reads ?q (map (\<lambda>l. CHR ''+'' # butlast l) (split_inclusive LF contents))
      (\<lambda>q. ready q \<and> parts q env gs (hs @ [h]))"
      by (rule reads_mono) (auto simp: ready_def AddFile)
    with AddFile h file_header_line(1)[OF p'(1) _ p'(2), of path] show ?thesis
      by (auto intro!: reads_Cons)
  next
    case (UpdateFile path m cs)
    let ?q = "set_mode (Mode_UpdateFile (sp_line_number ?p)) (push_hunk (UpdateFile path None []) ?p)"
    have q: "in_update ?q env gs hs path None []" using p by (auto simp: in_update_def parts_def)
    have cs: "reads q (concat (map render_chunk cs)) (\<lambda>q. ready q \<and> parts q env gs (hs @ [h]))"
      if "in_update q env gs hs path m []" for q
      by (rule reads_mono[OF reads_chunks[OF that]])
         (use UpdateFile h in \<open>auto simp: in_update_def ready_def last_chunk_is_empty_def\<close>)
    have "reads ?q ((case m of None \<Rightarrow> [] | Some d \<Rightarrow> [MOVE_TO_MARKER @ d]) @ concat (map render_chunk cs))
      (\<lambda>q. ready q \<and> parts q env gs (hs @ [h]))"
    proof (cases m)
      case None
      with cs q show ?thesis by simp
    next
      case (Some d)
      with h UpdateFile have d: "name_text d" by simp
      have "reads ?q ((MOVE_TO_MARKER @ d) # concat (map render_chunk cs))
          (\<lambda>q. ready q \<and> parts q env gs (hs @ [h]))"
        by (rule reads_update_line[OF q _ update_move_line[OF d]])
           (use cs Some in \<open>auto simp: trim_header d\<close>)
      with Some show ?thesis by simp
    qed
    with UpdateFile h file_header_line(3)[OF p'(1) _ p'(2), of path] show ?thesis
      by (auto intro!: reads_Cons)
  qed
qed

lemma printable_done: "printable_hunk h \<Longrightarrow> hunk_done h"
  by (cases h) (auto simp: name_text_def printable_chunk_def list_all_iff dest: option.pred_mono_strong
      split: option.splits)

lemma reads_hunks:
  assumes "ready p" "parts p env gs hs" "list_all hunk_done hs" "list_all printable_hunk hs'"
  shows "reads p (concat (map render_hunk hs')) (\<lambda>q. ready q \<and> parts q env gs (hs @ hs'))"
  using assms
proof (induction hs' arbitrary: p hs)
  case (Cons h hs')
  then have h: "printable_hunk h" and hs': "list_all printable_hunk hs'" by auto
  have "reads q (concat (map render_hunk hs')) (\<lambda>q. ready q \<and> parts q env gs (hs @ h # hs'))"
    if "ready q \<and> parts q env gs (hs @ [h])" for q
    using Cons.IH[of q "hs @ [h]"] that Cons.prems(3) hs' printable_done[OF h] by simp
  with reads_hunk[OF Cons.prems(1-3) h] show ?case by (auto intro: reads_seq)
qed simp

text \<open>The header part: environment id and revision guards.\<close>

definition started :: "streaming_patch_parser \<Rightarrow> string option \<Rightarrow> file_revision_guard list \<Rightarrow> bool" where
  "started p env gs \<longleftrightarrow> sp_mode p = Mode_StartedPatch \<and> parts p env gs []"

lemma source_hash_parse_printed: "hash_ref_ok (SourceHashRef h) \<Longrightarrow> source_hash_parse h = Ok (SourceHashRef h)"
  by (auto simp: source_hash_parse_def)

lemma hex_not_blank:
  assumes "list_all is_ascii_hexdigit h" "h \<noteq> []"
  shows "list_all is_ascii h \<and> trim_end h = h \<and> line_text h"
proof -
  have "list_all (\<lambda>c. is_ascii c \<and> \<not> is_whitespace [c] \<and> c \<noteq> LF \<and> c \<noteq> CR) ''0123456789abcdefABCDEF''"
    by code_simp
  with assms(1) have hex: "is_ascii c \<and> \<not> is_whitespace [c] \<and> c \<noteq> LF \<and> c \<noteq> CR" if "c \<in> set h" for c
    using that unfolding list_all_iff is_ascii_hexdigit_def by blast
  then have asc: "list_all is_ascii h" by (simp add: list_all_iff)
  have "utf8_chars h = map (\<lambda>c. [c]) h" using utf8_chars_ascii_prefix[OF asc, of "[]"] by simp
  then have "trim_end h = h" using assms(2) hex by (simp add: trim_end_fixed last_map)
  moreover have "LF \<notin> set h" "CR \<notin> set h" using hex by blast+
  ultimately show ?thesis using asc by (auto simp: line_text_def ends_with_iff)
qed

lemma trim_expect:
  assumes "pred_option hash_ref_ok sha"
  shows "trim (EXPECT_MARKER @ render_hash sha) = EXPECT_MARKER @ render_hash sha"
proof (cases sha)
  case None
  have "trim (EXPECT_MARKER @ ''absent'') = EXPECT_MARKER @ ''absent''" by code_simp
  with None show ?thesis by simp
next
  case (Some r)
  obtain h where r: "r = SourceHashRef h" by (cases r)
  with assms Some have h: "list_all is_ascii_hexdigit h" "h \<noteq> []" by (auto simp: MIN_PREFIX_LEN_def)
  have "trim ((EXPECT_MARKER @ ''sha256:'') @ h) = (EXPECT_MARKER @ ''sha256:'') @ h"
    by (rule trim_marker_name[where c = "CHR ''*''"])
       (use hex_not_blank[OF h] h star_not_blank in \<open>auto simp: marker_defs is_ascii_def\<close>)
  with Some r show ?thesis by simp
qed

lemma reads_guard:
  assumes p: "started p env gs" and g: "printable_guard g"
  shows "reads p (render_guard g) (\<lambda>q. started q env (gs @ [g]))"
proof -
  obtain path sha where g': "g = \<lparr>guard_path = path, expected_sha256 = sha\<rparr>" by (cases g)
  with g have path: "name_text path" and sha: "pred_option hash_ref_ok sha"
    by (auto simp: printable_guard_def)
  let ?p = "p\<lparr>sp_line_number := sp_line_number p + 1\<rparr>"
  let ?q = "?p\<lparr>sp_state := (sp_state ?p)\<lparr>st_pending_guard := Some path, st_mode := Mode_GuardFile\<rparr>\<rparr>"
  have one: "process_line ?p (GUARD_FILE_MARKER @ path) = (?q, Ok ())"
    by (rule header_line)
       (use p path in \<open>auto simp: ready_def started_def trim_header handle_hunk_headers_and_end_patch_def
         name_text_def\<close>)
  let ?q1 = "?q\<lparr>sp_line_number := sp_line_number ?q + 1\<rparr>"
  have "process_guard_line ?q1 (EXPECT_MARKER @ render_hash sha) = (?q1\<lparr>sp_state := (sp_state ?q1)
      \<lparr>st_pending_guard := None, st_revision_guards := st_revision_guards (sp_state ?q1) @ [g],
       st_mode := Mode_StartedPatch\<rparr>\<rparr>, Ok ())"
    using sha
    by (cases sha rule: render_hash.cases)
       (auto simp: process_guard_line_def g' source_hash_parse_printed simp del: hash_ref_ok.simps)
  then have two: "process_line ?q1 (EXPECT_MARKER @ render_hash sha) = (?q1\<lparr>sp_state := (sp_state ?q1)
      \<lparr>st_pending_guard := None, st_revision_guards := st_revision_guards (sp_state ?q1) @ [g],
       st_mode := Mode_StartedPatch\<rparr>\<rparr>, Ok ())"
    by (simp add: process_line_def trim_expect[OF sha])
  show ?thesis
    unfolding render_guard_def g' file_revision_guard.simps
    by (rule reads_Cons[OF one], rule reads_Cons[OF two])
       (use p in \<open>auto simp: started_def parts_def g'\<close>)
qed

lemma reads_guards:
  assumes "started p env gs" "list_all printable_guard gs'"
  shows "reads p (concat (map render_guard gs')) (\<lambda>q. started q env (gs @ gs'))"
  using assms
proof (induction gs' arbitrary: p gs)
  case (Cons g gs')
  then have "reads q (concat (map render_guard gs')) (\<lambda>q. started q env (gs @ g # gs'))"
    if "started q env (gs @ [g])" for q
    using Cons.IH[OF that] Cons.prems(2) by simp
  with reads_guard[OF Cons.prems(1), of g] Cons.prems(2) show ?case by (auto intro: reads_seq)
qed simp

lemma reads_environment:
  assumes p: "started p None []" and e: "name_text e" "trim_start e = e"
  shows "reads p [ENVIRONMENT_ID_MARKER @ '' '' @ e] (\<lambda>q. started q (Some e) [])"
proof -
  let ?p = "p\<lparr>sp_line_number := sp_line_number p + 1\<rparr>"
  have "trim e = e" using e by (simp add: trim_def name_text_def)
  moreover have "trim_start ('' '' @ e) = trim_start e"
    by (simp add: trim_start_def is_whitespace_def whitespace_chars_def)
  ultimately have env: "trim ('' '' @ e) = e" by (metis trim_def)
  have t: "trim ((ENVIRONMENT_ID_MARKER @ '' '') @ e) = (ENVIRONMENT_ID_MARKER @ '' '') @ e"
    by (rule trim_star_marker[OF _ markers_ascii(8) e(1)]) (simp add: marker_defs)
  have "process_line ?p (ENVIRONMENT_ID_MARKER @ '' '' @ e) =
      (?p\<lparr>sp_state := (sp_state ?p)\<lparr>st_environment_id := Some e\<rparr>\<rparr>, Ok ())"
  proof (rule header_line)
    have "strip_prefix GUARD_FILE_MARKER (ENVIRONMENT_ID_MARKER @ '' '' @ e) = None"
      by (simp add: marker_defs)
    then show "handle_hunk_headers_and_end_patch ?p (ENVIRONMENT_ID_MARKER @ '' '' @ e) =
        (?p\<lparr>sp_state := (sp_state ?p)\<lparr>st_environment_id := Some e\<rparr>\<rparr>, Ok True)"
      using p e env by (simp add: handle_hunk_headers_and_end_patch_def handle_environment_id_def
          started_def parts_def name_text_def)
  qed (use p t in \<open>auto simp: ready_def started_def\<close>)
  then show ?thesis
    by (rule reads_Cons) (use p in \<open>auto simp: started_def parts_def\<close>)
qed

lemma reads_body:
  assumes "printable env gs hs"
  shows "reads default_parser (render_body env gs hs) (\<lambda>q. ready q \<and> parts q env gs hs)"
proof -
  let ?p = "default_parser\<lparr>sp_line_number := sp_line_number default_parser + 1\<rparr>"
  let ?s = "set_mode Mode_StartedPatch ?p"
  have "trim BEGIN_PATCH_MARKER = BEGIN_PATCH_MARKER" by code_simp
  then have first: "process_line ?p BEGIN_PATCH_MARKER = (?s, Ok ())"
    by (simp add: process_line_def default_parser_def default_state_def)
  have s: "started ?s None []"
    by (simp add: started_def parts_def default_parser_def default_state_def)
  have env: "reads ?s (case env of None \<Rightarrow> [] | Some e \<Rightarrow> [ENVIRONMENT_ID_MARKER @ '' '' @ e])
      (\<lambda>q. started q env [])"
    using s reads_environment[OF s] assms by (cases env) (auto simp: printable_def)
  have guards: "reads q (concat (map render_guard gs)) (\<lambda>q. started q env gs)" if "started q env []" for q
    using reads_guards[OF that, of gs] assms by (simp add: printable_def)
  have hunks: "reads q (concat (map render_hunk hs)) (\<lambda>q. ready q \<and> parts q env gs hs)"
    if "started q env gs" for q
    using reads_hunks[of q env gs "[]" hs] that assms by (auto simp: printable_def started_def ready_def)
  show ?thesis
    unfolding render_body_def
    by (rule reads_Cons[OF first], rule reads_seq[OF env], rule reads_seq[OF guards hunks])
qed

section \<open>Printed text as input\<close>

lemma strip_cr_line_text: "line_text l \<Longrightarrow> strip_cr l = l"
  by (auto simp: strip_cr_def line_text_def ends_with_def split: option.split)

lemma push_bytes_line:
  assumes "LF \<notin> set l"
  shows "push_bytes p (l @ s) = push_bytes (p\<lparr>sp_line_buffer := sp_line_buffer p @ l\<rparr>) s"
  using assms by (induction l arbitrary: p) auto

lemma push_lines:
  assumes "list_all line_text ls" "sp_line_buffer p = []" "process_lines p ls = (q, Ok ())" "sp_line_buffer q = []"
  shows "push_delta_in_place p (concat (map (\<lambda>l. l @ [LF]) ls) @ s) = push_delta_in_place q s"
  using assms
proof (induction ls arbitrary: p)
  case (Cons l ls)
  let ?p = "p\<lparr>sp_line_number := sp_line_number p + 1\<rparr>"
  from Cons.prems(3) obtain p1 where p1: "process_line ?p l = (p1, Ok ())"
    and rest: "process_lines p1 ls = (q, Ok ())"
    by (auto split: prod.splits result.splits)
  have buf: "sp_line_buffer p1 = []" using process_line_buffer[OF p1] Cons.prems(2) by simp
  have same: "p\<lparr>sp_line_buffer := [], sp_line_number := n\<rparr> = p\<lparr>sp_line_number := n\<rparr>" for n
    using Cons.prems(2) by (cases p) simp
  have "push_delta_in_place p (concat (map (\<lambda>l. l @ [LF]) (l # ls)) @ s)
      = push_delta_in_place p1 (concat (map (\<lambda>l. l @ [LF]) ls) @ s)"
    using Cons.prems p1
    by (simp add: push_delta_eq_bytes push_bytes_line line_text_def take_line_def)
       (simp add: strip_cr_line_text line_text_def same)
  with Cons.IH[OF _ buf rest Cons.prems(4)] Cons.prems(1) show ?case by simp
qed simp

lemma line_text_marker:
  assumes "LF \<notin> set m" "\<not> ends_with [CR] m" "line_text t"
  shows "line_text (m @ t)"
  using assms by (cases t rule: rev_cases) (auto simp: line_text_def ends_with_iff)

lemma line_text_Cons: "line_text t \<Longrightarrow> c \<noteq> LF \<Longrightarrow> c \<noteq> CR \<Longrightarrow> line_text (c # t)"
  using line_text_marker[of "[c]" t] by (auto simp: ends_with_iff)

lemma markers_line_text:
  "line_text BEGIN_PATCH_MARKER" "line_text ADD_FILE_MARKER" "line_text DELETE_FILE_MARKER"
  "line_text UPDATE_FILE_MARKER" "line_text MOVE_TO_MARKER" "line_text GUARD_FILE_MARKER"
  "line_text EXPECT_MARKER" "line_text EOF_MARKER" "line_text CHANGE_CONTEXT_MARKER"
  "line_text EMPTY_CHANGE_CONTEXT_MARKER" "line_text (ENVIRONMENT_ID_MARKER @ '' '')"
  "line_text (EXPECT_MARKER @ ''sha256:'')" "line_text (EXPECT_MARKER @ ''absent'')"
  by code_simp+

lemma line_text_append: "line_text m \<Longrightarrow> line_text t \<Longrightarrow> line_text (m @ t)"
  by (rule line_text_marker) (auto simp: line_text_def)

lemma render_lines_text:
  assumes "aligned ks os ns" "list_all line_text os" "list_all line_text ns"
  shows "list_all line_text (render_lines ks os ns)"
  using assms by (induction ks os ns rule: aligned.induct) (auto intro: line_text_Cons)

lemma render_chunk_text: "printable_chunk c \<Longrightarrow> list_all line_text (render_chunk c)"
  using markers_line_text
  by (auto simp: render_chunk_def printable_chunk_def render_lines_text chunk_wf_def render_context_def
      name_text_def intro!: line_text_append split: option.split)

lemma split_inclusive_line_text:
  assumes "l \<in> set (split_inclusive LF s)" "s = [] \<or> ends_with [LF] s" "\<not> contains_str [CR, LF] s"
  shows "line_text (butlast l)"
proof -
  obtain t where l: "l = t @ [LF]" using split_inclusive_ends[OF assms(1,2)] by (auto simp: ends_with_iff)
  have "LF \<notin> set t" using split_inclusive_inner[OF assms(1)] l by simp
  moreover have "\<not> ends_with [CR] t"
  proof
    assume "ends_with [CR] t"
    then obtain u where "l = u @ [CR, LF]" using l by (auto simp: ends_with_iff)
    moreover obtain a b where "s = a @ l @ b" using split_inclusive_infix[OF assms(1)] by blast
    ultimately have "s = (a @ u) @ [CR, LF] @ b" by simp
    then have "starts_with [CR, LF] (drop (length (a @ u)) s)" by (simp only: append_eq_conv_conj[symmetric]) auto
    with assms(3) find_str_None show False by (auto simp: contains_str_def)
  qed
  ultimately show ?thesis using l by (simp add: line_text_def)
qed

lemma render_hunk_text: "printable_hunk h \<Longrightarrow> list_all line_text (render_hunk h)"
  using markers_line_text
  by (cases h) (auto simp: name_text_def list_all_iff render_chunk_text[unfolded list_all_iff]
      intro!: line_text_append line_text_Cons split_inclusive_line_text split: option.splits)

lemma render_guard_text:
  assumes "printable_guard g"
  shows "list_all line_text (render_guard g)"
proof -
  have "line_text (EXPECT_MARKER @ render_hash (expected_sha256 g))"
  proof (cases "expected_sha256 g" rule: render_hash.cases)
    case (2 h)
    with assms have h: "list_all is_ascii_hexdigit h" "h \<noteq> []"
      by (auto simp: printable_guard_def MIN_PREFIX_LEN_def)
    from 2 line_text_append[OF markers_line_text(12), of h] hex_not_blank[OF h] show ?thesis by simp
  qed (use markers_line_text in simp)
  with assms markers_line_text show ?thesis
    by (auto simp: render_guard_def printable_guard_def name_text_def intro!: line_text_append)
qed

lemma render_body_text: "printable env gs hs \<Longrightarrow> list_all line_text (render_body env gs hs)"
  using markers_line_text line_text_append[OF markers_line_text(11)]
  by (auto simp: render_body_def printable_def list_all_iff name_text_def render_hunk_text[unfolded list_all_iff]
      render_guard_text[unfolded list_all_iff] split: option.splits)

section \<open>Reading a printed patch\<close>

lemma utf8_chars_ne: "c \<in> set (utf8_chars s) \<Longrightarrow> c \<noteq> []"
  by (induction s rule: utf8_chars.induct) auto

lemma last_utf8_chars:
  assumes "s \<noteq> []"
  shows "last (last (utf8_chars s)) = last s"
proof (cases "utf8_chars s" rule: rev_cases)
  case Nil
  with assms show ?thesis by (cases s) auto
next
  case (snoc cs c)
  then have "c \<noteq> []" using utf8_chars_ne[of c s] by simp
  moreover have "s = concat cs @ c" using concat_utf8_chars[of s] snoc by simp
  ultimately show ?thesis using snoc by simp
qed

lemma trim_end_last:
  assumes "s \<noteq> []" "last s \<notin> last ` set whitespace_chars"
  shows "trim_end s = s"
  unfolding trim_end_fixed is_whitespace_def using assms last_utf8_chars[OF assms(1)] imageI by metis

lemma split_on_first: "(\<And>x. x \<in> set a \<Longrightarrow> \<not> P x) \<Longrightarrow> P c \<Longrightarrow> split_on P (a @ c # b) = a # split_on P b"
  by (induction a) auto

lemma split_on_single: "(\<And>x. x \<in> set a \<Longrightarrow> \<not> P x) \<Longrightarrow> split_on P a = [a]"
  by (induction a) auto

lemma last_split_on:
  assumes "\<And>x. x \<in> set b \<Longrightarrow> \<not> P x" "P c"
  shows "last (split_on P (a @ c # b)) = b"
proof (induction a)
  case Nil
  with assms show ?case by (simp add: split_on_single)
next
  case (Cons d a)
  have "length (split_on P (a @ c # b)) \<ge> 2"
    using assms(2) by (induction a) (auto split: list.splits simp: Suc_le_eq)
  with Cons show ?case
    by (auto split: list.splits simp: numeral_2_eq_2)
qed

lemma render_patch_shape:
  "\<exists>u. render_patch env gs hs = BEGIN_PATCH_MARKER @ LF # u @ END_PATCH_MARKER \<and>
     (u = [] \<or> last u = LF)"
proof -
  obtain ls where ls: "render_body env gs hs = BEGIN_PATCH_MARKER # ls" by (simp add: render_body_def)
  have "concat (map (\<lambda>l. l @ [LF]) ls) = [] \<or> last (concat (map (\<lambda>l. l @ [LF]) ls)) = LF"
    by (cases ls rule: rev_cases) auto
  with ls show ?thesis by (intro exI[of _ "concat (map (\<lambda>l. l @ [LF]) ls)"]) (simp add: render_patch_def)
qed

lemma render_patch_trim: "trim (render_patch env gs hs) = render_patch env gs hs"
proof -
  obtain u where u: "render_patch env gs hs = BEGIN_PATCH_MARKER @ LF # u @ END_PATCH_MARKER"
    using render_patch_shape by blast
  have "last END_PATCH_MARKER \<notin> last ` set whitespace_chars" "END_PATCH_MARKER \<noteq> []" by code_simp+
  then have "trim_end (render_patch env gs hs) = render_patch env gs hs"
    unfolding u by (intro trim_end_last) auto
  moreover have "trim_start (render_patch env gs hs) = render_patch env gs hs"
    unfolding u BEGIN_PATCH_MARKER_def append_Cons
    by (rule trim_start_ascii) (simp_all add: is_ascii_def star_not_blank)
  ultimately show ?thesis by (simp add: trim_def)
qed

lemma render_patch_boundaries: "boundaries (render_patch env gs hs) = Ok ()"
proof -
  obtain u where u: "render_patch env gs hs = BEGIN_PATCH_MARKER @ LF # u @ END_PATCH_MARKER"
    and last_u: "u = [] \<or> last u = LF" using render_patch_shape by blast
  have no_lf: "x \<in> set BEGIN_PATCH_MARKER \<Longrightarrow> x \<noteq> LF" "x \<in> set END_PATCH_MARKER \<Longrightarrow> x \<noteq> LF" for x
    by (auto simp: marker_defs)
  have "hd (split_lf (render_patch env gs hs)) = BEGIN_PATCH_MARKER"
    unfolding u split_lf_def using split_on_first[of BEGIN_PATCH_MARKER "\<lambda>c. c = LF" LF] no_lf(1) by auto
  moreover have "\<exists>a. render_patch env gs hs = a @ LF # END_PATCH_MARKER"
    using u last_u by (cases u rule: rev_cases) auto
  then have "last (split_lf (render_patch env gs hs)) = END_PATCH_MARKER"
    unfolding split_lf_def using last_split_on[of END_PATCH_MARKER "\<lambda>c. c = LF" LF] no_lf(2) by auto
  moreover have "trim BEGIN_PATCH_MARKER = BEGIN_PATCH_MARKER" "trim END_PATCH_MARKER = END_PATCH_MARKER"
    by code_simp+
  ultimately show ?thesis by (simp add: boundaries_def check_start_and_end_lines_strict_def)
qed

lemma finish_printed:
  assumes "ready q" "parts q env gs hs" "list_all hunk_done hs"
  shows "into_parts (q\<lparr>sp_line_buffer := END_PATCH_MARKER\<rparr>) = Ok (hs, env, gs)"
proof -
  have "trim END_PATCH_MARKER = END_PATCH_MARKER" "END_PATCH_MARKER \<noteq> []" by code_simp+
  moreover have "may_end (sp_mode q)" using assms(1) by (cases "sp_mode q") (auto simp: ready_def)
  ultimately show ?thesis
    using assms by (simp add: into_parts_def finish_in_place_def finish_last_line_def parts_def ensure_ok)
qed

lemma parse_render_patch:
  assumes pr: "printable env gs hs" and len: "length (render_patch env gs hs) \<le> MAX_PATCH_INPUT_BYTES"
  shows "parse_patch (render_patch env gs hs) =
    Ok \<lparr>args_hunks = hs, args_revision_guards = gs, args_patch = render_patch env gs hs,
        args_workdir = None, args_environment_id = env\<rparr>"
proof -
  obtain q where run: "process_lines default_parser (render_body env gs hs) = (q, Ok ())"
    and q: "ready q" "parts q env gs hs" using reads_body[OF pr] by (auto simp: reads_def)
  have "LF \<notin> set END_PATCH_MARKER" by code_simp
  then have "push_delta_in_place q END_PATCH_MARKER = (q\<lparr>sp_line_buffer := END_PATCH_MARKER\<rparr>, Ok ())"
    using push_bytes_line[of END_PATCH_MARKER q "[]"] q by (simp add: push_delta_eq_bytes parts_def)
  moreover have "push_delta_in_place default_parser (render_patch env gs hs) =
      push_delta_in_place q END_PATCH_MARKER"
    unfolding render_patch_def
    by (rule push_lines[OF render_body_text[OF pr] _ run])
       (use q in \<open>auto simp: parts_def default_parser_def\<close>)
  moreover have "list_all hunk_done hs"
    using pr printable_done by (auto simp: printable_def list_all_iff)
  ultimately show ?thesis
    using len finish_printed[OF q]
    by (simp add: parse_patch_def unwrap_heredoc_def render_patch_trim render_patch_boundaries)
qed

section \<open>Properties\<close>

text \<open>
  C3: round trip of the patch language. Every value made of complete hunks, guards and an optional
  environment id whose texts fit on a line is the meaning of its printed patch: parsing the printed
  text succeeds and returns exactly that value and the text.
\<close>

theorem patch_roundtrip:
  assumes "printable env gs hs" "length (render_patch env gs hs) \<le> MAX_PATCH_INPUT_BYTES"
  shows "parse_patch (render_patch env gs hs) =
    Ok \<lparr>args_hunks = hs, args_revision_guards = gs, args_patch = render_patch env gs hs,
        args_workdir = None, args_environment_id = env\<rparr>"
  using assms by (rule parse_render_patch)

definition example_chunk :: update_file_chunk where
  "example_chunk = \<lparr>change_context = None, old_lines = [''a''], new_lines = [''b''],
     line_kinds = [Remove, Add], is_end_of_file = False\<rparr>"

definition example_hunks :: "hunk list" where
  "example_hunks = [UpdateFile ''f'' None [example_chunk], DeleteFile ''g'']"

lemma example_printable: "printable None [] example_hunks"
  by (simp add: printable_def example_hunks_def example_chunk_def printable_chunk_def chunk_wf_def
      nonempty_chunk_def chunk_is_empty_def name_text_def line_text_def) code_simp

lemma example_length: "length (render_patch None [] example_hunks) \<le> MAX_PATCH_INPUT_BYTES"
  by (simp add: render_patch_def render_body_def example_hunks_def example_chunk_def render_chunk_def
      render_context_def MAX_PATCH_INPUT_BYTES_def BEGIN_PATCH_MARKER_def END_PATCH_MARKER_def
      UPDATE_FILE_MARKER_def DELETE_FILE_MARKER_def EMPTY_CHANGE_CONTEXT_MARKER_def)

theorem patch_roundtrip_witness:
  "parse_patch (render_patch None [] example_hunks) =
    Ok \<lparr>args_hunks = example_hunks, args_revision_guards = [], args_patch = render_patch None [] example_hunks,
        args_workdir = None, args_environment_id = None\<rparr>"
  by (rule patch_roundtrip[OF example_printable example_length])

theorem parse_patch_wellformed_witness:
  "list_all hunk_done example_hunks \<and> length (render_patch None [] example_hunks) \<le> MAX_PATCH_INPUT_BYTES"
  using parse_patch_wellformed[OF parse_render_patch[OF example_printable example_length]] by simp

end
