(* ===== verification/Kmp_Search.thy ===== *)
theory Kmp_Search
  imports Rust_Base "HOL-Library.While_Combinator"
begin

text \<open>
  The Knuth-Morris-Pratt search that \<^verbatim>\<open>tier_matches\<close> of
  \<^verbatim>\<open>src/codex-rs/apply-patch/src/seek_sequence.rs\<close> runs over normalised lines: the failure table
  (\<^verbatim>\<open>fallback\<close>), the inner loop that follows it, and the left-to-right pass that records the
  start of every occurrence until a limit is reached. The facts here are about any element type;
  \<open>kmp_search_eq\<close> states that the pass finds exactly the occurrences a window-by-window
  comparison finds, in order.
\<close>

section \<open>The loops of the source\<close>

text \<open>The inner loop: follow the failure table until the next pattern element equals \<open>c\<close>.\<close>

definition kmp_fall :: "'a list \<Rightarrow> nat list \<Rightarrow> 'a \<Rightarrow> nat \<Rightarrow> nat" where
  "kmp_fall p fb c k = while (\<lambda>k. 0 < k \<and> c \<noteq> p ! k) (\<lambda>k. fb ! (k - 1)) k"

definition kmp_step :: "'a list \<Rightarrow> nat list \<Rightarrow> 'a \<Rightarrow> nat \<Rightarrow> nat" where
  "kmp_step p fb c k = (let j = kmp_fall p fb c k in if c = p ! j then Suc j else j)"

fun kmp_table_loop :: "'a list \<Rightarrow> nat list \<Rightarrow> nat \<Rightarrow> nat list \<Rightarrow> nat list" where
  "kmp_table_loop p [] len fb = fb"
| "kmp_table_loop p (i # is) len fb =
     (let len' = kmp_step p fb (p ! i) len in kmp_table_loop p is len' (fb[i := len']))"

definition kmp_table :: "'a list \<Rightarrow> nat list" where
  "kmp_table p = kmp_table_loop p [1..<length p] 0 (replicate (length p) 0)"

text \<open>The pass over the text. \<open>record\<close> of the source stops the pass after \<open>max limit 1\<close> finds.\<close>

fun kmp_pass :: "'a list \<Rightarrow> nat list \<Rightarrow> nat \<Rightarrow> nat \<Rightarrow> nat \<Rightarrow> nat \<Rightarrow> nat list \<Rightarrow> 'a list \<Rightarrow> nat list" where
  "kmp_pass p fb limit base off matched found [] = found"
| "kmp_pass p fb limit base off matched found (c # cs) =
     (let m = kmp_step p fb c matched in
      if m = length p then
        (let found' = found @ [base + off + 1 - length p] in
         if max limit 1 \<le> length found' then found'
         else kmp_pass p fb limit base (off + 1) (fb ! (m - 1)) found' cs)
      else kmp_pass p fb limit base (off + 1) m found cs)"

definition kmp_search :: "'a list \<Rightarrow> 'a list \<Rightarrow> nat \<Rightarrow> nat \<Rightarrow> nat list" where
  "kmp_search p text base limit = kmp_pass p (kmp_table p) limit base 0 0 [] text"

section \<open>Borders and the failure table\<close>

definition border :: "'a list \<Rightarrow> nat \<Rightarrow> nat \<Rightarrow> bool" where
  "border p i k \<longleftrightarrow> k < i \<and> suffix (take k p) (take i p)"

definition longest_border :: "'a list \<Rightarrow> nat \<Rightarrow> nat \<Rightarrow> bool" where
  "longest_border p i k \<longleftrightarrow> border p i k \<and> (\<forall>m. border p i m \<longrightarrow> m \<le> k)"

definition table_ok :: "'a list \<Rightarrow> nat list \<Rightarrow> nat \<Rightarrow> bool" where
  "table_ok p fb n \<longleftrightarrow> (\<forall>k. 0 < k \<and> k \<le> n \<longrightarrow> longest_border p k (fb ! (k - 1)))"

text \<open>\<open>longest_match p n t k\<close>: the longest proper prefix of \<open>p\<close>, shorter than \<open>n\<close>, that ends \<open>t\<close>.\<close>

definition longest_match :: "'a list \<Rightarrow> nat \<Rightarrow> 'a list \<Rightarrow> nat \<Rightarrow> bool" where
  "longest_match p n t k \<longleftrightarrow>
     k < n \<and> suffix (take k p) t \<and> (\<forall>m < n. suffix (take m p) t \<longrightarrow> m \<le> k)"

lemma suffix_take_chain:
  assumes "suffix (take j p) t" "k \<le> j" "j \<le> length p"
  shows "suffix (take k p) t \<longleftrightarrow> suffix (take k p) (take j p)"
proof
  assume "suffix (take k p) t"
  then show "suffix (take k p) (take j p)"
    using assms suffix_length_suffix by fastforce
next
  assume "suffix (take k p) (take j p)"
  then show "suffix (take k p) t" using assms(1) by (rule suffix_order.trans)
qed

lemma suffix_snoc_take:
  assumes "m \<le> length p"
  shows "suffix (take m p) (t @ [c]) \<longleftrightarrow>
    m = 0 \<or> (\<exists>k. m = Suc k \<and> k < length p \<and> p ! k = c \<and> suffix (take k p) t)"
proof (cases m)
  case (Suc k)
  with assms have "take m p = take k p @ [p ! k]"
    by (simp add: take_Suc_conv_app_nth)
  with Suc assms show ?thesis by (auto simp: snoc_suffix_snoc)
qed simp

text \<open>
  The inner loop stops at the longest prefix that ends the text and continues with \<open>c\<close>, or at
  the empty prefix when there is none.
\<close>

definition fall_inv :: "'a list \<Rightarrow> nat \<Rightarrow> 'a list \<Rightarrow> 'a \<Rightarrow> nat \<Rightarrow> nat \<Rightarrow> bool" where
  "fall_inv p n t c k0 k \<longleftrightarrow> k \<le> k0 \<and> suffix (take k p) t \<and>
     (\<forall>m < n. suffix (take m p) t \<and> p ! m = c \<longrightarrow> m \<le> k)"

lemma fall_inv_step:
  assumes "fall_inv p n t c k0 k" "0 < k" "c \<noteq> p ! k" "k0 < n" "n \<le> length p" "table_ok p fb k0"
  shows "fall_inv p n t c k0 (fb ! (k - 1)) \<and> fb ! (k - 1) < k"
proof -
  let ?b = "fb ! (k - 1)"
  have k: "k \<le> k0" "suffix (take k p) t" and mx: "\<And>m. m < n \<Longrightarrow> suffix (take m p) t \<Longrightarrow> p ! m = c \<Longrightarrow> m \<le> k"
    using assms(1) by (auto simp: fall_inv_def)
  have lb: "longest_border p k ?b"
    using assms(2,6) k(1) by (simp add: table_ok_def)
  then have b: "?b < k" by (simp add: longest_border_def border_def)
  have kl: "k \<le> length p" using k(1) assms(4,5) by linarith
  have "suffix (take ?b p) t"
    using lb suffix_take_chain[OF k(2) _ kl, of ?b] b
    by (simp add: longest_border_def border_def)
  moreover have "m \<le> ?b" if "m < n" "suffix (take m p) t" "p ! m = c" for m
  proof -
    have "m < k" using mx[OF that] that(3) assms(3) by (metis le_neq_implies_less)
    then have "border p k m"
      using that(2) suffix_take_chain[OF k(2) _ kl, of m] by (simp add: border_def)
    then show ?thesis using lb by (simp add: longest_border_def)
  qed
  ultimately show ?thesis using b k(1) by (auto simp: fall_inv_def)
qed

lemma kmp_fall_inv:
  assumes "longest_match p n t k0" "n \<le> length p" "table_ok p fb k0"
  shows "fall_inv p n t c k0 (kmp_fall p fb c k0) \<and>
    (0 < kmp_fall p fb c k0 \<longrightarrow> c = p ! kmp_fall p fb c k0)"
proof -
  have k0: "k0 < n" using assms(1) by (simp add: longest_match_def)
  show ?thesis unfolding kmp_fall_def
  proof (rule while_rule[where P = "fall_inv p n t c k0" and r = "measure id"])
    show "fall_inv p n t c k0 k0"
      using assms(1) by (auto simp: fall_inv_def longest_match_def)
  qed (use fall_inv_step[OF _ _ _ k0 assms(2,3)] in auto)
qed

lemma kmp_step_correct:
  assumes "longest_match p n t k" "n \<le> length p" "table_ok p fb k"
  shows "longest_match p (Suc n) (t @ [c]) (kmp_step p fb c k)"
proof -
  let ?j = "kmp_fall p fb c k"
  have inv: "fall_inv p n t c k ?j" and stop: "0 < ?j \<Longrightarrow> c = p ! ?j"
    using kmp_fall_inv[OF assms] by auto
  have n: "k < n" using assms(1) by (simp add: longest_match_def)
  have j: "?j < n" "suffix (take ?j p) t" using inv n by (auto simp: fall_inv_def)
  have mx: "\<And>m. m < n \<Longrightarrow> suffix (take m p) t \<Longrightarrow> p ! m = c \<Longrightarrow> m \<le> ?j"
    using inv by (auto simp: fall_inv_def)
  have conv: "suffix (take m p) (t @ [c]) \<longleftrightarrow>
      m = 0 \<or> (\<exists>k. m = Suc k \<and> p ! k = c \<and> suffix (take k p) t)" if "m < Suc n" for m
    using that assms(2) suffix_snoc_take[of m p t c] by auto
  show ?thesis
  proof (cases "c = p ! ?j")
    case True
    then have step: "kmp_step p fb c k = Suc ?j" by (simp add: kmp_step_def)
    have "m \<le> Suc ?j" if "m < Suc n" "suffix (take m p) (t @ [c])" for m
      using conv[OF that(1)] that mx by auto
    moreover have "suffix (take (Suc ?j) p) (t @ [c])"
      using conv[of "Suc ?j"] j True by auto
    ultimately show ?thesis using j step by (simp add: longest_match_def)
  next
    case False
    with stop have j0: "?j = 0" by blast
    with False have step: "kmp_step p fb c k = 0" by (simp add: kmp_step_def)
    have "m = 0" if m: "m < Suc n" "suffix (take m p) (t @ [c])" for m
    proof (rule ccontr)
      assume "m \<noteq> 0"
      then obtain i where i: "m = Suc i" "p ! i = c" "suffix (take i p) t"
        using conv[OF m(1)] m(2) by auto
      then have "i = 0" using mx[of i] m(1) j0 by simp
      with i j0 False show False by simp
    qed
    then show ?thesis using step by (simp add: longest_match_def)
  qed
qed

lemma longest_match_tl:
  assumes "0 < i" "i \<le> length p"
  shows "longest_match p i (tl (take i p)) k \<longleftrightarrow> longest_border p i k"
proof -
  have "suffix (take m p) (tl (take i p)) \<longleftrightarrow> suffix (take m p) (take i p)" if "m < i" for m
  proof -
    obtain x xs where x: "take i p = x # xs" using assms by (cases "take i p") auto
    have "take m p \<noteq> x # xs" using x that assms by (metis length_take min.absorb2 nat_less_le less_le_trans min_def)
    then show ?thesis using x by (auto simp: suffix_Cons)
  qed
  then show ?thesis by (auto simp: longest_match_def longest_border_def border_def)
qed

lemma kmp_table_loop_correct:
  assumes "i \<le> n" "n \<le> length p" "0 < i" "length fb = length p" "table_ok p fb i"
    and "longest_border p i len"
  shows "table_ok p (kmp_table_loop p [i..<n] len fb) n"
  using assms
proof (induction "n - i" arbitrary: i len fb)
  case 0
  then show ?case by simp
next
  case (Suc d)
  then have i: "i < length p" "i < n" by linarith+
  let ?len = "kmp_step p fb (p ! i) len"
  have "len < i" using Suc.prems(6) by (simp add: longest_border_def border_def)
  then have "table_ok p fb len" using Suc.prems(5) by (simp add: table_ok_def)
  moreover have "longest_match p i (tl (take i p)) len"
    using Suc.prems i longest_match_tl[of i p len] by simp
  ultimately have "longest_match p (Suc i) (tl (take i p) @ [p ! i]) ?len"
    using i by (intro kmp_step_correct) auto
  moreover have "tl (take i p) @ [p ! i] = tl (take (Suc i) p)"
    using i Suc.prems(3) by (cases "take i p") (auto simp: take_Suc_conv_app_nth)
  ultimately have lb: "longest_border p (Suc i) ?len"
    using i longest_match_tl[of "Suc i" p ?len] by simp
  have "table_ok p (fb[i := ?len]) (Suc i)"
    unfolding table_ok_def
  proof (intro allI impI)
    fix k assume k: "0 < k \<and> k \<le> Suc i"
    show "longest_border p k (fb[i := ?len] ! (k - 1))"
    proof (cases "k = Suc i")
      case True
      then show ?thesis using lb i Suc.prems(4) by simp
    next
      case False
      with k have "k \<le> i" "k - 1 \<noteq> i" by auto
      then show ?thesis using k Suc.prems(5) by (simp add: table_ok_def)
    qed
  qed
  from Suc.hyps(1)[OF _ _ _ _ _ this lb] Suc.hyps(2) i Suc.prems
  show ?case by (simp add: upt_conv_Cons Let_def)
qed

lemma kmp_table_prefix_correct:
  assumes "0 < n" "n \<le> length p"
  shows "table_ok p (kmp_table_loop p [1..<n] 0 (replicate (length p) 0)) n"
proof -
  have lb: "longest_border p 1 0"
    by (auto simp: longest_border_def border_def)
  have "table_ok p (replicate (length p) 0) 1"
    unfolding table_ok_def
  proof (intro allI impI)
    fix k :: nat assume "0 < k \<and> k \<le> 1"
    then have "k = 1" by simp
    with assms lb show "longest_border p k (replicate (length p) 0 ! (k - 1))" by (cases p) auto
  qed
  with assms lb show ?thesis
    by (intro kmp_table_loop_correct) (auto simp: Suc_le_eq)
qed

lemma kmp_table_correct: "p \<noteq> [] \<Longrightarrow> table_ok p (kmp_table p) (length p)"
  unfolding kmp_table_def by (rule kmp_table_prefix_correct) auto

section \<open>The pass finds every occurrence, in order\<close>

definition occurs_ending :: "'a list \<Rightarrow> 'a list \<Rightarrow> nat \<Rightarrow> bool" where
  "occurs_ending p t off \<longleftrightarrow> suffix p (take (Suc off) t)"

lemma longest_match_full:
  assumes "longest_match p (Suc (length p)) t m"
  shows "m = length p \<longleftrightarrow> suffix p t"
  using assms by (auto simp: longest_match_def)

lemma longest_match_after_full:
  assumes "longest_match p (Suc (length p)) t (length p)" "p \<noteq> []" "table_ok p fb (length p)"
  shows "longest_match p (length p) t (fb ! (length p - 1))"
proof -
  have s: "suffix (take (length p) p) t" using assms(1) by (simp add: longest_match_def)
  have lb: "longest_border p (length p) (fb ! (length p - 1))"
    using assms(2,3) by (simp add: table_ok_def)
  have chain: "suffix (take m p) t \<longleftrightarrow> suffix (take m p) (take (length p) p)" if "m < length p" for m
    using suffix_take_chain[OF s, of m] that by simp
  then show ?thesis using lb by (auto simp: longest_match_def longest_border_def border_def)
qed

lemma longest_match_not_full:
  assumes "longest_match p (Suc n) t m" "m \<noteq> n"
  shows "longest_match p n t m"
  using assms by (auto simp: longest_match_def)

lemma kmp_pass_eq:
  assumes "p \<noteq> []" "table_ok p fb (length p)" "longest_match p (length p) t matched"
    and "length found < max limit 1"
  shows "kmp_pass p fb limit base (length t) matched found cs =
    take (max limit 1) (found @ map (\<lambda>off. base + off + 1 - length p)
      (filter (occurs_ending p (t @ cs)) [length t..<length t + length cs]))"
  using assms
proof (induction cs arbitrary: t matched found)
  case Nil
  then show ?case by simp
next
  case (Cons c cs)
  let ?m = "kmp_step p fb c matched"
  let ?t = "t @ [c]"
  have "matched < length p" using Cons.prems(3) by (simp add: longest_match_def)
  then have "table_ok p fb matched" using Cons.prems(2) by (simp add: table_ok_def)
  then have lm: "longest_match p (Suc (length p)) ?t ?m"
    using Cons.prems(3) by (intro kmp_step_correct) auto
  have occ: "occurs_ending p (t @ c # cs) (length t) \<longleftrightarrow> ?m = length p"
    using longest_match_full[OF lm] by (simp add: occurs_ending_def)
  have upt: "[length t..<length t + length (c # cs)] = length t # [length ?t..<length ?t + length cs]"
    by (simp add: upt_conv_Cons del: upt_Suc)
  show ?case
  proof (cases "?m = length p")
    case True
    let ?found = "found @ [base + length t + 1 - length p]"
    show ?thesis
    proof (cases "max limit 1 \<le> length ?found")
      case full: True
      then have "max limit 1 = Suc (length found)" using Cons.prems(4) by simp
      moreover have "kmp_pass p fb limit base (length t) matched found (c # cs) = ?found"
        using True full by (simp add: Let_def)
      ultimately show ?thesis
        using occ True upt by (simp del: upt_Suc)
    next
      case False
      have "longest_match p (length p) ?t (fb ! (?m - 1))"
        using longest_match_after_full lm True Cons.prems(1,2) by metis
      from Cons.IH[OF Cons.prems(1,2) this, of ?found] False
      show ?thesis using True occ upt by (simp add: Let_def del: upt_Suc)
    qed
  next
    case False
    have "longest_match p (length p) ?t ?m"
      using longest_match_not_full[OF lm False] .
    from Cons.IH[OF Cons.prems(1,2) this Cons.prems(4)]
    show ?thesis using False occ upt by (simp add: Let_def del: upt_Suc)
  qed
qed

lemma occurs_ending_window:
  assumes "off < length t" "p \<noteq> []"
  shows "occurs_ending p t off \<longleftrightarrow>
    length p \<le> Suc off \<and> take (length p) (drop (Suc off - length p) t) = p"
proof -
  have len: "length (take (Suc off) t) = Suc off" using assms(1) by simp
  have "suffix p (take (Suc off) t) \<longleftrightarrow>
      length p \<le> Suc off \<and> drop (Suc off - length p) (take (Suc off) t) = p"
    using len by (metis append_eq_conv_conj append_take_drop_id diff_le_self length_drop suffix_def
        suffix_drop suffix_length_le diff_diff_cancel length_append add_diff_cancel_right')
  also have "\<dots> \<longleftrightarrow> length p \<le> Suc off \<and> take (length p) (drop (Suc off - length p) t) = p"
    by (auto simp: drop_take)
  finally show ?thesis by (simp add: occurs_ending_def)
qed

lemma occurs_starts_eq:
  assumes "p \<noteq> []" "length p \<le> length t"
  shows "map (\<lambda>off. base + off + 1 - length p) (filter (occurs_ending p t) [0..<length t]) =
    map ((+) base) (filter (\<lambda>i. take (length p) (drop i t) = p) [0..<Suc (length t - length p)])"
proof -
  let ?k = "length p - 1"
  have split: "[0..<length t] = [0..<?k] @ map (\<lambda>i. i + ?k) [0..<Suc (length t - length p)]"
  proof -
    have "0 < length p" using assms(1) by simp
    then have "length t = ?k + Suc (length t - length p)" using assms(2) by linarith
    then have "[0..<length t] = [0..<?k] @ [?k..<?k + Suc (length t - length p)]"
      by (metis upt_add_eq_append le0)
    then show ?thesis by (simp add: map_add_upt add.commute del: upt_Suc)
  qed
  have none: "filter (occurs_ending p t) [0..<?k] = []"
    using assms occurs_ending_window[of _ t p] by (auto simp: filter_empty_conv)
  have occ: "occurs_ending p t (i + ?k) \<longleftrightarrow> take (length p) (drop i t) = p"
    if "i \<in> set [0..<Suc (length t - length p)]" for i
  proof -
    obtain k where k: "length p = Suc k" using assms(1) by (cases p) auto
    have "i \<le> length t - length p" using that by (auto simp del: upt_Suc)
    then have "i + ?k < length t" "Suc (i + ?k) - length p = i" "length p \<le> Suc (i + ?k)"
      using k assms(2) by auto
    then show ?thesis using assms(1) by (simp add: occurs_ending_window)
  qed
  have "filter (occurs_ending p t) [0..<length t] =
      map (\<lambda>i. i + ?k) (filter (\<lambda>i. take (length p) (drop i t) = p) [0..<Suc (length t - length p)])"
    unfolding split filter_append none filter_map
    using occ by (auto simp: o_def simp del: upt_Suc intro!: arg_cong[where f = "map _"] filter_cong)
  then show ?thesis using assms(1) by (auto simp: o_def Suc_leI simp del: upt_Suc)
qed

lemma kmp_search_eq:
  assumes "p \<noteq> []" "length p \<le> length t"
  shows "kmp_search p t base limit = take (max limit 1)
    (map ((+) base) (filter (\<lambda>i. take (length p) (drop i t) = p) [0..<Suc (length t - length p)]))"
proof -
  have "longest_match p (length p) [] 0"
    using assms(1) by (auto simp: longest_match_def)
  from kmp_pass_eq[OF assms(1) kmp_table_correct[OF assms(1)] this, of "[]" limit base t]
  show ?thesis using occurs_starts_eq[OF assms, of base]
    by (simp add: kmp_search_def del: upt_Suc)
qed

section \<open>The inner loop ends\<close>

lemma table_falls:
  assumes "table_ok p fb n" "k \<le> n" "0 < k"
  shows "fb ! (k - 1) < k"
  using assms by (auto simp: table_ok_def longest_border_def border_def)

text \<open>
  Every round of the inner loop gives back at least one matched element, so the rounds of one step
  and the elements matched after it are at most one more than the elements matched before.
\<close>

lemma kmp_fall_rounds:
  assumes "table_ok p fb n" "k \<le> n"
  shows "\<exists>r. r + kmp_fall p fb c k \<le> k
    \<and> while_option (\<lambda>k. 0 < k \<and> c \<noteq> p ! k) (\<lambda>k. fb ! (k - 1)) k = Some (kmp_fall p fb c k)
    \<and> kmp_fall p fb c k = ((\<lambda>k. fb ! (k - 1)) ^^ r) k"
  using assms(2)
proof (induction k rule: less_induct)
  case (less k)
  let ?b = "\<lambda>k. fb ! (k - 1)"
  show ?case
  proof (cases "0 < k \<and> c \<noteq> p ! k")
    case True
    then have b: "?b k < k" using table_falls[OF assms(1) less.prems] by blast
    with less obtain r where r: "r + kmp_fall p fb c (?b k) \<le> ?b k"
      "while_option (\<lambda>k. 0 < k \<and> c \<noteq> p ! k) ?b (?b k) = Some (kmp_fall p fb c (?b k))"
      "kmp_fall p fb c (?b k) = (?b ^^ r) (?b k)"
      by force
    have "kmp_fall p fb c k = kmp_fall p fb c (?b k)"
      using True unfolding kmp_fall_def by (subst while_unfold) simp
    with r b True show ?thesis
      by (intro exI[of _ "Suc r"]) (simp add: while_option_unfold[of _ _ k] funpow_Suc_right del: funpow.simps(2))
  next
    case False
    then have "kmp_fall p fb c k = k"
      unfolding kmp_fall_def by (subst while_unfold) auto
    with False show ?thesis
      by (intro exI[of _ 0]) (auto simp: while_option_unfold[of _ _ k])
  qed
qed

section \<open>Properties\<close>

text \<open>
  C22: the linear pass over the text with the failure table of the pattern is equivalent to comparing
  the pattern at every position: it reports the same positions, in the same order, up to the limit
  (at least one).
\<close>

theorem kmp_search_equiv:
  assumes "p \<noteq> []" "length p \<le> length t"
  shows "kmp_search p t base limit = take (max limit 1)
    (map ((+) base) (filter (\<lambda>i. take (length p) (drop i t) = p) [0..<Suc (length t - length p)]))"
  using assms by (rule kmp_search_eq)

theorem kmp_search_equiv_witness: "kmp_search ''aba'' ''xababa'' 10 5 = [11, 13]"
  using kmp_search_equiv[of "''aba''" "''xababa''" 10 5] by (simp add: upt_rec)

text \<open>
  C23: the table-driven search ends, in linear time. At every stage of building the table (\<open>n\<close> entries
  done; all of them for the pass over the text) and for every number \<open>k\<close> of matched elements the inner
  loop that follows the table terminates. Its \<open>r\<close> rounds are paid for by elements matched before:
  the rounds of a step and the elements matched after it are at most one more than those matched
  before, so over a whole text there are at most as many rounds as elements.
\<close>

theorem kmp_step_terminates:
  assumes "0 < n" "n \<le> length p" "k < n" and fb: "fb = kmp_table_loop p [1..<n] 0 (replicate (length p) 0)"
  shows "\<exists>r. while_option (\<lambda>k. 0 < k \<and> c \<noteq> p ! k) (\<lambda>k. fb ! (k - 1)) k = Some (kmp_fall p fb c k)
    \<and> kmp_fall p fb c k = ((\<lambda>k. fb ! (k - 1)) ^^ r) k
    \<and> r + kmp_step p fb c k \<le> Suc k"
proof -
  have "table_ok p fb n" unfolding fb by (rule kmp_table_prefix_correct[OF assms(1,2)])
  from kmp_fall_rounds[OF this less_imp_le[OF assms(3)], of c] show ?thesis
    by (auto simp: kmp_step_def Let_def)
qed

theorem kmp_step_terminates_witness:
  "kmp_table ''aabaaa'' = [0, 1, 0, 1, 2, 2]
   \<and> while_option (\<lambda>k. 0 < k \<and> CHR ''b'' \<noteq> ''aabaaa'' ! k) (\<lambda>k. kmp_table ''aabaaa'' ! (k - 1)) 5 =
       Some (kmp_fall ''aabaaa'' (kmp_table ''aabaaa'') (CHR ''b'') 5)"
proof -
  have "kmp_table ''aabaaa'' = [0, 1, 0, 1, 2, 2]"
    by code_simp
  moreover have "\<exists>r. while_option (\<lambda>k. 0 < k \<and> CHR ''b'' \<noteq> ''aabaaa'' ! k) (\<lambda>k. kmp_table ''aabaaa'' ! (k - 1)) 5 =
       Some (kmp_fall ''aabaaa'' (kmp_table ''aabaaa'') (CHR ''b'') 5)
     \<and> kmp_fall ''aabaaa'' (kmp_table ''aabaaa'') (CHR ''b'') 5 = ((\<lambda>k. kmp_table ''aabaaa'' ! (k - 1)) ^^ r) 5
     \<and> r + kmp_step ''aabaaa'' (kmp_table ''aabaaa'') (CHR ''b'') 5 \<le> Suc 5"
    by (rule kmp_step_terminates[where n = "length ''aabaaa''"]) (simp, simp, simp, rule kmp_table_def)
  ultimately show ?thesis by blast
qed

end
