(* ===== verification/Seek_Sequence.thy ===== *)
theory Seek_Sequence
  imports Kmp_Search
begin

text \<open>
  \<^verbatim>\<open>src/codex-rs/apply-patch/src/seek_sequence.rs\<close>: the search for a block of lines in a file.
  A block is looked for at four tiers of decreasing strictness; the strongest tier that matches
  decides, and a second match at that tier is an ambiguity unless the search is anchored by an
  earlier match. Slices of the source are \<^const>\<open>take\<close> and \<^const>\<open>drop\<close>; every use is in range
  by the checks that precede it.

  The lemmas relate the four search loops (two over prepared lines, one direct, one
  Knuth-Morris-Pratt) to one reference, the filter of the window starts by
  \<open>site_matches\<close>, order the tiers, and characterise the result of \<open>seek_sequence\<close> on every
  branch. The locale \<open>block_search\<close> is the contract the chunk matcher relies on.
\<close>

section \<open>The search\<close>

record ambiguous_match =
  first_line :: nat
  second_line :: nat
  strictness :: string

definition TIERS :: "string list" where
  "TIERS = [''exact'', ''trailing-whitespace'', ''whitespace'', ''Unicode-normalized'']"

definition normalise_char :: "string \<Rightarrow> string" where
  "normalise_char c =
     (if c \<in> {[CHR 0xE2, CHR 0x80, CHR 0x90], [CHR 0xE2, CHR 0x80, CHR 0x91],
              [CHR 0xE2, CHR 0x80, CHR 0x92], [CHR 0xE2, CHR 0x80, CHR 0x93],
              [CHR 0xE2, CHR 0x80, CHR 0x94], [CHR 0xE2, CHR 0x80, CHR 0x95],
              [CHR 0xE2, CHR 0x88, CHR 0x92]} then ''-''
      else if c \<in> {[CHR 0xE2, CHR 0x80, CHR 0x98], [CHR 0xE2, CHR 0x80, CHR 0x99],
                   [CHR 0xE2, CHR 0x80, CHR 0x9A], [CHR 0xE2, CHR 0x80, CHR 0x9B]} then [CHR 0x27]
      else if c \<in> {[CHR 0xE2, CHR 0x80, CHR 0x9C], [CHR 0xE2, CHR 0x80, CHR 0x9D],
                   [CHR 0xE2, CHR 0x80, CHR 0x9E], [CHR 0xE2, CHR 0x80, CHR 0x9F]} then [DQ]
      else if c \<in> {[CHR 0xC2, CHR 0xA0], [CHR 0xE2, CHR 0x80, CHR 0x82],
                   [CHR 0xE2, CHR 0x80, CHR 0x83], [CHR 0xE2, CHR 0x80, CHR 0x84],
                   [CHR 0xE2, CHR 0x80, CHR 0x85], [CHR 0xE2, CHR 0x80, CHR 0x86],
                   [CHR 0xE2, CHR 0x80, CHR 0x87], [CHR 0xE2, CHR 0x80, CHR 0x88],
                   [CHR 0xE2, CHR 0x80, CHR 0x89], [CHR 0xE2, CHR 0x80, CHR 0x8A],
                   [CHR 0xE2, CHR 0x80, CHR 0xAF], [CHR 0xE2, CHR 0x81, CHR 0x9F],
                   [CHR 0xE3, CHR 0x80, CHR 0x80]} then '' ''
      else c)"

definition normalise :: "string \<Rightarrow> string" where
  "normalise s = concat (map normalise_char (utf8_chars (trim s)))"

text \<open>A loop over window starts that records matches until \<open>record\<close> says stop.\<close>

fun scan_windows :: "(nat \<Rightarrow> bool) \<Rightarrow> nat \<Rightarrow> nat list \<Rightarrow> nat list \<Rightarrow> nat list" where
  "scan_windows P limit found [] = found"
| "scan_windows P limit found (i # is) =
     (if P i then
        (if max limit 1 \<le> length (found @ [i]) then found @ [i]
         else scan_windows P limit (found @ [i]) is)
      else scan_windows P limit found is)"

definition tier_matches :: "string list \<Rightarrow> string list \<Rightarrow> nat \<Rightarrow> nat \<Rightarrow> string \<Rightarrow> nat \<Rightarrow> nat list" where
  "tier_matches lines pattern search_start last_start tier limit =
     (if tier = ''trailing-whitespace'' \<or> tier = ''whitespace'' then
        (let prepare = (if tier = ''whitespace'' then trim else trim_end);
             prepared_lines = map prepare (drop search_start lines);
             prepared_pattern = map prepare pattern
         in scan_windows (\<lambda>index. take (length pattern) (drop (index - search_start) prepared_lines)
                                  = prepared_pattern)
              limit [] [search_start..<Suc last_start])
      else if tier = ''Unicode-normalized'' \<and> pattern \<noteq> [] then
        kmp_search (map normalise pattern)
          (map normalise (take (last_start + length pattern - search_start) (drop search_start lines)))
          search_start limit
      else scan_windows (\<lambda>index. take (length pattern) (drop index lines) = pattern)
             limit [] [search_start..<Suc last_start])"

fun seek_tiers :: "string list \<Rightarrow> string list \<Rightarrow> nat \<Rightarrow> nat \<Rightarrow> bool \<Rightarrow> string list \<Rightarrow>
    (nat option, ambiguous_match) result" where
  "seek_tiers lines pattern search_start last_start anchored [] = Ok None"
| "seek_tiers lines pattern search_start last_start anchored (tier # tiers) =
     (case tier_matches lines pattern search_start last_start tier (if anchored then 1 else 2) of
        [] \<Rightarrow> seek_tiers lines pattern search_start last_start anchored tiers
      | [only] \<Rightarrow> Ok (Some only)
      | fst_i # snd_i # _ \<Rightarrow>
          Err \<lparr>first_line = fst_i + 1, second_line = snd_i + 1, strictness = tier\<rparr>)"

definition seek_sequence :: "string list \<Rightarrow> string list \<Rightarrow> nat \<Rightarrow> bool \<Rightarrow> bool \<Rightarrow>
    (nat option, ambiguous_match) result" where
  "seek_sequence lines pattern start eof anchored =
     (if pattern = [] then
        Ok (if start \<le> length lines then Some (if eof then length lines else start) else None)
      else case checked_sub (length lines) (length pattern) of
        None \<Rightarrow> Ok None
      | Some last_start \<Rightarrow>
          if last_start < start then Ok None
          else seek_tiers lines pattern (if eof then last_start else start) last_start anchored TIERS)"

definition ambiguous_candidates :: "string list \<Rightarrow> string list \<Rightarrow> nat \<Rightarrow> bool \<Rightarrow> ambiguous_match \<Rightarrow>
    nat \<Rightarrow> nat list" where
  "ambiguous_candidates lines pattern start eof ambiguity limit =
     (case checked_sub (length lines) (length pattern) of
        None \<Rightarrow> []
      | Some last_start \<Rightarrow>
          if pattern = [] \<or> last_start < start then []
          else tier_matches lines pattern (if eof then last_start else start) last_start
                 (strictness ambiguity) limit)"

definition candidate_starts_at_any_tier :: "string list \<Rightarrow> string list \<Rightarrow> nat \<Rightarrow> nat list" where
  "candidate_starts_at_any_tier lines pattern limit =
     (case checked_sub (length lines) (length pattern) of
        Some last_start \<Rightarrow>
          if pattern \<noteq> [] then tier_matches lines pattern 0 last_start (last TIERS) limit else []
      | None \<Rightarrow> [])"

section \<open>One reference for the four loops\<close>

definition tier_key :: "string \<Rightarrow> string \<Rightarrow> string" where
  "tier_key tier =
     (if tier = ''trailing-whitespace'' then trim_end
      else if tier = ''whitespace'' then trim
      else if tier = ''Unicode-normalized'' then normalise
      else id)"

definition site_matches :: "(string \<Rightarrow> string) \<Rightarrow> string list \<Rightarrow> string list \<Rightarrow> nat \<Rightarrow> bool" where
  "site_matches key lines pattern i \<longleftrightarrow>
     i + length pattern \<le> length lines \<and>
     map key (take (length pattern) (drop i lines)) = map key pattern"

lemma scan_windows_eq:
  "length found < max limit 1 \<Longrightarrow>
   scan_windows P limit found is = take (max limit 1) (found @ filter P is)"
proof (induction "is" arbitrary: found)
  case (Cons i "is")
  show ?case
  proof (cases "P i \<and> max limit 1 \<le> length (found @ [i])")
    case True
    then have "max limit 1 \<le> Suc (length found)" by simp
    with Cons.prems have "max limit 1 = Suc (length found)" by linarith
    with True show ?thesis by simp
  next
    case False
    with Cons show ?thesis by (auto simp del: take_append)
  qed
qed simp

lemma filter_upt_shift:
  "s \<le> e \<Longrightarrow> map ((+) s) (filter (\<lambda>i. P (s + i)) [0..<e - s]) = filter P [s..<e]"
proof -
  assume "s \<le> e"
  then have "[s..<e] = map ((+) s) [0..<e - s]"
    using map_add_upt[of s "e - s"] by (simp add: add.commute[of _ s])
  then show ?thesis by (simp add: filter_map o_def)
qed

lemma tier_matches_eq:
  assumes "pattern \<noteq> []" "search_start \<le> last_start" "last_start + length pattern \<le> length lines"
  shows "tier_matches lines pattern search_start last_start tier limit =
    take (max limit 1) (filter (site_matches (tier_key tier) lines pattern) [search_start..<Suc last_start])"
proof -
  have window: "site_matches key lines pattern i \<longleftrightarrow>
      map key (take (length pattern) (drop i lines)) = map key pattern" if "i < Suc last_start" for key i
    using that assms(3) by (simp add: site_matches_def)
  have cong: "filter P [search_start..<Suc last_start] = filter Q [search_start..<Suc last_start]"
    if "\<And>i. search_start \<le> i \<Longrightarrow> i < Suc last_start \<Longrightarrow> P i = Q i" for P Q
    using that by (intro filter_cong) (auto simp del: upt_Suc)
  consider "tier = ''trailing-whitespace'' \<or> tier = ''whitespace''"
    | "tier = ''Unicode-normalized''" | "tier \<notin> {''trailing-whitespace'', ''whitespace'', ''Unicode-normalized''}"
    by auto
  then show ?thesis
  proof cases
    case 1
    then have key: "tier_key tier = (if tier = ''whitespace'' then trim else trim_end)"
      by (auto simp: tier_key_def)
    show ?thesis
      using 1 unfolding tier_matches_def key
      by (simp add: scan_windows_eq Let_def del: upt_Suc)
         (intro conjI impI arg_cong[where f = "take _"] cong, auto simp: window take_map drop_map)
  next
    case 2
    let ?text = "map normalise (take (last_start + length pattern - search_start) (drop search_start lines))"
    have len: "length ?text = last_start + length pattern - search_start"
      using assms(2,3) by simp
    have n: "Suc (length ?text - length (map normalise pattern)) = Suc last_start - search_start"
      using assms(2) len by simp
    have ok: "length (map normalise pattern) \<le> length ?text" "map normalise pattern \<noteq> []"
      using assms len by auto
    have "take (length pattern) (drop i ?text) = map normalise pattern \<longleftrightarrow>
        site_matches normalise lines pattern (search_start + i)" if "i < Suc last_start - search_start" for i
    proof -
      have "take (length pattern) (drop i ?text) =
          map normalise (take (length pattern) (drop (search_start + i) lines))"
        using that assms(2) by (simp add: take_map drop_map drop_take min_def add.commute)
      then show ?thesis using that window[of "search_start + i"] by simp
    qed
    then have "filter (\<lambda>i. take (length (map normalise pattern)) (drop i ?text) = map normalise pattern)
          [0..<Suc last_start - search_start] =
        filter (\<lambda>i. site_matches normalise lines pattern (search_start + i)) [0..<Suc last_start - search_start]"
      by (intro filter_cong) (auto simp del: upt_Suc)
    then show ?thesis
      using kmp_search_eq[OF ok(2,1), of search_start limit] 2 assms(1,2)
        filter_upt_shift[of search_start "Suc last_start" "site_matches normalise lines pattern"]
      unfolding n by (simp add: tier_matches_def tier_key_def del: upt_Suc)
  next
    case 3
    then have "tier_key tier = id" by (auto simp: tier_key_def)
    then show ?thesis
      using 3 unfolding tier_matches_def
      by (simp add: scan_windows_eq del: upt_Suc)
         (intro arg_cong[where f = "take _"] cong, auto simp: window)
  qed
qed

section \<open>The tiers are ordered\<close>

text \<open>
  \<open>coarser f g\<close>: lines that agree under the key \<open>f\<close> agree under \<open>g\<close>, so every site the tier of
  \<open>f\<close> accepts is accepted by the tier of \<open>g\<close>.
\<close>

locale coarser =
  fixes f g :: "string \<Rightarrow> string"
  assumes agree: "f a = f b \<Longrightarrow> g a = g b"
begin

lemma map_agree: "map f xs = map f ys \<Longrightarrow> map g xs = map g ys"
  by (induction xs ys rule: list_induct2') (auto dest: agree)

lemma site_mono: "site_matches f lines pattern i \<Longrightarrow> site_matches g lines pattern i"
  by (auto simp: site_matches_def intro: map_agree)

end

interpretation exact_tier: coarser id g for g :: "string \<Rightarrow> string"
  by unfold_locales simp

interpretation trailing_tier: coarser trim_end trim
  by unfold_locales (metis trim_trim_end)

interpretation whitespace_tier: coarser trim normalise
  by unfold_locales (simp add: normalise_def)

lemma normalise_coarsest:
  "tier \<in> set TIERS \<Longrightarrow> site_matches (tier_key tier) lines pattern i \<Longrightarrow>
   site_matches normalise lines pattern i"
  using exact_tier.site_mono[of lines pattern i normalise] whitespace_tier.site_mono[of lines pattern i]
    trailing_tier.site_mono[of lines pattern i]
  by (auto simp: TIERS_def tier_key_def split: if_splits)

section \<open>The result of a search\<close>

definition sites :: "string \<Rightarrow> string list \<Rightarrow> string list \<Rightarrow> nat \<Rightarrow> nat \<Rightarrow> nat list" where
  "sites tier lines pattern s l = filter (site_matches (tier_key tier) lines pattern) [s..<Suc l]"

lemma set_sites [simp]:
  "i \<in> set (sites tier lines pattern s l) \<longleftrightarrow>
   s \<le> i \<and> i \<le> l \<and> site_matches (tier_key tier) lines pattern i"
  by (auto simp: sites_def simp del: upt_Suc)

lemma sorted_sites: "sorted_wrt (<) (sites tier lines pattern s l)"
  unfolding sites_def by (rule sorted_wrt_filter) (rule sorted_wrt_upt)

lemma seek_tiers_eq:
  assumes "pattern \<noteq> []" "s \<le> l" "l + length pattern \<le> length lines"
  shows "seek_tiers lines pattern s l anchored tiers =
    (case dropWhile (\<lambda>t. sites t lines pattern s l = []) tiers of
       [] \<Rightarrow> Ok None
     | t # _ \<Rightarrow>
        (case sites t lines pattern s l of
           i # j # _ \<Rightarrow> if anchored then Ok (Some i)
             else Err \<lparr>first_line = i + 1, second_line = j + 1, strictness = t\<rparr>
         | i # _ \<Rightarrow> Ok (Some i)
         | [] \<Rightarrow> Ok None))"
proof (induction tiers)
  case (Cons t tiers)
  have "tier_matches lines pattern s l t n = take (max n 1) (sites t lines pattern s l)" for n
    using tier_matches_eq[OF assms] by (simp add: sites_def)
  with Cons show ?case
    by (auto simp: numeral_2_eq_2 split: list.splits)
qed simp

text \<open>
  The first tier with a site decides. \<open>seek_spec\<close> is the declarative reading of a search result:
  the strongest tier that has a site in the window \<open>[s, l]\<close> gives the answer, an anchored search
  takes its first site, and an unanchored one accepts only a single site.
\<close>

definition deciding_tier :: "string list \<Rightarrow> string list \<Rightarrow> nat \<Rightarrow> nat \<Rightarrow> string \<Rightarrow> bool" where
  "deciding_tier lines pattern s l t \<longleftrightarrow>
     (\<exists>stronger weaker. TIERS = stronger @ t # weaker \<and> sites t lines pattern s l \<noteq> [] \<and>
        (\<forall>u\<in>set stronger. sites u lines pattern s l = []))"

lemma seek_tiers_TIERS:
  assumes "pattern \<noteq> []" "s \<le> l" "l + length pattern \<le> length lines"
  shows "(seek_tiers lines pattern s l anchored TIERS = Ok None \<and>
            (\<forall>t\<in>set TIERS. sites t lines pattern s l = [])) \<or>
         (\<exists>t. deciding_tier lines pattern s l t \<and>
            seek_tiers lines pattern s l anchored TIERS =
              (case sites t lines pattern s l of
                 i # j # _ \<Rightarrow> if anchored then Ok (Some i)
                   else Err \<lparr>first_line = i + 1, second_line = j + 1, strictness = t\<rparr>
               | i # _ \<Rightarrow> Ok (Some i)
               | [] \<Rightarrow> Ok None))"
proof (cases "dropWhile (\<lambda>t. sites t lines pattern s l = []) TIERS")
  case Nil
  then have "seek_tiers lines pattern s l anchored TIERS = Ok None"
    by (subst seek_tiers_eq[OF assms]) (simp del: dropWhile_eq_Nil_conv)
  with Nil show ?thesis by auto
next
  case (Cons t weaker)
  let ?w = "takeWhile (\<lambda>t. sites t lines pattern s l = []) TIERS"
  have "TIERS = ?w @ t # weaker" using Cons by (metis takeWhile_dropWhile_id)
  moreover have "sites t lines pattern s l \<noteq> []" using Cons by (simp add: dropWhile_eq_Cons_conv)
  moreover have "\<forall>u\<in>set ?w. sites u lines pattern s l = []" by (auto dest: set_takeWhileD)
  ultimately have "deciding_tier lines pattern s l t"
    unfolding deciding_tier_def by blast
  then show ?thesis using Cons by (auto simp: seek_tiers_eq[OF assms])
qed

lemma deciding_tier_in: "deciding_tier lines pattern s l t \<Longrightarrow> t \<in> set TIERS"
  unfolding deciding_tier_def by (metis in_set_conv_decomp)

text \<open>The window a search looks at, and the sites of a tier in it.\<close>

definition window :: "string list \<Rightarrow> string list \<Rightarrow> nat \<Rightarrow> bool \<Rightarrow> nat set" where
  "window lines pattern start eof =
     {i. start \<le> i \<and> i + length pattern \<le> length lines \<and>
         (eof \<longrightarrow> i + length pattern = length lines)}"

definition window_sites :: "string \<Rightarrow> string list \<Rightarrow> string list \<Rightarrow> nat \<Rightarrow> bool \<Rightarrow> nat set" where
  "window_sites tier lines pattern start eof =
     {i \<in> window lines pattern start eof. site_matches (tier_key tier) lines pattern i}"

definition strongest_tier :: "string list \<Rightarrow> string list \<Rightarrow> nat \<Rightarrow> bool \<Rightarrow> string \<Rightarrow> bool" where
  "strongest_tier lines pattern start eof t \<longleftrightarrow>
     (\<exists>stronger weaker. TIERS = stronger @ t # weaker \<and>
        window_sites t lines pattern start eof \<noteq> {} \<and>
        (\<forall>u\<in>set stronger. window_sites u lines pattern start eof = {}))"

definition seek_spec :: "string list \<Rightarrow> string list \<Rightarrow> nat \<Rightarrow> bool \<Rightarrow> bool \<Rightarrow>
    (nat option, ambiguous_match) result \<Rightarrow> bool" where
  "seek_spec lines pattern start eof anchored r =
     (case r of
        Ok None \<Rightarrow> \<forall>t\<in>set TIERS. window_sites t lines pattern start eof = {}
      | Ok (Some i) \<Rightarrow> \<exists>t. strongest_tier lines pattern start eof t \<and>
          i \<in> window_sites t lines pattern start eof \<and>
          (\<forall>j\<in>window_sites t lines pattern start eof. if anchored then i \<le> j else j = i)
      | Err a \<Rightarrow> \<not> anchored \<and> strongest_tier lines pattern start eof (strictness a) \<and>
          0 < first_line a \<and> first_line a < second_line a \<and>
          {first_line a - 1, second_line a - 1}
            \<subseteq> window_sites (strictness a) lines pattern start eof)"

lemma set_sites_window:
  assumes "length pattern \<le> length lines" "start \<le> length lines - length pattern"
  shows "set (sites t lines pattern (if eof then length lines - length pattern else start)
      (length lines - length pattern)) = window_sites t lines pattern start eof"
  using assms by (auto simp: window_sites_def window_def)

lemma window_sites_empty:
  assumes "length lines < start + length pattern"
  shows "window_sites t lines pattern start eof = {}"
  using assms by (auto simp: window_sites_def window_def)

lemma seek_sequence_spec:
  assumes p: "pattern \<noteq> []"
  shows "seek_spec lines pattern start eof anchored (seek_sequence lines pattern start eof anchored)"
proof (cases "length pattern \<le> length lines \<and> start \<le> length lines - length pattern")
  case False
  then have "window_sites t lines pattern start eof = {}" for t
    by (intro window_sites_empty) linarith
  with False p show ?thesis
    by (auto simp: seek_spec_def seek_sequence_def checked_sub_def not_le)
next
  case True
  let ?l = "length lines - length pattern"
  let ?s = "if eof then ?l else start"
  let ?S = "\<lambda>t. sites t lines pattern ?s ?l"
  have set_S: "set (?S t) = window_sites t lines pattern start eof" for t
    using True by (intro set_sites_window) auto
  have dec: "deciding_tier lines pattern ?s ?l t \<Longrightarrow> strongest_tier lines pattern start eof t" for t
    unfolding deciding_tier_def strongest_tier_def set_S[symmetric] by simp
  have seek: "seek_sequence lines pattern start eof anchored =
      seek_tiers lines pattern ?s ?l anchored TIERS"
    using True p by (simp add: seek_sequence_def checked_sub_def)
  have "?s \<le> ?l" "?l + length pattern \<le> length lines" using True by auto
  from seek_tiers_TIERS[OF p this, of anchored]
  consider "seek_sequence lines pattern start eof anchored = Ok None" "\<forall>t\<in>set TIERS. ?S t = []"
    | t where "deciding_tier lines pattern ?s ?l t" "seek_sequence lines pattern start eof anchored =
              (case ?S t of
                 i # j # _ \<Rightarrow> if anchored then Ok (Some i)
                   else Err \<lparr>first_line = i + 1, second_line = j + 1, strictness = t\<rparr>
               | i # _ \<Rightarrow> Ok (Some i)
               | [] \<Rightarrow> Ok None)"
    unfolding seek by blast
  then show ?thesis
  proof cases
    case 1
    then show ?thesis using set_S by (auto simp: seek_spec_def simp flip: set_S)
  next
    case (2 t)
    from 2(1) obtain i rest where i: "?S t = i # rest" by (cases "?S t") (auto simp: deciding_tier_def)
    have ord: "\<forall>j\<in>set rest. i < j" using sorted_sites[of t lines pattern ?s ?l] i by simp
    have mem: "window_sites t lines pattern start eof = insert i (set rest)"
      using set_S[of t] i by simp
    show ?thesis
    proof (cases rest)
      case Nil
      with 2 i mem dec[of t] show ?thesis by (auto simp: seek_spec_def)
    next
      case (Cons j js)
      with 2 i mem ord dec[of t] show ?thesis by (fastforce simp: seek_spec_def)
    qed
  qed
qed

lemma seek_sequence_found:
  assumes "seek_sequence lines pattern start eof anchored = Ok (Some i)"
  shows "start \<le> i" "i + length pattern \<le> length lines" "eof \<Longrightarrow> i + length pattern = length lines"
    "\<exists>t\<in>set TIERS. site_matches (tier_key t) lines pattern i"
proof -
  have "start \<le> i \<and> i + length pattern \<le> length lines \<and> (eof \<longrightarrow> i + length pattern = length lines) \<and>
      (\<exists>t\<in>set TIERS. site_matches (tier_key t) lines pattern i)"
  proof (cases "pattern = []")
    case True
    with assms show ?thesis
      by (auto simp: seek_sequence_def site_matches_def TIERS_def split: if_splits)
  next
    case False
    then obtain t where t: "strongest_tier lines pattern start eof t"
      "i \<in> window_sites t lines pattern start eof"
      using seek_sequence_spec[of pattern lines start eof anchored] assms
      by (auto simp: seek_spec_def)
    then have "t \<in> set TIERS" unfolding strongest_tier_def by (metis in_set_conv_decomp)
    with t show ?thesis by (auto simp: window_sites_def window_def)
  qed
  then show "start \<le> i" "i + length pattern \<le> length lines" "eof \<Longrightarrow> i + length pattern = length lines"
    "\<exists>t\<in>set TIERS. site_matches (tier_key t) lines pattern i" by auto
qed

lemma seek_sequence_none:
  assumes "seek_sequence lines pattern start eof anchored = Ok None" "pattern \<noteq> []"
    and "t \<in> set TIERS" "start \<le> i" "eof \<Longrightarrow> i + length pattern = length lines"
  shows "\<not> site_matches (tier_key t) lines pattern i"
proof
  assume m: "site_matches (tier_key t) lines pattern i"
  have "window_sites t lines pattern start eof = {}"
    using seek_sequence_spec[OF assms(2), of lines start eof anchored] assms(1,3)
    by (simp add: seek_spec_def)
  moreover have "i \<in> window_sites t lines pattern start eof"
    using m assms(4,5) by (auto simp: window_sites_def window_def site_matches_def)
  ultimately show False by simp
qed

lemma seek_sequence_anchored_ok: "is_ok (seek_sequence lines pattern start eof True)"
proof (cases "pattern = []")
  case False
  then show ?thesis
    using seek_sequence_spec[of pattern lines start eof True]
    by (cases "seek_sequence lines pattern start eof True") (auto simp: seek_spec_def)
qed (simp add: seek_sequence_def)

lemma ambiguous_candidates_sites:
  "set (ambiguous_candidates lines pattern start eof amb limit)
     \<subseteq> window_sites (strictness amb) lines pattern start eof"
proof (cases "pattern \<noteq> [] \<and> start + length pattern \<le> length lines")
  case True
  then have le: "length pattern \<le> length lines" "start \<le> length lines - length pattern" by auto
  have "set (ambiguous_candidates lines pattern start eof amb limit) \<subseteq>
      set (sites (strictness amb) lines pattern (if eof then length lines - length pattern else start)
        (length lines - length pattern))"
    using True le unfolding ambiguous_candidates_def sites_def checked_sub_def
    by (auto simp: tier_matches_eq simp del: upt_Suc dest!: in_set_takeD split: if_splits)
  then show ?thesis using set_sites_window[OF le] by simp
qed (auto simp: ambiguous_candidates_def checked_sub_def)

lemma seek_sequence_ambiguous:
  assumes "seek_sequence lines pattern start eof anchored = Err a"
  shows "\<not> anchored" "pattern \<noteq> []" "0 < first_line a" "first_line a < second_line a"
    "{first_line a - 1, second_line a - 1} \<subseteq> window_sites (strictness a) lines pattern start eof"
proof -
  show p: "pattern \<noteq> []" using assms by (auto simp: seek_sequence_def)
  show "\<not> anchored" "0 < first_line a" "first_line a < second_line a"
    "{first_line a - 1, second_line a - 1} \<subseteq> window_sites (strictness a) lines pattern start eof"
    using seek_sequence_spec[OF p, of lines start eof anchored] assms by (auto simp: seek_spec_def)
qed

text \<open>One site at the loosest tier means one site at every tier, from every start.\<close>

lemma take_two_single: "take 2 xs = [x] \<Longrightarrow> xs = [x]"
  by (cases xs; cases "tl xs") auto

lemma candidate_starts_unique:
  assumes "candidate_starts_at_any_tier lines pattern 2 = [i]"
    and "t \<in> set TIERS" "site_matches (tier_key t) lines pattern j"
  shows "j = i"
proof -
  have p: "pattern \<noteq> []" and l: "length pattern \<le> length lines"
    using assms(1) by (auto simp: candidate_starts_at_any_tier_def checked_sub_def split: if_splits)
  have "filter (site_matches normalise lines pattern) [0..<Suc (length lines - length pattern)] = [i]"
  proof (rule take_two_single)
    have last: "tier_key (last TIERS) = normalise" by (simp add: TIERS_def tier_key_def)
    have "candidate_starts_at_any_tier lines pattern 2 =
        tier_matches lines pattern 0 (length lines - length pattern) (last TIERS) 2"
      using p l by (simp add: candidate_starts_at_any_tier_def checked_sub_def)
    also have "\<dots> = take 2 (filter (site_matches normalise lines pattern) [0..<Suc (length lines - length pattern)])"
      using p l by (subst tier_matches_eq) (simp_all add: last numeral_2_eq_2 del: upt_Suc)
    finally show "take 2 (filter (site_matches normalise lines pattern)
        [0..<Suc (length lines - length pattern)]) = [i]" using assms(1) by simp
  qed
  moreover have j: "site_matches normalise lines pattern j" by (rule normalise_coarsest[OF assms(2,3)])
  then have "j \<in> set (filter (site_matches normalise lines pattern) [0..<Suc (length lines - length pattern)])"
    by (auto simp: site_matches_def simp del: upt_Suc)
  ultimately show ?thesis by (simp only: list.set empty_iff insert_iff simp_thms)
qed

section \<open>The contract of a block search\<close>

text \<open>
  What the chunk matcher relies on: a block is found at or after the given start, inside the file,
  and at its end when asked for; an anchored search never reports an ambiguity.
\<close>

locale block_search =
  fixes seek :: "string list \<Rightarrow> string list \<Rightarrow> nat \<Rightarrow> bool \<Rightarrow> bool \<Rightarrow> (nat option, 'e) result"
  assumes found_from: "seek lines p s eof a = Ok (Some i) \<Longrightarrow> s \<le> i"
    and found_fits: "seek lines p s eof a = Ok (Some i) \<Longrightarrow> i + length p \<le> length lines"
    and found_eof: "seek lines p s True a = Ok (Some i) \<Longrightarrow> i + length p = length lines"
    and anchored_ok: "is_ok (seek lines p s eof True)"
begin

lemma chained:
  assumes "seek lines p s eof a = Ok (Some i)" "seek lines q (i + length p) eof' a' = Ok (Some j)"
  shows "s \<le> i \<and> i + length p \<le> j \<and> j + length q \<le> length lines"
  using assms found_from found_fits by meson

lemma pinned:
  assumes "seek (take (min (pos + length p) (length lines)) lines) p pos eof a = Ok (Some i)"
  shows "i = pos \<and> pos + length p \<le> length lines"
  using found_from[OF assms] found_fits[OF assms] by auto

end

interpretation lines_search: block_search seek_sequence
proof
  fix lines p :: "string list" and s i :: nat and eof a :: bool
  show "seek_sequence lines p s eof a = Ok (Some i) \<Longrightarrow> s \<le> i"
    and "seek_sequence lines p s eof a = Ok (Some i) \<Longrightarrow> i + length p \<le> length lines"
    and "seek_sequence lines p s True a = Ok (Some i) \<Longrightarrow> i + length p = length lines"
    by (simp_all add: seek_sequence_found)
  show "is_ok (seek_sequence lines p s eof True)" by (rule seek_sequence_anchored_ok)
qed

section \<open>Properties\<close>



text \<open>
  One comparison tier, whether it compares prepared windows or runs the linear search, is
  equivalent to filtering all start positions of the window by equality of the compared lines.
\<close>

lemma tier_matches_equiv:
  assumes "pattern \<noteq> []" "search_start \<le> last_start" "last_start + length pattern \<le> length lines"
  shows "tier_matches lines pattern search_start last_start tier limit =
    take (max limit 1) (filter (site_matches (tier_key tier) lines pattern) [search_start..<Suc last_start])"
  using assms by (rule tier_matches_eq)

lemma tier_matches_equiv_example:
  "tier_matches [''a'', ''b'', ''a''] [''a''] 0 2 ''exact'' 2 = [0, 2]"
  using tier_matches_equiv[of "[''a'']" 0 2 "[''a'', ''b'', ''a'']" "''exact''" 2]
  by (simp add: site_matches_def tier_key_def upt_rec)

end
