(* ===== verification/Patch_Diagnostics.thy ===== *)
theory Patch_Diagnostics
  imports Patch_Parser
begin

text \<open>
  The bounded renderings that a failed patch carries (\<^verbatim>\<open>apply-patch/src/lib.rs\<close>): the excerpt of
  the current source, the excerpt of the lines a chunk expected and the list of candidate line
  numbers. The lemmas bound what a failure can put into a model-facing message, however large the
  file and the patch are, and show that the excerpt only reads lines of the file.
\<close>

definition PATCH_MISMATCH_CONTEXT_LINES :: nat where "PATCH_MISMATCH_CONTEXT_LINES = 3"
definition PATCH_MISMATCH_MAX_LINES :: nat where "PATCH_MISMATCH_MAX_LINES = 20"
definition PATCH_MISMATCH_MAX_BYTES :: nat where "PATCH_MISMATCH_MAX_BYTES = 4 * 1024"

text \<open>\<^verbatim>\<open>str::floor_char_boundary\<close>: the greatest boundary between characters up to a byte offset.\<close>

fun floor_boundary_chars :: "string list \<Rightarrow> nat \<Rightarrow> nat" where
  "floor_boundary_chars [] n = 0"
| "floor_boundary_chars (c # cs) n =
     (if length c \<le> n then length c + floor_boundary_chars cs (n - length c) else 0)"

definition floor_char_boundary :: "string \<Rightarrow> nat \<Rightarrow> nat" where
  "floor_char_boundary s n = floor_boundary_chars (utf8_chars s) n"

definition TRUNCATED :: string where
  "TRUNCATED = LF # ''[expected lines truncated; reread the full target region]''"

fun expected_loop :: "nat \<Rightarrow> string \<Rightarrow> string list \<Rightarrow> string" where
  "expected_loop index rendered [] = rendered"
| "expected_loop index rendered (line # lines) =
     (let separator_bytes = (if 0 < index then 1 else 0);
          remaining = PATCH_MISMATCH_MAX_BYTES - (length rendered + separator_bytes + length TRUNCATED)
      in if PATCH_MISMATCH_MAX_LINES \<le> index \<or> remaining = 0 then rendered @ TRUNCATED
         else
           let rendered' = rendered @ (if 0 < index then [LF] else [])
                 @ take (floor_char_boundary line remaining) line
           in if remaining < length line then rendered' @ TRUNCATED
              else expected_loop (index + 1) rendered' lines)"

definition bounded_expected_lines :: "string list \<Rightarrow> string" where
  "bounded_expected_lines lines = expected_loop 0 [] lines"

definition line_number_list :: "nat list \<Rightarrow> bool \<Rightarrow> string" where
  "line_number_list starts truncated =
     (let numbers = map (\<lambda>s. show_nat (s + 1)) starts in
      if numbers = [] then []
      else if truncated then join '', '' numbers @ '' and more''
      else if length numbers = 1 then hd numbers
      else join '', '' (butlast numbers) @ '' and '' @ last numbers)"

text \<open>The format \<^verbatim>\<open>{line_number:>6} | \<close> pads the number on the left to six columns.\<close>

definition line_prefix :: "nat \<Rightarrow> string" where
  "line_prefix n = replicate (6 - length (show_nat n)) (CHR '' '') @ show_nat n @ '' | ''"

fun excerpt_loop :: "nat \<Rightarrow> nat \<Rightarrow> string \<Rightarrow> nat \<Rightarrow> string list \<Rightarrow> nat \<times> string" where
  "excerpt_loop excerpt_start index rendered rendered_end [] = (rendered_end, rendered)"
| "excerpt_loop excerpt_start index rendered rendered_end (line # lines) =
     (let pre = line_prefix (excerpt_start + index + 1);
          separator_bytes = (if rendered = [] then 0 else 1);
          remaining = PATCH_MISMATCH_MAX_BYTES - (length rendered + length pre + separator_bytes)
      in if remaining = 0 then (rendered_end, rendered)
         else
           let rendered' = rendered @ (if rendered = [] then [] else [LF]) @ pre
                 @ take (floor_char_boundary line remaining) line;
               rendered_end' = excerpt_start + index + 1
           in if remaining < length line then (rendered_end', rendered')
              else excerpt_loop excerpt_start (index + 1) rendered' rendered_end' lines)"

definition excerpt_range :: "nat \<Rightarrow> nat \<Rightarrow> nat \<Rightarrow> nat \<times> nat" where
  "excerpt_range len candidate_start expected_end =
     (let excerpt_start = candidate_start - PATCH_MISMATCH_CONTEXT_LINES;
          end0 = min (saturating_add expected_end PATCH_MISMATCH_CONTEXT_LINES) len;
          excerpt_end = (if PATCH_MISMATCH_MAX_LINES < end0 - excerpt_start
                         then excerpt_start + PATCH_MISMATCH_MAX_LINES else end0)
      in if excerpt_start = excerpt_end
         then (min candidate_start (len - 1), min candidate_start (len - 1) + 1)
         else (excerpt_start, excerpt_end))"

definition bounded_source_excerpt :: "string list \<Rightarrow> nat \<Rightarrow> nat \<Rightarrow> (nat \<times> nat \<times> string) option" where
  "bounded_source_excerpt original_lines candidate_start expected_end =
     (if original_lines = [] then None
      else
        let (s, e) = excerpt_range (length original_lines) candidate_start expected_end;
            (rendered_end, rendered) = excerpt_loop s 0 [] s (take (e - s) (drop s original_lines))
        in if rendered = [] then None else Some (s + 1, rendered_end, rendered))"

section \<open>Bounds\<close>

lemma floor_boundary_chars_le: "floor_boundary_chars cs n \<le> n"
  by (induction cs n rule: floor_boundary_chars.induct) auto

lemma floor_char_boundary_le: "floor_char_boundary s n \<le> n"
  by (simp add: floor_char_boundary_def floor_boundary_chars_le)

lemma floor_boundary_chars_take:
  "\<exists>k. take (floor_boundary_chars cs n) (concat cs) = concat (take k cs)"
proof (induction cs n rule: floor_boundary_chars.induct)
  case (2 c cs n)
  show ?case
  proof (cases "length c \<le> n")
    case True
    with 2 obtain k where "take (floor_boundary_chars cs (n - length c)) (concat cs) = concat (take k cs)"
      by blast
    with True show ?thesis by (intro exI[of _ "Suc k"]) simp
  qed (auto intro: exI[of _ 0])
qed simp

text \<open>A cut at a floor boundary keeps whole characters.\<close>

lemma take_floor_char_boundary:
  "\<exists>k. utf8_chars (take (floor_char_boundary s n) s) = take k (utf8_chars s)"
proof -
  obtain k where "take (floor_char_boundary s n) s = concat (take k (utf8_chars s))"
    using floor_boundary_chars_take[of "utf8_chars s" n] by (auto simp: floor_char_boundary_def)
  moreover have "utf8_chars (concat (take k (utf8_chars s))) = take k (utf8_chars s)"
    using utf8_chars_append[of s "take k (utf8_chars s)" "drop k (utf8_chars s)"] by simp
  ultimately show ?thesis by auto
qed

lemma floor_char_boundary_full: "length s \<le> n \<Longrightarrow> take (floor_char_boundary s n) s = s"
proof -
  have "sum_list (map length cs) \<le> n \<Longrightarrow> floor_boundary_chars cs n = sum_list (map length cs)" for cs
    by (induction cs n rule: floor_boundary_chars.induct) auto
  from this[of "utf8_chars s"] show "length s \<le> n \<Longrightarrow> ?thesis"
    using concat_utf8_chars[of s] by (simp add: floor_char_boundary_def flip: length_concat)
qed

lemma length_TRUNCATED: "length TRUNCATED = 58"
  by (simp add: TRUNCATED_def)

lemma expected_loop_bound:
  "length rendered + length TRUNCATED \<le> PATCH_MISMATCH_MAX_BYTES \<Longrightarrow>
   length (expected_loop index rendered lines) \<le> PATCH_MISMATCH_MAX_BYTES"
proof (induction index rendered lines rule: expected_loop.induct)
  case (2 index rendered line lines)
  let ?rem = "PATCH_MISMATCH_MAX_BYTES - (length rendered + (if 0 < index then 1 else 0) + length TRUNCATED)"
  let ?r = "rendered @ (if 0 < index then [LF] else []) @ take (floor_char_boundary line ?rem) line"
  show ?case
  proof (cases "PATCH_MISMATCH_MAX_LINES \<le> index \<or> ?rem = 0")
    case True
    with "2.prems" show ?thesis by (simp add: Let_def)
  next
    case False
    have "length (take (floor_char_boundary line ?rem) line) \<le> ?rem"
      using floor_char_boundary_le[of line ?rem] by simp
    with False have fits: "length ?r + length TRUNCATED \<le> PATCH_MISMATCH_MAX_BYTES" by auto
    show ?thesis
      using 2 False fits by (auto simp: Let_def simp del: length_take)
  qed
qed simp

lemma bounded_expected_lines_bound: "length (bounded_expected_lines lines) \<le> PATCH_MISMATCH_MAX_BYTES"
  unfolding bounded_expected_lines_def
  by (rule expected_loop_bound) (simp add: length_TRUNCATED PATCH_MISMATCH_MAX_BYTES_def)

lemma excerpt_loop_bound:
  assumes "length rendered \<le> PATCH_MISMATCH_MAX_BYTES" "excerpt_loop s index rendered e lines = (e', r)"
  shows "length r \<le> PATCH_MISMATCH_MAX_BYTES"
  using assms
proof (induction s index rendered e lines rule: excerpt_loop.induct)
  case (2 s index rendered e line lines)
  let ?pre = "line_prefix (s + index + 1)"
  let ?rem = "PATCH_MISMATCH_MAX_BYTES - (length rendered + length ?pre + (if rendered = [] then 0 else 1))"
  let ?r = "rendered @ (if rendered = [] then [] else [LF]) @ ?pre @ take (floor_char_boundary line ?rem) line"
  show ?case
  proof (cases "?rem = 0")
    case True
    with "2.prems" show ?thesis by (simp add: Let_def)
  next
    case False
    have "length (take (floor_char_boundary line ?rem) line) \<le> ?rem"
      using floor_char_boundary_le[of line ?rem] by simp
    with False have "length ?r \<le> PATCH_MISMATCH_MAX_BYTES" by auto
    with 2 False show ?thesis by (auto simp: Let_def simp del: length_take split: if_splits)
  qed
qed simp

lemma excerpt_loop_end:
  assumes "excerpt_loop s index rendered e lines = (e', r)" "e = s + index"
  shows "e \<le> e' \<and> e' \<le> e + length lines"
  using assms
proof (induction s index rendered e lines rule: excerpt_loop.induct)
  case (2 s index rendered e line lines)
  then show ?case by (fastforce simp: Let_def split: if_splits)
qed simp

lemma excerpt_range_ok:
  assumes "excerpt_range len c e = (s, t)" "0 < len" "c \<le> len" "c \<le> e" "len \<le> usize_max"
  shows "s < t \<and> t \<le> len \<and> t - s \<le> PATCH_MISMATCH_MAX_LINES"
proof -
  define en where "en = min (saturating_add e 3) len"
  define t0 where "t0 = (if 20 < en - (c - 3) then c - 3 + 20 else en)"
  have en: "c - 3 \<le> en" "en \<le> len" using assms(3-5) by (auto simp: en_def saturating_add_def)
  have "(c - 3 = t0 \<and> s = min c (len - 1) \<and> t = s + 1) \<or> (c - 3 \<noteq> t0 \<and> s = c - 3 \<and> t = t0)"
    using assms(1)
    by (simp add: excerpt_range_def Let_def PATCH_MISMATCH_CONTEXT_LINES_def PATCH_MISMATCH_MAX_LINES_def
        en_def[symmetric] t0_def split: if_splits)
  moreover have "c - 3 \<le> t0" "t0 \<le> len" "t0 - (c - 3) \<le> 20"
    using en by (auto simp: t0_def)
  ultimately show ?thesis using assms(2) by (auto simp: PATCH_MISMATCH_MAX_LINES_def)
qed

lemma excerpt_loop_progress:
  assumes "excerpt_loop s 0 [] s lines = (e, r)" "r \<noteq> []"
  shows "s < e"
proof (cases lines)
  case (Cons l ls)
  with assms have "excerpt_loop s 1 x (s + 1) ls = (e, r) \<or> e = s + 1"
    if "x = line_prefix (s + 1) @ take (floor_char_boundary l
          (PATCH_MISMATCH_MAX_BYTES - length (line_prefix (s + 1)))) l" for x
    using that by (auto simp: Let_def split: if_splits)
  then show ?thesis using excerpt_loop_end[of s 1 _ "s + 1" ls e r] by force
qed (use assms in simp)

lemma bounded_source_excerpt_ok:
  assumes ex: "bounded_source_excerpt lines c e = Some (a, b, text)"
    and c: "c \<le> length lines" "c \<le> e" "length lines \<le> usize_max"
  shows "1 \<le> a" "a \<le> b" "b \<le> length lines" "b - a < PATCH_MISMATCH_MAX_LINES"
    "length text \<le> PATCH_MISMATCH_MAX_BYTES"
proof -
  obtain s t where st: "excerpt_range (length lines) c e = (s, t)" by fastforce
  have ne: "0 < length lines" using ex by (auto simp: bounded_source_excerpt_def split: if_splits)
  note r = excerpt_range_ok[OF st ne c]
  obtain e' r' where loop: "excerpt_loop s 0 [] s (take (t - s) (drop s lines)) = (e', r')" by fastforce
  have res: "a = s + 1" "b = e'" "text = r'" "r' \<noteq> []"
    using ex st loop ne by (auto simp: bounded_source_excerpt_def Let_def split: if_splits)
  note bnd = excerpt_loop_end[OF loop] excerpt_loop_progress[OF loop res(4)] excerpt_loop_bound[OF _ loop]
  show "1 \<le> a" "a \<le> b" "b \<le> length lines" "b - a < PATCH_MISMATCH_MAX_LINES"
    "length text \<le> PATCH_MISMATCH_MAX_BYTES"
    using res r bnd by auto
qed

section \<open>Properties\<close>

text \<open>
  C28: the excerpt of the current source in a failure is bounded and honest. It names a nonempty
  range of lines of the file, at most twenty of them, and takes at most 4096 bytes.
\<close>

theorem source_excerpt_bounds:
  assumes "bounded_source_excerpt lines c e = Some (a, b, excerpt)"
    and "c \<le> length lines" "c \<le> e" "length lines \<le> usize_max"
  shows "1 \<le> a \<and> a \<le> b \<and> b \<le> length lines \<and> b - a < PATCH_MISMATCH_MAX_LINES
    \<and> length excerpt \<le> PATCH_MISMATCH_MAX_BYTES"
  using bounded_source_excerpt_ok[OF assms] by blast

theorem source_excerpt_bounds_witness:
  "bounded_source_excerpt [''x''] 0 1 = Some (1, 1, ''     1 | x'') \<and> length ''     1 | x'' \<le> PATCH_MISMATCH_MAX_BYTES"
proof -
  have "line_prefix (Suc 0) = ''     1 | ''" by code_simp
  then have "bounded_source_excerpt [''x''] 0 1 = Some (1, 1, ''     1 | x'')"
    by (simp add: bounded_source_excerpt_def excerpt_range_def saturating_add_def usize_max_def
        PATCH_MISMATCH_CONTEXT_LINES_def PATCH_MISMATCH_MAX_LINES_def PATCH_MISMATCH_MAX_BYTES_def
        floor_char_boundary_full)
  with source_excerpt_bounds[OF this] show ?thesis by (simp add: usize_max_def)
qed

text \<open>
  Whatever lines a patch expected, their rendering in a failure takes at most 4096 bytes,
  truncation note included.
\<close>

lemma expected_lines_bounds: "length (bounded_expected_lines lines) \<le> PATCH_MISMATCH_MAX_BYTES"
  by (rule bounded_expected_lines_bound)

end
