(* ===== verification/Chunk_Matcher.thy ===== *)
theory Chunk_Matcher
  imports Seek_Sequence Parser_Invariant Patch_Diagnostics
begin

text \<open>
  The matcher of \<^verbatim>\<open>apply-patch/src/lib.rs\<close>: it finds where each chunk of an update hunk applies in
  one snapshot of the file and computes the replacements that write the result.

  \<^item> The state is the \<open>chunk_cursor\<close>; the operations that take \<^verbatim>\<open>&mut ChunkCursor\<close> return it. On
    an error the cursor is dropped by every caller, so an error carries no cursor.
  \<^item> An out-of-range index or slice panics in Rust. It is the error \<open>Panicked\<close>, which nothing
    catches: \<open>catch_err\<close> (the code's \<^verbatim>\<open>is_ok()\<close>) lets it through.
  \<^item> A mismatch is reduced to its kind and chunk ordinal. The source renders it with excerpts of
    the file, as a structured mismatch or as text when the hunk has no ordinal.
  \<^item> The SHA-256 of the file is the field \<open>cm_source_hash\<close>; the line diff of the \<^verbatim>\<open>similar\<close> crate,
    used only for chunks without line kinds, is the field \<open>cm_diff\<close>.
\<close>

section \<open>Outcomes\<close>

datatype patch_context_mismatch_kind =
    ContextNotFound | ExpectedLinesNotFound | AmbiguousMatch | IndentationMismatch
  | RemovedLineMismatch | MalformedRange | RangeOutOfBounds | RangeOrderMismatch | StaleRange
  | RangeOldLinesMismatch

datatype apply_patch_error =
    ComputeReplacements string
  | RevisionGuardMismatch string
  | PatchContextMismatch patch_context_mismatch_kind nat
  | Panicked

type_synonym 'a outcome = "('a, apply_patch_error) result"

fun catch_err :: "'a outcome \<Rightarrow> 'a option outcome" where
  "catch_err (Ok x) = Ok (Some x)"
| "catch_err (Err e) = (if e = Panicked then Err Panicked else Ok None)"

definition get_index :: "'a list \<Rightarrow> nat \<Rightarrow> 'a outcome" where
  "get_index xs i = (if i < length xs then Ok (xs ! i) else Err Panicked)"

definition get_slice :: "'a list \<Rightarrow> nat \<Rightarrow> nat \<Rightarrow> 'a list outcome" where
  "get_slice xs s e = (if s \<le> e \<and> e \<le> length xs then Ok (take (e - s) (drop s xs)) else Err Panicked)"

definition splice :: "nat \<Rightarrow> nat \<Rightarrow> 'a list \<Rightarrow> 'a list \<Rightarrow> 'a list outcome" where
  "splice s e new xs = (if s \<le> e \<and> e \<le> length xs then Ok (take s xs @ new @ drop e xs) else Err Panicked)"

section \<open>Prepared sources\<close>

record prepared_source =
  ps_contents :: string
  ps_physical_lines :: "string list"
  ps_logical_lines :: "string list"
  ps_newline :: string

definition CRLF :: string where
  "CRLF = [CR, LF]"

definition logical_line :: "string \<Rightarrow> string" where
  "logical_line line =
     (case strip_suffix CRLF line of
        Some l \<Rightarrow> l
      | None \<Rightarrow> (case strip_suffix [LF] line of Some l \<Rightarrow> l | None \<Rightarrow> line))"

definition prepare_source :: "string \<Rightarrow> prepared_source" where
  "prepare_source contents =
     (let physical = split_inclusive LF contents in
      \<lparr>ps_contents = contents, ps_physical_lines = physical,
       ps_logical_lines = map logical_line physical,
       ps_newline = (case find (ends_with [LF]) physical of
                       Some l \<Rightarrow> if ends_with CRLF l then CRLF else [LF]
                     | None \<Rightarrow> [LF])\<rparr>)"

section \<open>Edit operations of a chunk\<close>

datatype diff_op =
    Diff_Equal nat nat nat
  | Diff_Delete nat nat nat
  | Diff_Insert nat nat nat
  | Diff_Replace nat nat nat nat

fun old_range :: "diff_op \<Rightarrow> nat \<times> nat" where
  "old_range (Diff_Equal old_index new_index len) = (old_index, old_index + len)"
| "old_range (Diff_Delete old_index old_len new_index) = (old_index, old_index + old_len)"
| "old_range (Diff_Insert old_index new_index new_len) = (old_index, old_index)"
| "old_range (Diff_Replace old_index old_len new_index new_len) = (old_index, old_index + old_len)"

fun new_range :: "diff_op \<Rightarrow> nat \<times> nat" where
  "new_range (Diff_Equal old_index new_index len) = (new_index, new_index + len)"
| "new_range (Diff_Delete old_index old_len new_index) = (new_index, new_index)"
| "new_range (Diff_Insert old_index new_index new_len) = (new_index, new_index + new_len)"
| "new_range (Diff_Replace old_index old_len new_index new_len) = (new_index, new_index + new_len)"

fun is_equal_op :: "diff_op \<Rightarrow> bool" where
  "is_equal_op (Diff_Equal _ _ _) = True"
| "is_equal_op _ = False"

definition group_op :: "nat \<Rightarrow> nat \<Rightarrow> nat \<Rightarrow> nat \<Rightarrow> diff_op" where
  "group_op old_index new_index old_len new_len =
     (if old_len = 0 then Diff_Insert old_index new_index new_len
      else if new_len = 0 then Diff_Delete old_index old_len new_index
      else Diff_Replace old_index old_len new_index new_len)"

definition provenance_error :: apply_patch_error where
  "provenance_error = ComputeReplacements ''invalid patch line provenance''"

fun edit_loop :: "nat \<Rightarrow> nat \<Rightarrow> nat \<Rightarrow> nat \<Rightarrow> (nat \<times> nat) option \<Rightarrow> diff_op list \<Rightarrow> update_line_kind list \<Rightarrow>
    (nat \<times> nat \<times> diff_op list) outcome" where
  "edit_loop pattern_len new_lines_len old new grp operations [] = Ok (old, new, operations)"
| "edit_loop pattern_len new_lines_len old new grp operations (Context # kinds) =
     (case grp of
        None \<Rightarrow> edit_loop pattern_len new_lines_len (old + 1) (new + 1) None operations kinds
      | Some (old_index, new_index) \<Rightarrow>
          if pattern_len < old \<or> new_lines_len < new then Err provenance_error
          else edit_loop pattern_len new_lines_len (old + 1) (new + 1) None
                 (operations @ [group_op old_index new_index (old - old_index) (new - new_index)]) kinds)"
| "edit_loop pattern_len new_lines_len old new grp operations (Add # kinds) =
     edit_loop pattern_len new_lines_len old (new + 1)
       (Some (case grp of None \<Rightarrow> (old, new) | Some g \<Rightarrow> g)) operations kinds"
| "edit_loop pattern_len new_lines_len old new grp operations (Remove # kinds) =
     edit_loop pattern_len new_lines_len (old + 1) new
       (Some (case grp of None \<Rightarrow> (old, new) | Some g \<Rightarrow> g)) operations kinds"

definition chunk_edit_operations :: "(string list \<Rightarrow> string list \<Rightarrow> diff_op list) \<Rightarrow> update_file_chunk \<Rightarrow>
    string list \<Rightarrow> diff_op list outcome" where
  "chunk_edit_operations diff chunk pattern =
     (if line_kinds chunk = [] then Ok (diff pattern (new_lines chunk))
      else and_then (edit_loop (length pattern) (length (new_lines chunk)) 0 0 None []
                       (line_kinds chunk @ [Context])) (\<lambda>(old, new, operations).
             if old \<noteq> length (old_lines chunk) + 1 \<or> new \<noteq> length (new_lines chunk) + 1
             then Err provenance_error
             else Ok operations))"

section \<open>The cursor\<close>

definition DISAMBIGUATION_CANDIDATE_LIMIT :: nat where "DISAMBIGUATION_CANDIDATE_LIMIT = 8"
definition AMBIGUITY_REPORT_LIMIT :: nat where "AMBIGUITY_REPORT_LIMIT = 16"

record claimed_span =
  claim_start :: nat
  claim_end :: nat
  claim_chunk_ordinal :: nat

record replacement =
  rep_start :: nat
  rep_old_len :: nat
  rep_new_lines :: "string list"
  rep_order :: nat

record chunk_cursor =
  cc_replacements :: "replacement list"
  cc_claimed :: "claimed_span list"
  cc_line_index :: nat
  cc_anchored :: bool

definition default_cursor :: chunk_cursor where
  "default_cursor = \<lparr>cc_replacements = [], cc_claimed = [], cc_line_index = 0, cc_anchored = False\<rparr>"

definition cursor_push :: "nat \<Rightarrow> nat \<Rightarrow> string list \<Rightarrow> nat \<Rightarrow> chunk_cursor \<Rightarrow> chunk_cursor" where
  "cursor_push start old_len news order c =
     c\<lparr>cc_replacements := cc_replacements c @
        [\<lparr>rep_start = start, rep_old_len = old_len, rep_new_lines = news, rep_order = order\<rparr>]\<rparr>"

definition cursor_claim :: "claimed_span \<Rightarrow> chunk_cursor \<Rightarrow> chunk_cursor" where
  "cursor_claim s c = c\<lparr>cc_claimed := cc_claimed c @ [s]\<rparr>"

definition rep_key :: "replacement \<Rightarrow> nat \<times> nat" where
  "rep_key r = (rep_start r, rep_order r)"

definition cursor_sorted :: "chunk_cursor \<Rightarrow> replacement list" where
  "cursor_sorted c = sort_key rep_key (cc_replacements c)"

definition into_sorted_replacements :: "chunk_cursor \<Rightarrow> (nat \<times> nat \<times> string list) list" where
  "into_sorted_replacements c =
     map (\<lambda>r. (rep_start r, rep_old_len r, rep_new_lines r)) (sort_key rep_key (cc_replacements c))"

record chunk_site =
  site_anchor :: "nat option"
  site_start :: nat

record ambiguity =
  am_error :: ambiguous_match
  am_pattern :: "string list"
  am_context :: bool
  am_start :: nat
  am_eof :: bool
  am_out_of_order_after :: "nat option"

datatype located = Site chunk_site | Relocated chunk_site | Ambiguous ambiguity

datatype missing = Missing_Context | Missing_AfterAnchor nat | Missing_Lines

datatype chunk_flow = Next | Finished

datatype pass = Primary | InOrder | Relocating

record chunk_matcher =
  cm_original_lines :: "string list"
  cm_original_contents :: string
  cm_chunks :: "update_file_chunk list"
  cm_source_hash :: string
  cm_diff :: "string list \<Rightarrow> string list \<Rightarrow> diff_op list"

section \<open>Locating and placing a chunk\<close>

definition mismatch :: "patch_context_mismatch_kind \<Rightarrow> nat \<Rightarrow> 'a outcome" where
  "mismatch kind chunk_index = Err (PatchContextMismatch kind (chunk_index + 1))"

definition RANGE_PREFIX :: string where
  "RANGE_PREFIX = ''codex-range ''"

definition place_range :: "nat \<Rightarrow> nat \<Rightarrow> nat \<Rightarrow> string list \<Rightarrow> chunk_cursor \<Rightarrow> chunk_cursor" where
  "place_range chunk_index start stop news cursor =
     (cursor_claim \<lparr>claim_start = start - 1, claim_end = stop, claim_chunk_ordinal = chunk_index + 1\<rparr>
        (cursor_push (start - 1) (stop - start + 1) news (start - 1) cursor))
       \<lparr>cc_line_index := stop, cc_anchored := True\<rparr>"

definition match_range :: "chunk_matcher \<Rightarrow> nat \<Rightarrow> string \<Rightarrow> chunk_cursor \<Rightarrow> chunk_cursor outcome" where
  "match_range m chunk_index handle cursor =
     (let chunk = cm_chunks m ! chunk_index; lines = cm_original_lines m in
      case split_once '' sha256:'' handle of
        None \<Rightarrow> mismatch MalformedRange chunk_index
      | Some (bounds, hash) \<Rightarrow>
     (case split_once '':'' bounds of
        None \<Rightarrow> mismatch MalformedRange chunk_index
      | Some (start_text, end_text) \<Rightarrow>
     (case (parse_usize start_text, parse_usize end_text, source_hash_parse hash) of
        (Some start, Some stop, Ok hash_ref) \<Rightarrow>
          if start = 0 \<or> stop < start \<or> length lines < stop then mismatch RangeOutOfBounds chunk_index
          else if start - 1 < cc_line_index cursor then mismatch RangeOrderMismatch chunk_index
          else if \<not> source_hash_matches hash_ref (cm_source_hash m) then mismatch StaleRange chunk_index
          else if old_lines chunk = [] then Ok (place_range chunk_index start stop (new_lines chunk) cursor)
          else and_then (get_slice lines (start - 1) stop) (\<lambda>region.
                 if old_lines chunk \<noteq> region then mismatch RangeOldLinesMismatch chunk_index
                 else Ok (place_range chunk_index start stop (new_lines chunk) cursor))
      | _ \<Rightarrow> mismatch MalformedRange chunk_index)))"

definition following_anchor :: "chunk_matcher \<Rightarrow> nat \<Rightarrow> nat \<Rightarrow> nat option" where
  "following_anchor m chunk_index anchor_index =
     (let chunk = cm_chunks m ! chunk_index; lines = cm_original_lines m;
          position = anchor_index + 1;
          stop = min (saturating_add position (length (old_lines chunk))) (length lines)
      in case seek_sequence (take stop lines) (old_lines chunk) position (is_end_of_file chunk) True of
           Ok (Some start) \<Rightarrow>
             if \<not> is_end_of_file chunk \<or> start + length (old_lines chunk) = length lines then Some start
             else None
         | _ \<Rightarrow> None)"

definition site_of :: "bool \<Rightarrow> chunk_site \<Rightarrow> located" where
  "site_of relocated site = (if relocated then Relocated site else Site site)"

text \<open>The part of \<^verbatim>\<open>locate\<close> that follows the search for the textual anchor.\<close>

definition locate_lines :: "chunk_matcher \<Rightarrow> nat \<Rightarrow> chunk_cursor \<Rightarrow> bool \<Rightarrow> nat option \<Rightarrow> bool \<Rightarrow>
    (located, missing) result" where
  "locate_lines m chunk_index cursor relocate anchor relocated =
     (let chunk = cm_chunks m ! chunk_index; lines = cm_original_lines m;
          pattern = old_lines chunk; eof = is_end_of_file chunk;
          at_eof = (\<lambda>start. \<not> eof \<or> start + length pattern = length lines);
          ambiguous = (\<lambda>error start after.
             Ambiguous \<lparr>am_error = error, am_pattern = pattern, am_context = False, am_start = start,
                        am_eof = eof, am_out_of_order_after = after\<rparr>);
          relocation =
            (if cc_anchored cursor \<and> relocate then
               (case seek_sequence lines pattern 0 eof False of
                  Ok (Some start) \<Rightarrow>
                    if at_eof start then Ok (Relocated \<lparr>site_anchor = None, site_start = start\<rparr>)
                    else Err Missing_Lines
                | Ok None \<Rightarrow> Err Missing_Lines
                | Err error \<Rightarrow> Ok (ambiguous error 0 (Some (cc_line_index cursor))))
             else Err Missing_Lines)
      in if pattern = [] then
           Ok (site_of relocated \<lparr>site_anchor = anchor,
                 site_start = (case anchor of None \<Rightarrow> length lines | Some a \<Rightarrow> a + 1)\<rparr>)
         else case anchor of
           Some a \<Rightarrow>
             (case following_anchor m chunk_index a of
                Some start \<Rightarrow> Ok (site_of relocated \<lparr>site_anchor = Some a, site_start = start\<rparr>)
              | None \<Rightarrow> Err (Missing_AfterAnchor (a + 1)))
         | None \<Rightarrow>
             (case seek_sequence lines pattern (cc_line_index cursor) eof (cc_anchored cursor) of
                Err error \<Rightarrow> Ok (ambiguous error (cc_line_index cursor) None)
              | Ok None \<Rightarrow> relocation
              | Ok (Some start) \<Rightarrow>
                  if at_eof start then Ok (Site \<lparr>site_anchor = None, site_start = start\<rparr>) else relocation))"

definition locate :: "chunk_matcher \<Rightarrow> nat \<Rightarrow> chunk_cursor \<Rightarrow> bool \<Rightarrow> (located, missing) result" where
  "locate m chunk_index cursor relocate =
     (let lines = cm_original_lines m in
      case change_context (cm_chunks m ! chunk_index) of
        None \<Rightarrow> locate_lines m chunk_index cursor relocate None False
      | Some ctx \<Rightarrow>
          (let ambiguous = (\<lambda>error start after.
             Ambiguous \<lparr>am_error = error, am_pattern = [ctx], am_context = True, am_start = start,
                        am_eof = False, am_out_of_order_after = after\<rparr>)
           in case seek_sequence lines [ctx] (cc_line_index cursor) False (cc_anchored cursor) of
                Ok (Some index) \<Rightarrow> locate_lines m chunk_index cursor relocate (Some index) False
              | Ok None \<Rightarrow>
                  if cc_anchored cursor \<and> relocate then
                    (case seek_sequence lines [ctx] 0 False False of
                       Ok (Some index) \<Rightarrow> locate_lines m chunk_index cursor relocate (Some index) True
                     | Ok None \<Rightarrow> Err Missing_Context
                     | Err error \<Rightarrow> Ok (ambiguous error 0 (Some (cc_line_index cursor))))
                  else Err Missing_Context
              | Err error \<Rightarrow> Ok (ambiguous error (cc_line_index cursor) None)))"

definition leading_blank :: "string \<Rightarrow> string" where
  "leading_blank s = take (length s - length (trim_start s)) s"

fun check_removed :: "string list \<Rightarrow> string list \<Rightarrow> nat \<Rightarrow> nat \<Rightarrow> nat list \<Rightarrow> unit outcome" where
  "check_removed lines pattern chunk_index start_idx [] = Ok ()"
| "check_removed lines pattern chunk_index start_idx (old_index # indices) =
     and_then (get_index pattern old_index) (\<lambda>expected.
     and_then (get_index lines (start_idx + old_index)) (\<lambda>actual.
       if trim expected \<noteq> [] \<and> leading_blank expected \<noteq> leading_blank actual then
         mismatch IndentationMismatch chunk_index
       else if expected \<noteq> actual then mismatch RemovedLineMismatch chunk_index
       else check_removed lines pattern chunk_index start_idx indices))"

fun place_operations :: "chunk_matcher \<Rightarrow> nat \<Rightarrow> nat \<Rightarrow> nat \<Rightarrow> diff_op list \<Rightarrow> chunk_cursor \<Rightarrow> chunk_cursor outcome" where
  "place_operations m chunk_index start_idx order [] cursor = Ok cursor"
| "place_operations m chunk_index start_idx order (operation # operations) cursor =
     (if is_equal_op operation then place_operations m chunk_index start_idx order operations cursor
      else
        (let chunk = cm_chunks m ! chunk_index; (s, e) = old_range operation; (ns, ne) = new_range operation
         in and_then (check_removed (cm_original_lines m) (old_lines chunk) chunk_index start_idx [s..<e]) (\<lambda>_.
            and_then (get_slice (new_lines chunk) ns ne) (\<lambda>news.
              place_operations m chunk_index start_idx order operations
                (cursor_push (start_idx + s) (e - s) news order cursor)))))"

definition overlaps :: "claimed_span \<Rightarrow> claimed_span \<Rightarrow> bool" where
  "overlaps claim other \<longleftrightarrow> claim_start claim < claim_end other \<and> claim_start other < claim_end claim"

definition site_claim :: "chunk_matcher \<Rightarrow> nat \<Rightarrow> chunk_site \<Rightarrow> claimed_span" where
  "site_claim m chunk_index site =
     \<lparr>claim_start = (case site_anchor site of Some a \<Rightarrow> a | None \<Rightarrow> site_start site),
      claim_end = site_start site + length (old_lines (cm_chunks m ! chunk_index)),
      claim_chunk_ordinal = chunk_index + 1\<rparr>"

definition place :: "chunk_matcher \<Rightarrow> nat \<Rightarrow> chunk_site \<Rightarrow> chunk_cursor \<Rightarrow> bool \<Rightarrow> chunk_cursor outcome" where
  "place m chunk_index site cursor relocated =
     (let chunk = cm_chunks m ! chunk_index; lines = cm_original_lines m; pattern = old_lines chunk;
          claim = site_claim m chunk_index site;
          bare_addition = (site_anchor site = None \<and> pattern = []);
          order = (if bare_addition then cc_line_index cursor else claim_start claim)
      in if relocated \<and> list_ex (overlaps claim) (cc_claimed cursor) then
           mismatch ExpectedLinesNotFound chunk_index
         else and_then
           (if pattern = [] then
              (if is_end_of_file chunk \<and> site_start site \<noteq> length lines then
                 mismatch ExpectedLinesNotFound chunk_index
               else Ok (cursor_push (site_start site) 0 (new_lines chunk) order cursor))
            else and_then (chunk_edit_operations (cm_diff m) chunk pattern) (\<lambda>operations.
                   place_operations m chunk_index (site_start site) order operations cursor))
           (\<lambda>placed.
              Ok (if bare_addition then placed
                  else if relocated then cursor_claim claim placed
                  else (cursor_claim claim placed)
                         \<lparr>cc_line_index := claim_end claim, cc_anchored := True\<rparr>)))"

section \<open>Candidates of an ambiguous search\<close>

definition candidate_starts :: "chunk_matcher \<Rightarrow> ambiguity \<Rightarrow> nat list" where
  "candidate_starts m am =
     (let candidates = ambiguous_candidates (cm_original_lines m) (am_pattern am) (am_start am) (am_eof am)
            (am_error am) (AMBIGUITY_REPORT_LIMIT + 1)
      in if length candidates < 2 then [first_line (am_error am) - 1, second_line (am_error am) - 1]
         else candidates)"

fun splice_trial :: "replacement list \<Rightarrow> (bool \<times> string) list \<Rightarrow> (bool \<times> string) list outcome" where
  "splice_trial [] output = Ok output"
| "splice_trial (r # rs) output =
     and_then (splice (rep_start r) (rep_start r + rep_old_len r) (map (Pair True) (rep_new_lines r)) output)
       (splice_trial rs)"

definition trial_output :: "chunk_matcher \<Rightarrow> chunk_cursor \<Rightarrow> (bool \<times> string) list option outcome" where
  "trial_output m trial =
     (let output = map (Pair False) (split_inclusive LF (cm_original_contents m)) in
      if length output \<noteq> length (cm_original_lines m) then Ok None
      else and_then (splice_trial (rev (cursor_sorted trial)) output) (\<lambda>out. Ok (Some out)))"

fun all_write :: "chunk_matcher \<Rightarrow> (bool \<times> string) list option \<Rightarrow> (nat \<times> chunk_cursor) list \<Rightarrow> bool outcome" where
  "all_write m output [] = Ok True"
| "all_write m output ((_, trial) # rest) =
     and_then (trial_output m trial) (\<lambda>out. if out = output then all_write m output rest else Ok False)"

fun write_same_bytes :: "chunk_matcher \<Rightarrow> (nat \<times> chunk_cursor) list \<Rightarrow> bool outcome" where
  "write_same_bytes m [] = Ok False"
| "write_same_bytes m ((_, trial) # rest) =
     and_then (trial_output m trial) (\<lambda>output. if output = None then Ok False else all_write m output rest)"

definition candidate_site :: "chunk_matcher \<Rightarrow> nat \<Rightarrow> ambiguity \<Rightarrow> nat \<Rightarrow> chunk_site option" where
  "candidate_site m chunk_index am candidate =
     (if \<not> am_context am then Some \<lparr>site_anchor = None, site_start = candidate\<rparr>
      else if old_lines (cm_chunks m ! chunk_index) = [] then
        Some \<lparr>site_anchor = Some candidate, site_start = candidate + 1\<rparr>
      else map_option (\<lambda>start. \<lparr>site_anchor = Some candidate, site_start = start\<rparr>)
             (following_anchor m chunk_index candidate))"

fun place_candidates :: "chunk_matcher \<Rightarrow> nat \<Rightarrow> ambiguity \<Rightarrow> chunk_cursor \<Rightarrow> nat list \<Rightarrow>
    ((nat \<times> chunk_cursor) list \<times> bool) outcome" where
  "place_candidates m chunk_index am cursor [] = Ok ([], True)"
| "place_candidates m chunk_index am cursor (candidate # candidates) =
     (case candidate_site m chunk_index am candidate of
        None \<Rightarrow> place_candidates m chunk_index am cursor candidates
      | Some site \<Rightarrow>
          and_then (catch_err (place m chunk_index site cursor False)) (\<lambda>tried.
          and_then (place_candidates m chunk_index am cursor candidates) (\<lambda>(placed, everywhere).
            Ok (case tried of
                  Some trial \<Rightarrow> ((candidate, trial) # placed, everywhere)
                | None \<Rightarrow> (placed, False)))))"

fun viable_trials :: "(chunk_cursor \<Rightarrow> chunk_cursor outcome) \<Rightarrow> (nat \<times> chunk_cursor) list \<Rightarrow>
    (nat \<times> chunk_cursor) list outcome" where
  "viable_trials run [] = Ok []"
| "viable_trials run ((candidate, placed) # rest) =
     and_then (catch_err (run placed)) (\<lambda>tried.
     and_then (viable_trials run rest) (\<lambda>viable.
       Ok (case tried of Some trial \<Rightarrow> (candidate, trial) # viable | None \<Rightarrow> viable)))"

section \<open>Matching the chunks of a hunk\<close>

text \<open>
  \<^verbatim>\<open>match_from\<close>, \<^verbatim>\<open>match_chunk\<close> and \<^verbatim>\<open>disambiguate\<close> call each other, but a trial (any pass but the
  primary one) never starts another candidate search. What an ambiguous chunk of the primary pass
  does is therefore an argument, \<open>resolve\<close>; trials get \<open>no_nested_search\<close>, which they never call.
\<close>

type_synonym resolver = "nat \<Rightarrow> chunk_cursor \<Rightarrow> ambiguity \<Rightarrow> (chunk_flow \<times> chunk_cursor) outcome"

definition trial_miss :: "'a outcome" where
  "trial_miss = Err (ComputeReplacements [])"

definition missing_error :: "nat \<Rightarrow> missing \<Rightarrow> 'a outcome" where
  "missing_error chunk_index reason =
     (case reason of
        Missing_Context \<Rightarrow> mismatch ContextNotFound chunk_index
      | Missing_AfterAnchor position \<Rightarrow> mismatch ExpectedLinesNotFound chunk_index
      | Missing_Lines \<Rightarrow> mismatch ExpectedLinesNotFound chunk_index)"

definition next_chunk :: "chunk_cursor outcome \<Rightarrow> (chunk_flow \<times> chunk_cursor) outcome" where
  "next_chunk r = and_then r (\<lambda>c. Ok (Next, c))"

definition range_handle :: "update_file_chunk \<Rightarrow> string option" where
  "range_handle chunk = Option.bind (change_context chunk) (strip_prefix RANGE_PREFIX)"

definition match_chunk :: "resolver \<Rightarrow> chunk_matcher \<Rightarrow> nat \<Rightarrow> chunk_cursor \<Rightarrow> pass \<Rightarrow>
    (chunk_flow \<times> chunk_cursor) outcome" where
  "match_chunk resolve m chunk_index cursor pass =
     (case range_handle (cm_chunks m ! chunk_index) of
        Some handle \<Rightarrow> next_chunk (match_range m chunk_index handle cursor)
      | None \<Rightarrow>
     (case locate m chunk_index cursor (pass \<noteq> InOrder) of
        Err reason \<Rightarrow> if pass \<noteq> Primary then trial_miss else missing_error chunk_index reason
      | Ok (Site site) \<Rightarrow> next_chunk (place m chunk_index site cursor False)
      | Ok (Relocated site) \<Rightarrow> next_chunk (place m chunk_index site cursor True)
      | Ok (Ambiguous am) \<Rightarrow>
          if pass \<noteq> Primary then trial_miss
          else if am_out_of_order_after am \<noteq> None then mismatch AmbiguousMatch chunk_index
          else resolve chunk_index cursor am))"

fun match_loop :: "resolver \<Rightarrow> chunk_matcher \<Rightarrow> nat list \<Rightarrow> chunk_cursor \<Rightarrow> pass \<Rightarrow> chunk_cursor outcome" where
  "match_loop resolve m [] cursor pass = Ok cursor"
| "match_loop resolve m (chunk_index # indices) cursor pass =
     and_then (match_chunk resolve m chunk_index cursor pass) (\<lambda>(flow, c).
       case flow of Finished \<Rightarrow> Ok c | Next \<Rightarrow> match_loop resolve m indices c pass)"

definition match_from :: "resolver \<Rightarrow> chunk_matcher \<Rightarrow> nat \<Rightarrow> chunk_cursor \<Rightarrow> pass \<Rightarrow> chunk_cursor outcome" where
  "match_from resolve m first_index cursor pass =
     match_loop resolve m [first_index..<length (cm_chunks m)] cursor pass"

definition no_nested_search :: resolver where
  "no_nested_search = (\<lambda>_ _ _. Err Panicked)"

fun try_passes :: "chunk_matcher \<Rightarrow> nat \<Rightarrow> bool \<Rightarrow> (nat \<times> chunk_cursor) list \<Rightarrow> pass list \<Rightarrow>
    (chunk_flow \<times> chunk_cursor) outcome" where
  "try_passes m chunk_index placed_everywhere placed [] = mismatch AmbiguousMatch chunk_index"
| "try_passes m chunk_index placed_everywhere placed (pass # passes) =
     and_then (viable_trials (\<lambda>trial. match_from no_nested_search m (chunk_index + 1) trial pass) placed)
       (\<lambda>viable.
          if viable = [] then try_passes m chunk_index placed_everywhere placed passes
          else if \<not> placed_everywhere then mismatch AmbiguousMatch chunk_index
          else and_then (write_same_bytes m viable) (\<lambda>same.
                 if same then Ok (Finished, snd (hd viable)) else mismatch AmbiguousMatch chunk_index))"

definition disambiguate :: "chunk_matcher \<Rightarrow> resolver" where
  "disambiguate m chunk_index cursor am =
     (let candidates = candidate_starts m am in
      if DISAMBIGUATION_CANDIDATE_LIMIT < length candidates then mismatch AmbiguousMatch chunk_index
      else and_then (place_candidates m chunk_index am cursor candidates) (\<lambda>(placed, placed_everywhere).
             try_passes m chunk_index placed_everywhere placed [InOrder, Relocating]))"

definition compute_replacements :: "chunk_matcher \<Rightarrow> (nat \<times> nat \<times> string list) list outcome" where
  "compute_replacements m =
     and_then (match_from (disambiguate m) m 0 default_cursor Primary) (\<lambda>cursor.
       Ok (into_sorted_replacements cursor))"

section \<open>Writing the result\<close>

fun apply_descending :: "'a list \<Rightarrow> (nat \<times> nat \<times> 'a list) list \<Rightarrow> 'a list outcome" where
  "apply_descending lines [] = Ok lines"
| "apply_descending lines ((start_idx, old_len, new_segment) # rest) =
     and_then (splice start_idx (start_idx + old_len) new_segment lines) (\<lambda>ls. apply_descending ls rest)"

definition apply_replacements :: "'a list \<Rightarrow> (nat \<times> nat \<times> 'a list) list \<Rightarrow> 'a list outcome" where
  "apply_replacements lines replacements = apply_descending lines (rev replacements)"

definition terminate_lines :: "string \<Rightarrow> string list \<Rightarrow> string list" where
  "terminate_lines newline lines =
     (if lines = [] then []
      else map (\<lambda>line. if ends_with [LF] line then line else line @ newline) (butlast lines) @ [last lines])"

definition restore_final_newline :: "string \<Rightarrow> string list \<Rightarrow> string list" where
  "restore_final_newline original lines =
     (if original \<noteq> [] \<and> \<not> ends_with [LF] original \<and> lines \<noteq> [] \<and> ends_with [LF] (last lines) then
        butlast lines @ [take (length (last lines) - (if ends_with CRLF (last lines) then 2 else 1)) (last lines)]
      else lines)"

definition matcher_of :: "(string \<Rightarrow> string) \<Rightarrow> (string list \<Rightarrow> string list \<Rightarrow> diff_op list) \<Rightarrow>
    prepared_source \<Rightarrow> update_file_chunk list \<Rightarrow> chunk_matcher" where
  "matcher_of sha256 diff source chunks =
     \<lparr>cm_original_lines = ps_logical_lines source, cm_original_contents = ps_contents source,
      cm_chunks = chunks, cm_source_hash = sha256 (ps_contents source), cm_diff = diff\<rparr>"

definition push_newlines :: "string \<Rightarrow> (nat \<times> nat \<times> string list) list \<Rightarrow> (nat \<times> nat \<times> string list) list" where
  "push_newlines newline replacements = map (\<lambda>(s, l, lines). (s, l, map (\<lambda>t. t @ newline) lines)) replacements"

definition textual_contents :: "(string \<Rightarrow> string) \<Rightarrow> (string list \<Rightarrow> string list \<Rightarrow> diff_op list) \<Rightarrow>
    prepared_source \<Rightarrow> update_file_chunk list \<Rightarrow> string outcome" where
  "textual_contents sha256 diff source chunks =
     and_then (compute_replacements (matcher_of sha256 diff source chunks)) (\<lambda>replacements.
     and_then (apply_replacements (ps_physical_lines source) (push_newlines (ps_newline source) replacements))
       (\<lambda>new_lines.
          Ok (concat (restore_final_newline (ps_contents source)
                (terminate_lines (ps_newline source) new_lines)))))"

end
