(* ===== verification/Matcher_Edits.thy ===== *)
theory Matcher_Edits
  imports Chunk_Matcher
begin

text \<open>
  What the replacements of the matcher mean. A list of replacements is read forwards by \<open>merged\<close>;
  the code applies it backwards by splicing, which is the same for sorted replacements that do not
  overlap (\<open>apply_replacements_merged\<close>). The edit operations the code derives from the line kinds
  of a chunk are such a list, and turn the chunk's old lines into its new lines.
\<close>

section \<open>Reading replacements forwards\<close>

fun merged :: "nat \<Rightarrow> 'a list \<Rightarrow> (nat \<times> nat \<times> 'a list) list \<Rightarrow> 'a list" where
  "merged pos lines [] = drop pos lines"
| "merged pos lines ((s, l, new) # rs) = take (s - pos) (drop pos lines) @ new @ merged (s + l) lines rs"

fun ordered_from :: "nat \<Rightarrow> nat \<Rightarrow> (nat \<times> nat \<times> 'a list) list \<Rightarrow> bool" where
  "ordered_from n pos [] \<longleftrightarrow> pos \<le> n"
| "ordered_from n pos ((s, l, new) # rs) \<longleftrightarrow> pos \<le> s \<and> ordered_from n (s + l) rs"

lemma ordered_from_le: "ordered_from n pos rs \<Longrightarrow> pos \<le> n"
  by (induction n pos rs rule: ordered_from.induct) auto

lemma take_merged:
  assumes "ordered_from (length lines) pos rs" "k \<le> pos"
  shows "take k lines @ merged k lines rs = take pos lines @ merged pos lines rs"
proof (cases rs)
  case Nil
  with assms show ?thesis by simp
next
  case (Cons r rs')
  obtain s l new where r: "r = (s, l, new)" by (cases r)
  have "take k lines @ take (s - k) (drop k lines) = take s lines" if "k \<le> s" for k
    using that by (metis le_add_diff_inverse take_add)
  then show ?thesis using assms Cons r by (simp flip: append_assoc)
qed

lemma apply_descending_append:
  "apply_descending lines (rs @ rs') = and_then (apply_descending lines rs) (\<lambda>ls. apply_descending ls rs')"
  by (induction lines rs rule: apply_descending.induct) (auto split: prod.split simp: splice_def)

lemma apply_replacements_prefix:
  assumes "ordered_from (length lines) pos rs"
  shows "apply_replacements lines rs = Ok (take pos lines @ merged pos lines rs)"
  using assms
proof (induction rs arbitrary: pos)
  case Nil
  then show ?case by (simp add: apply_replacements_def)
next
  case (Cons r rs)
  obtain s l new where r: "r = (s, l, new)" by (cases r)
  with Cons.prems have s: "pos \<le> s" and rs: "ordered_from (length lines) (s + l) rs" by auto
  have n: "s + l \<le> length lines" using ordered_from_le[OF rs] .
  have split: "take pos lines @ take (s - pos) (drop pos lines) = take s lines"
    using s by (metis le_add_diff_inverse take_add)
  have "apply_replacements lines (r # rs) =
      splice s (s + l) new (take (s + l) lines @ merged (s + l) lines rs)"
    using Cons.IH[OF rs] r
    by (simp add: apply_replacements_def apply_descending_append)
       (cases "splice s (s + l) new (take (s + l) lines @ merged (s + l) lines rs)"; simp)
  also have "\<dots> = Ok (take s lines @ new @ merged (s + l) lines rs)"
    using n by (simp add: splice_def)
  finally show ?case using r split by (simp flip: append_assoc)
qed

lemma apply_replacements_merged:
  "ordered_from (length lines) 0 rs \<Longrightarrow> apply_replacements lines rs = Ok (merged 0 lines rs)"
  using apply_replacements_prefix[of lines 0 rs] by simp

text \<open>Lines outside every replaced range are kept, in order.\<close>

definition untouched :: "(nat \<times> nat \<times> 'a list) list \<Rightarrow> nat set" where
  "untouched rs = {i. \<forall>(s, l, new) \<in> set rs. i < s \<or> s + l \<le> i}"

lemma subseq_nths: "subseq (nths xs A) xs"
  by (auto simp: subseq_conv_nths)

lemma nths_none: "(\<And>i. i < length xs \<Longrightarrow> i \<notin> A) \<Longrightarrow> nths xs A = []"
  by (simp add: set_nths flip: set_empty)

lemma merged_untouched:
  assumes "ordered_from (length lines) pos rs"
  shows "subseq (nths (drop pos lines) {i. i + pos \<in> untouched rs}) (merged pos lines rs)"
  using assms
proof (induction rs arbitrary: pos)
  case Nil
  then show ?case by (simp add: subseq_nths)
next
  case (Cons r rs)
  obtain s l new where r: "r = (s, l, new)" by (cases r)
  with Cons.prems have s: "pos \<le> s" and rs: "ordered_from (length lines) (s + l) rs" by auto
  have n: "s + l \<le> length lines" using ordered_from_le[OF rs] .
  let ?U = "untouched (r # rs)"
  have split: "drop pos lines = take (s - pos) (drop pos lines) @ take l (drop s lines) @ drop (s + l) lines"
  proof -
    have "drop pos lines = take (s - pos) (drop pos lines) @ drop s lines"
      using s by (metis append_take_drop_id drop_drop le_add_diff_inverse2)
    also have "drop s lines = take l (drop s lines) @ drop (s + l) lines"
      by (metis append_take_drop_id drop_drop add.commute)
    finally show ?thesis .
  qed
  have len: "length (take (s - pos) (drop pos lines)) = s - pos" "length (take l (drop s lines)) = l"
    using n s by auto
  have hit: "nths (take l (drop s lines)) {j. j + s \<in> ?U} = []"
    by (rule nths_none) (auto simp: r untouched_def)
  have tail: "{j. j + (s + l) \<in> ?U} = {j. j + (s + l) \<in> untouched rs}"
    by (auto simp: untouched_def r)
  have "nths (drop pos lines) {i. i + pos \<in> ?U} =
      nths (take (s - pos) (drop pos lines)) {i. i + pos \<in> ?U} @
      nths (take l (drop s lines)) {j. j + s \<in> ?U} @ nths (drop (s + l) lines) {j. j + (s + l) \<in> ?U}"
    using s by (subst split) (simp add: nths_append len[simplified] add.assoc add.commute add.left_commute)
  also have "subseq \<dots> (take (s - pos) (drop pos lines) @ new @ merged (s + l) lines rs)"
    unfolding hit append_Nil tail
    by (intro list_emb_append_mono subseq_nths) (use Cons.IH[OF rs] in \<open>simp add: list_emb_append2\<close>)
  finally show ?case by (simp add: r)
qed

section \<open>The edit script of a chunk\<close>

definition op_replacement :: "string list \<Rightarrow> diff_op \<Rightarrow> nat \<times> nat \<times> string list" where
  "op_replacement news operation =
     (case (old_range operation, new_range operation) of
        ((s, e), (ns, ne)) \<Rightarrow> (s, e - s, take (ne - ns) (drop ns news)))"

definition op_ok :: "nat \<Rightarrow> nat \<Rightarrow> nat \<Rightarrow> diff_op \<Rightarrow> bool" where
  "op_ok old_len new_len pos operation \<longleftrightarrow>
     \<not> is_equal_op operation \<and> pos \<le> fst (old_range operation)
     \<and> fst (old_range operation) \<le> snd (old_range operation) \<and> snd (old_range operation) \<le> old_len
     \<and> fst (new_range operation) \<le> snd (new_range operation) \<and> snd (new_range operation) \<le> new_len"

definition op_before :: "diff_op \<Rightarrow> diff_op \<Rightarrow> bool" where
  "op_before o1 o2 \<longleftrightarrow> snd (old_range o1) < fst (old_range o2)"

text \<open>
  An edit script from old position \<open>pos\<close> and new position \<open>npos\<close> on: its operations are in range
  and separated by context, and rewrite the rest of the old lines into the rest of the new lines.
\<close>

definition script_from :: "string list \<Rightarrow> string list \<Rightarrow> nat \<Rightarrow> nat \<Rightarrow> diff_op list \<Rightarrow> bool" where
  "script_from olds news pos npos ops \<longleftrightarrow>
     list_all (op_ok (length olds) (length news) pos) ops \<and> sorted_wrt op_before ops
     \<and> merged pos olds (map (op_replacement news) ops) = drop npos news"

lemma group_op_ranges:
  "old_range (group_op oi ni ol nl) = (oi, oi + ol)" "new_range (group_op oi ni ol nl) = (ni, ni + nl)"
  "\<not> is_equal_op (group_op oi ni ol nl)"
  by (simp_all add: group_op_def)

lemma drop_Cons_nth: "drop n xs = x # ys \<Longrightarrow> drop (Suc n) xs = ys \<and> n < length xs"
  by (metis drop_Suc tl_drop list.sel(3) drop_eq_Nil2 list.distinct(1) not_le)

lemma script_context:
  assumes ops: "script_from olds news (Suc pos) (Suc npos) ops"
    and x: "drop pos olds = x # os" "drop npos news = x # ns"
  shows "script_from olds news pos npos ops"
proof -
  from x have d: "drop (Suc pos) olds = os" "drop (Suc npos) news = ns" by (auto dest: drop_Cons_nth)
  have "merged pos olds (map (op_replacement news) ops) = x # merged (Suc pos) olds (map (op_replacement news) ops)"
  proof (cases ops)
    case Nil
    with x d show ?thesis by simp
  next
    case (Cons r rs)
    then have "Suc pos \<le> fst (old_range r)" using ops by (simp add: script_from_def op_ok_def)
    then obtain k where "fst (old_range r) - pos = Suc k" "fst (old_range r) - Suc pos = k"
      by (metis Suc_diff_Suc Suc_le_lessD)
    with Cons x d show ?thesis by (auto simp: op_replacement_def split: prod.splits)
  qed
  with ops x d show ?thesis
    by (auto simp: script_from_def op_ok_def list_all_iff)
qed

lemma script_group:
  assumes ops: "script_from olds news (Suc pos) (Suc npos) ops" and x: "drop pos olds = x # os" "drop npos news = x # ns"
    and le: "oi \<le> pos" "ni \<le> npos"
  shows "script_from olds news oi ni (group_op oi ni (pos - oi) (npos - ni) # ops)"
proof -
  let ?g = "group_op oi ni (pos - oi) (npos - ni)"
  from x have len: "pos < length olds" "npos < length news" by (auto dest: drop_Cons_nth)
  have "script_from olds news pos npos ops" by (rule script_context[OF ops x])
  then have m: "merged pos olds (map (op_replacement news) ops) = drop npos news"
    by (simp add: script_from_def)
  have "take (npos - ni) (drop ni news) @ drop npos news = drop ni news"
    using le by (metis append_take_drop_id drop_drop le_add_diff_inverse2)
  then have "merged oi olds (map (op_replacement news) (?g # ops)) = drop ni news"
    using m le by (simp add: op_replacement_def group_op_ranges)
  moreover have "op_ok (length olds) (length news) oi ?g"
    using le len by (simp add: op_ok_def group_op_ranges)
  moreover have "op_before ?g p" if "p \<in> set ops" for p
    using that ops le by (auto simp: script_from_def op_ok_def list_all_iff op_before_def group_op_ranges)
  ultimately show ?thesis
    using ops le by (auto simp: script_from_def list_all_iff op_ok_def)
qed

lemma script_last_group:
  assumes "oi \<le> length olds" "ni \<le> length news"
  shows "script_from olds news oi ni [group_op oi ni (length olds - oi) (length news - ni)]"
  using assms by (auto simp: script_from_def op_ok_def group_op_ranges op_replacement_def)

definition base :: "(nat \<times> nat) option \<Rightarrow> nat \<Rightarrow> nat \<Rightarrow> nat \<times> nat" where
  "base g pos npos = (case g of None \<Rightarrow> (pos, npos) | Some p \<Rightarrow> p)"

lemma edit_loop_script:
  assumes "aligned ks (drop pos olds) (drop npos news)" "pos \<le> length olds" "npos \<le> length news"
    and "fst (base g pos npos) \<le> pos" "snd (base g pos npos) \<le> npos"
  shows "\<exists>ops. edit_loop (length olds) (length news) pos npos g acc (ks @ [Context]) =
      Ok (length olds + 1, length news + 1, acc @ ops)
    \<and> script_from olds news (fst (base g pos npos)) (snd (base g pos npos)) ops"
  using assms
proof (induction ks arbitrary: pos npos g acc)
  case Nil
  then have end': "pos = length olds" "npos = length news" by auto
  show ?case
  proof (cases g)
    case None
    with end' show ?thesis by (simp add: base_def script_from_def)
  next
    case (Some p)
    with Nil.prems end' script_last_group[of "fst p" olds "snd p" news] show ?thesis
      by (cases p) (simp add: base_def)
  qed
next
  case (Cons k ks)
  show ?case
  proof (cases k)
    case Context
    with Cons.prems(1) obtain x os ns where x: "drop pos olds = x # os" "drop npos news = x # ns"
      and al: "aligned ks os ns" by (auto elim: aligned.elims)
    from x have d: "drop (Suc pos) olds = os" "drop (Suc npos) news = ns"
      and len: "pos < length olds" "npos < length news" by (auto dest: drop_Cons_nth)
    from Cons.IH[of "Suc pos" "Suc npos" None] al d len
    have IH: "\<exists>ops. edit_loop (length olds) (length news) (Suc pos) (Suc npos) None acc' (ks @ [Context]) =
        Ok (length olds + 1, length news + 1, acc' @ ops) \<and> script_from olds news (Suc pos) (Suc npos) ops" for acc'
      by (simp add: base_def)
    show ?thesis
    proof (cases g)
      case None
      with IH[of acc] Context script_context[OF _ x] show ?thesis by (auto simp: base_def)
    next
      case (Some p)
      obtain oi ni where p: "p = (oi, ni)" by (cases p)
      from IH[of "acc @ [group_op oi ni (pos - oi) (npos - ni)]"] Some p Context len
        script_group[OF _ x, of _ oi ni] Cons.prems(4,5)
      show ?thesis by (fastforce simp: base_def)
    qed
  next
    case Add
    with Cons.prems(1) obtain y ns where y: "drop npos news = y # ns" and al: "aligned ks (drop pos olds) ns"
      by (auto elim: aligned.elims)
    from y have d: "drop (Suc npos) news = ns" "npos < length news" by (auto dest: drop_Cons_nth)
    let ?g = "Some (case g of None \<Rightarrow> (pos, npos) | Some g \<Rightarrow> g)"
    have "base ?g pos (Suc npos) = base g pos npos" by (simp add: base_def split: option.split)
    with Cons.IH[of pos "Suc npos" ?g acc] Add d al Cons.prems show ?thesis by simp
  next
    case Remove
    with Cons.prems(1) obtain y os where y: "drop pos olds = y # os" and al: "aligned ks os (drop npos news)"
      by (auto elim: aligned.elims)
    from y have d: "drop (Suc pos) olds = os" "pos < length olds" by (auto dest: drop_Cons_nth)
    let ?g = "Some (case g of None \<Rightarrow> (pos, npos) | Some g \<Rightarrow> g)"
    have "base ?g (Suc pos) npos = base g pos npos" by (simp add: base_def split: option.split)
    with Cons.IH[of "Suc pos" npos ?g acc] Remove d al Cons.prems show ?thesis by simp
  qed
qed

lemma chunk_edit_operations_script:
  assumes "chunk_wf c" "line_kinds c \<noteq> []"
  obtains ops where "chunk_edit_operations diff c (old_lines c) = Ok ops"
    "script_from (old_lines c) (new_lines c) 0 0 ops"
proof -
  from edit_loop_script[of "line_kinds c" 0 "old_lines c" 0 "new_lines c" None "[]"] assms(1)
  obtain ops where "edit_loop (length (old_lines c)) (length (new_lines c)) 0 0 None [] (line_kinds c @ [Context]) =
      Ok (length (old_lines c) + 1, length (new_lines c) + 1, ops)"
    and "script_from (old_lines c) (new_lines c) 0 0 ops"
    by (auto simp: chunk_wf_def base_def)
  with assms(2) that show thesis by (simp add: chunk_edit_operations_def)
qed

end
