(* ===== verification/Matcher_Invariant.thy ===== *)
theory Matcher_Invariant
  imports Matcher_Edits "HOL-Library.Multiset"
begin

text \<open>
  The invariant of the matcher's cursor and what follows from it: chunks claim disjoint nonempty
  regions of the file, every replacement stays inside the region of its chunk, and the replacements
  sorted the way the code sorts them never overlap, also when chunks were listed out of file order.
  Hence no index or splice of the matcher is out of range: matching and applying never panic.
\<close>

section \<open>Compatible replacements\<close>

definition rep_end :: "replacement \<Rightarrow> nat" where
  "rep_end r = rep_start r + rep_old_len r"

definition compatible :: "replacement \<Rightarrow> replacement \<Rightarrow> bool" where
  "compatible r1 r2 \<longleftrightarrow>
     (rep_key r1 \<le> rep_key r2 \<longrightarrow> rep_end r1 \<le> rep_start r2) \<and>
     (rep_key r2 \<le> rep_key r1 \<longrightarrow> rep_end r2 \<le> rep_start r1)"

definition owned :: "claimed_span \<Rightarrow> replacement \<Rightarrow> bool" where
  "owned c r \<longleftrightarrow> rep_order r = claim_start c \<and> claim_start c \<le> rep_start r \<and> rep_end r \<le> claim_end c"

definition bare :: "nat \<Rightarrow> replacement \<Rightarrow> bool" where
  "bare n r \<longleftrightarrow> rep_start r = n \<and> rep_old_len r = 0"

lemma compatible_sym: "compatible r1 r2 \<longleftrightarrow> compatible r2 r1"
  by (auto simp: compatible_def)

lemma overlaps_sym: "overlaps a b \<longleftrightarrow> overlaps b a"
  by (auto simp: overlaps_def)

lemma owned_compatible:
  assumes "owned c1 r1" "owned c2 r2" "\<not> overlaps c1 c2"
    and "claim_start c1 < claim_end c1" "claim_start c2 < claim_end c2"
  shows "compatible r1 r2"
  using assms by (auto simp: compatible_def owned_def overlaps_def rep_key_def rep_end_def not_less)

lemma bare_compatible: "bare n r1 \<Longrightarrow> rep_end r2 \<le> n \<Longrightarrow> compatible r1 r2"
  by (auto simp: compatible_def bare_def rep_key_def rep_end_def)

lemma sorted_wrt_mset:
  assumes sym: "\<And>x y. P x y \<longleftrightarrow> P y x" and xs: "sorted_wrt P xs" and perm: "mset ys = mset xs"
  shows "sorted_wrt P ys"
  using xs perm
proof (induction ys arbitrary: xs)
  case (Cons y ys)
  have "y \<in> set xs" using Cons.prems(2) by (metis list.set_intros(1) set_mset_mset)
  then obtain a b where ab: "xs = a @ y # b" by (meson split_list)
  with Cons.prems(2) have m: "mset ys = mset (a @ b)" by simp
  from Cons.prems(1) ab have s: "sorted_wrt P (a @ b)" by (simp add: sorted_wrt_append)
  have "\<forall>z\<in>set (a @ b). P y z" using Cons.prems(1) ab sym by (auto simp: sorted_wrt_append)
  moreover have "set ys = set (a @ b)" using m by (metis set_mset_mset)
  ultimately show ?case using Cons.IH[OF s m] by simp
qed simp

lemma sorted_compatible_ordered:
  assumes "sorted_wrt compatible rs" "sorted (map rep_key rs)" "\<forall>r\<in>set rs. pos \<le> rep_start r \<and> rep_end r \<le> n"
    and "pos \<le> n"
  shows "ordered_from n pos (map (\<lambda>r. (rep_start r, rep_old_len r, f (rep_new_lines r))) rs)"
  using assms
proof (induction rs arbitrary: pos)
  case (Cons r rs)
  have "\<forall>q\<in>set rs. rep_end r \<le> rep_start q \<and> rep_end q \<le> n"
    using Cons.prems(1-3) by (auto simp: compatible_def)
  moreover have "rep_end r \<le> n" using Cons.prems(3) by simp
  ultimately have "ordered_from n (rep_end r) (map (\<lambda>r. (rep_start r, rep_old_len r, f (rep_new_lines r))) rs)"
    using Cons.IH[of "rep_end r"] Cons.prems(1,2) by simp
  with Cons.prems(3) show ?case by (simp add: rep_end_def)
qed simp

section \<open>The cursor invariant\<close>

text \<open>
  Where a replacement comes from: the chunk that asked for it lists the lines it writes and, byte
  for byte, the lines it removes; a revision-bound range may leave the removed lines out, after
  its hash of the whole file matched.
\<close>

definition removed_lines :: "string list \<Rightarrow> replacement \<Rightarrow> string list" where
  "removed_lines lines r = take (rep_old_len r) (drop (rep_start r) lines)"

definition asked_by :: "chunk_matcher \<Rightarrow> update_file_chunk \<Rightarrow> replacement \<Rightarrow> bool" where
  "asked_by m chunk r \<longleftrightarrow>
     sublist (rep_new_lines r) (new_lines chunk)
     \<and> (sublist (removed_lines (cm_original_lines m) r) (old_lines chunk)
        \<or> range_handle chunk \<noteq> None \<and> old_lines chunk = []
          \<and> (\<exists>h. hash_ref_ok h \<and> source_hash_matches h (cm_source_hash m)))"

definition cursor_inv :: "chunk_matcher \<Rightarrow> chunk_cursor \<Rightarrow> bool" where
  "cursor_inv m c \<longleftrightarrow>
     cc_line_index c \<le> length (cm_original_lines m)
     \<and> (\<forall>s\<in>set (cc_claimed c). claim_start s < claim_end s \<and> claim_end s \<le> cc_line_index c)
     \<and> sorted_wrt (\<lambda>s t. \<not> overlaps s t) (cc_claimed c)
     \<and> (\<forall>r\<in>set (cc_replacements c).
          bare (length (cm_original_lines m)) r \<or> (\<exists>s\<in>set (cc_claimed c). owned s r))
     \<and> sorted_wrt compatible (cc_replacements c)
     \<and> (\<forall>r\<in>set (cc_replacements c). \<exists>chunk\<in>set (cm_chunks m). asked_by m chunk r)
     \<and> (cc_anchored c \<longrightarrow> (\<exists>s\<in>set (cc_claimed c). claim_end s = cc_line_index c))"

lemma default_cursor_inv [simp]: "cursor_inv m default_cursor"
  by (simp add: cursor_inv_def default_cursor_def)

lemma cursor_inv_end:
  assumes "cursor_inv m c" "r \<in> set (cc_replacements c)"
  shows "rep_end r \<le> length (cm_original_lines m)"
  using assms by (fastforce simp: cursor_inv_def bare_def rep_end_def owned_def)

lemma cursor_inv_ordered:
  assumes inv: "cursor_inv m c"
  shows "ordered_from (length (cm_original_lines m)) 0
     (map (\<lambda>r. (rep_start r, rep_old_len r, f (rep_new_lines r))) (sort_key rep_key (cc_replacements c)))"
proof (rule sorted_compatible_ordered)
  show "sorted_wrt compatible (sort_key rep_key (cc_replacements c))"
    by (rule sorted_wrt_mset[OF compatible_sym, where xs = "cc_replacements c"])
       (use inv in \<open>auto simp: cursor_inv_def\<close>)
  show "\<forall>r\<in>set (sort_key rep_key (cc_replacements c)). 0 \<le> rep_start r \<and> rep_end r \<le> length (cm_original_lines m)"
    using cursor_inv_end[OF inv] by simp
qed auto

text \<open>A chunk adds replacements that are compatible with each other inside a region no other chunk claims.\<close>

lemma cursor_inv_claim:
  assumes inv: "cursor_inv m c"
    and new: "sorted_wrt compatible rs" "\<forall>r\<in>set rs. owned s r" "claim_start s < claim_end s"
    and free: "\<forall>t\<in>set (cc_claimed c). \<not> overlaps t s"
    and asked: "\<forall>r\<in>set rs. \<exists>chunk\<in>set (cm_chunks m). asked_by m chunk r"
    and idx: "claim_end s \<le> i" "cc_line_index c \<le> i" "i \<le> length (cm_original_lines m)"
    and anch: "a \<longrightarrow> claim_end s = i \<or> (i = cc_line_index c \<and> cc_anchored c)"
  shows "cursor_inv m (c\<lparr>cc_replacements := cc_replacements c @ rs, cc_claimed := cc_claimed c @ [s],
    cc_line_index := i, cc_anchored := a\<rparr>)"
proof -
  let ?n = "length (cm_original_lines m)"
  have bound: "\<forall>r\<in>set rs. rep_end r \<le> ?n" using new(2) idx by (auto simp: owned_def)
  have "compatible q r" if q: "q \<in> set (cc_replacements c)" and r: "r \<in> set rs" for q r
  proof -
    from inv q consider "bare ?n q" | t where "t \<in> set (cc_claimed c)" "owned t q"
      by (auto simp: cursor_inv_def)
    then show ?thesis
    proof cases
      case 1
      then show ?thesis using bare_compatible bound r by blast
    next
      case (2 t)
      then show ?thesis using owned_compatible[of t q s r] new free inv r by (auto simp: cursor_inv_def)
    qed
  qed
  then have "sorted_wrt compatible (cc_replacements c @ rs)"
    using inv new(1) by (simp add: sorted_wrt_append cursor_inv_def)
  moreover have "sorted_wrt (\<lambda>s t. \<not> overlaps s t) (cc_claimed c @ [s])"
    using inv free by (simp add: sorted_wrt_append cursor_inv_def)
  moreover have "\<forall>t\<in>set (cc_claimed c @ [s]). claim_start t < claim_end t \<and> claim_end t \<le> i"
    using inv new(3) idx by (auto simp: cursor_inv_def)
  moreover have "\<forall>r\<in>set (cc_replacements c @ rs). bare ?n r \<or> (\<exists>t\<in>set (cc_claimed c @ [s]). owned t r)"
    using inv new(2) by (auto simp: cursor_inv_def)
  moreover have "\<forall>r\<in>set (cc_replacements c @ rs). \<exists>chunk\<in>set (cm_chunks m). asked_by m chunk r"
    using inv asked by (auto simp: cursor_inv_def)
  moreover have "a \<longrightarrow> (\<exists>t\<in>set (cc_claimed c @ [s]). claim_end t = i)"
    using inv anch by (auto simp: cursor_inv_def)
  ultimately show ?thesis using idx(3) unfolding cursor_inv_def by simp
qed

lemma cursor_inv_bare:
  assumes inv: "cursor_inv m c" and r: "bare (length (cm_original_lines m)) r"
    and asked: "\<exists>chunk\<in>set (cm_chunks m). asked_by m chunk r"
  shows "cursor_inv m (c\<lparr>cc_replacements := cc_replacements c @ [r]\<rparr>)"
proof -
  have "compatible q r" if "q \<in> set (cc_replacements c)" for q
    using bare_compatible[OF r] cursor_inv_end[OF inv that] compatible_sym by blast
  with inv r asked show ?thesis by (fastforce simp: cursor_inv_def sorted_wrt_append)
qed

section \<open>Placing a chunk\<close>

definition not_panicked :: "'a outcome \<Rightarrow> bool" where
  "not_panicked r \<longleftrightarrow> r \<noteq> Err Panicked"

lemma not_panicked_simps [simp]:
  "not_panicked (Ok x)" "not_panicked (Err e) \<longleftrightarrow> e \<noteq> Panicked" "not_panicked (mismatch k i)"
  by (auto simp: not_panicked_def mismatch_def)

lemma not_panicked_and_then:
  "not_panicked r \<Longrightarrow> (\<And>x. r = Ok x \<Longrightarrow> not_panicked (f x)) \<Longrightarrow> not_panicked (and_then r f)"
  by (cases r) auto

lemma not_panicked_catch [simp]: "not_panicked (catch_err r) \<longleftrightarrow> not_panicked r"
  by (cases r) (auto simp: not_panicked_def)

lemma mismatch_not_Ok [simp]: "mismatch k i \<noteq> Ok x"
  by (simp add: mismatch_def)

lemma and_then_mismatch [simp]: "and_then (mismatch k i) f = mismatch k i"
  by (simp add: mismatch_def)

text \<open>Removed lines must equal the source byte for byte, whatever tier located the chunk.\<close>

lemma check_removed_spec:
  assumes "\<forall>k\<in>set ks. k < length pattern \<and> st + k < length lines"
  shows "not_panicked (check_removed lines pattern i st ks)"
    "check_removed lines pattern i st ks = Ok u \<longleftrightarrow> (\<forall>k\<in>set ks. pattern ! k = lines ! (st + k))"
  using assms by (induction ks) (auto simp: get_index_def)

definition placed_replacement :: "nat \<Rightarrow> nat \<Rightarrow> string list \<Rightarrow> diff_op \<Rightarrow> replacement" where
  "placed_replacement st order news operation =
     (case op_replacement news operation of
        (s, l, new) \<Rightarrow> \<lparr>rep_start = st + s, rep_old_len = l, rep_new_lines = new, rep_order = order\<rparr>)"

definition exact_removal :: "string list \<Rightarrow> string list \<Rightarrow> nat \<Rightarrow> diff_op \<Rightarrow> bool" where
  "exact_removal lines pattern st operation \<longleftrightarrow>
     (\<forall>k. fst (old_range operation) \<le> k \<and> k < snd (old_range operation) \<longrightarrow> pattern ! k = lines ! (st + k))"

lemma place_operations_spec:
  fixes m i
  defines "chunk \<equiv> cm_chunks m ! i"
  assumes "list_all (op_ok (length (old_lines chunk)) (length (new_lines chunk)) 0) ops"
    and "st + length (old_lines chunk) \<le> length (cm_original_lines m)"
  shows "not_panicked (place_operations m i st order ops c) \<and>
    (place_operations m i st order ops c = Ok c' \<longleftrightarrow>
       list_all (exact_removal (cm_original_lines m) (old_lines chunk) st) ops \<and>
       c' = c\<lparr>cc_replacements := cc_replacements c @ map (placed_replacement st order (new_lines chunk)) ops\<rparr>)"
  using assms(2)
proof (induction ops arbitrary: c)
  case (Cons operation ops)
  obtain s e ns ne where r: "old_range operation = (s, e)" "new_range operation = (ns, ne)" by fastforce
  with Cons.prems have ok: "\<not> is_equal_op operation" "e \<le> length (old_lines chunk)" "ns \<le> ne"
    "ne \<le> length (new_lines chunk)" "s \<le> e" by (auto simp: op_ok_def)
  let ?check = "check_removed (cm_original_lines m) (old_lines chunk) i st [s..<e]"
  have idx: "\<forall>k\<in>set [s..<e]. k < length (old_lines chunk) \<and> st + k < length (cm_original_lines m)"
    using ok assms(3) by auto
  have check: "not_panicked ?check"
    "?check = Ok u \<longleftrightarrow> exact_removal (cm_original_lines m) (old_lines chunk) st operation" for u
    using check_removed_spec[OF idx] by (auto simp: exact_removal_def r)
  have push: "cursor_push (st + s) (e - s) (take (ne - ns) (drop ns (new_lines chunk))) order c =
      c\<lparr>cc_replacements := cc_replacements c @ [placed_replacement st order (new_lines chunk) operation]\<rparr>"
    by (simp add: cursor_push_def placed_replacement_def op_replacement_def r)
  have step: "place_operations m i st order (operation # ops) c =
      and_then ?check (\<lambda>_. place_operations m i st order ops
        (c\<lparr>cc_replacements := cc_replacements c @ [placed_replacement st order (new_lines chunk) operation]\<rparr>))"
    using ok r push by (simp add: Let_def get_slice_def chunk_def)
  have tail: "list_all (op_ok (length (old_lines chunk)) (length (new_lines chunk)) 0) ops"
    using Cons.prems by simp
  show ?case
    unfolding step using check Cons.IH[OF tail] by (auto intro!: not_panicked_and_then)
qed auto

lemma placed_owned:
  assumes "op_ok olen nlen 0 operation" "claim_start s \<le> st" "st + olen \<le> claim_end s"
  shows "owned s (placed_replacement st (claim_start s) news operation)"
  using assms by (auto simp: owned_def placed_replacement_def op_replacement_def op_ok_def rep_end_def
      split: prod.splits)

lemma placed_compatible:
  assumes "sorted_wrt op_before ops" "list_all (op_ok olen nlen 0) ops"
  shows "sorted_wrt compatible (map (placed_replacement st order news) ops)"
  using assms
proof (induction ops)
  case (Cons o1 ops)
  have "compatible (placed_replacement st order news o1) (placed_replacement st order news o2)"
    if "o2 \<in> set ops" for o2
    using Cons.prems that
    by (auto simp: compatible_def placed_replacement_def op_replacement_def op_before_def op_ok_def
        rep_key_def rep_end_def list_all_iff split: prod.splits)
  with Cons show ?case by simp
qed simp

lemma sublist_slice: "sublist (take a (drop b xs)) xs"
  unfolding sublist_def by (metis append_take_drop_id)

lemma placed_asked:
  fixes chunk
  assumes ok: "op_ok (length (old_lines chunk)) (length (new_lines chunk)) 0 operation"
    and exact: "exact_removal (cm_original_lines m) (old_lines chunk) st operation"
    and fits: "st + length (old_lines chunk) \<le> length (cm_original_lines m)"
  shows "asked_by m chunk (placed_replacement st order (new_lines chunk) operation)"
proof -
  obtain s e ns ne where r: "old_range operation = (s, e)" "new_range operation = (ns, ne)" by fastforce
  with ok have se: "s \<le> e" "e \<le> length (old_lines chunk)" by (auto simp: op_ok_def)
  have "take (e - s) (drop (st + s) (cm_original_lines m)) = take (e - s) (drop s (old_lines chunk))"
  proof (rule nth_equalityI)
    fix k
    assume "k < length (take (e - s) (drop (st + s) (cm_original_lines m)))"
    then have k: "k < e - s" by simp
    then have "old_lines chunk ! (s + k) = cm_original_lines m ! (st + (s + k))"
      using exact r by (auto simp: exact_removal_def)
    with k se fits show "take (e - s) (drop (st + s) (cm_original_lines m)) ! k
        = take (e - s) (drop s (old_lines chunk)) ! k" by (simp add: add.assoc)
  qed (use se fits in auto)
  then show ?thesis
    by (simp add: asked_by_def removed_lines_def placed_replacement_def op_replacement_def r sublist_slice)
qed

section \<open>Locating a chunk\<close>

text \<open>
  A site fits the file; a chunk with an anchor starts right after it, and a bare addition goes to
  the end of the file.
\<close>

definition site_ok :: "chunk_matcher \<Rightarrow> nat \<Rightarrow> chunk_site \<Rightarrow> bool" where
  "site_ok m i site \<longleftrightarrow>
     site_start site + length (old_lines (cm_chunks m ! i)) \<le> length (cm_original_lines m)
     \<and> (case site_anchor site of
          Some a \<Rightarrow> site_start site = a + 1
        | None \<Rightarrow> old_lines (cm_chunks m ! i) = [] \<longrightarrow> site_start site = length (cm_original_lines m))"

definition bare_site :: "chunk_matcher \<Rightarrow> nat \<Rightarrow> chunk_site \<Rightarrow> bool" where
  "bare_site m i site \<longleftrightarrow> site_anchor site = None \<and> old_lines (cm_chunks m ! i) = []"

definition matcher_ok :: "chunk_matcher \<Rightarrow> bool" where
  "matcher_ok m \<longleftrightarrow> list_all chunk_wf (cm_chunks m) \<and> list_all nonempty_chunk (cm_chunks m)
     \<and> length (cm_original_lines m) \<le> usize_max"

lemma claim_nonempty: "site_ok m i site \<Longrightarrow> \<not> bare_site m i site \<Longrightarrow>
    claim_start (site_claim m i site) < claim_end (site_claim m i site)"
  by (auto simp: site_claim_def site_ok_def bare_site_def split: option.splits)

lemma following_anchor_pinned:
  assumes "following_anchor m i a = Some start" "length (cm_original_lines m) \<le> usize_max"
  shows "start = a + 1 \<and> start + length (old_lines (cm_chunks m ! i)) \<le> length (cm_original_lines m)"
proof -
  let ?p = "old_lines (cm_chunks m ! i)"
  have sat: "min (saturating_add (Suc a) (length ?p)) (length (cm_original_lines m)) =
      min (a + 1 + length ?p) (length (cm_original_lines m))"
    using assms(2) by (auto simp: saturating_add_def)
  from assms(1) have "seek_sequence (take (min (a + 1 + length ?p) (length (cm_original_lines m)))
      (cm_original_lines m)) ?p (a + 1) (is_end_of_file (cm_chunks m ! i)) True = Ok (Some start)"
    by (auto simp: following_anchor_def Let_def sat split: result.splits option.splits if_splits)
  from lines_search.pinned[OF this] show ?thesis by auto
qed

lemma seek_none_before:
  assumes "seek_sequence lines p k eof a = Ok None" "seek_sequence lines p 0 eof False = Ok (Some i)" "p \<noteq> []"
  shows "i < k"
proof (rule ccontr)
  assume "\<not> i < k"
  moreover obtain t where "t \<in> set TIERS" "site_matches (tier_key t) lines p i"
    using seek_sequence_found(4)[OF assms(2)] by blast
  ultimately show False
    using seek_sequence_none[OF assms(1,3), of t i] seek_sequence_found(3)[OF assms(2)] by auto
qed

text \<open>What \<^verbatim>\<open>locate\<close> returns, by the two ways a chunk can be found.\<close>

definition in_order_site :: "chunk_matcher \<Rightarrow> nat \<Rightarrow> chunk_cursor \<Rightarrow> chunk_site \<Rightarrow> bool" where
  "in_order_site m i c site \<longleftrightarrow> site_ok m i site \<and>
     (\<not> bare_site m i site \<longrightarrow> cc_line_index c \<le> claim_start (site_claim m i site))"

definition earlier_site :: "chunk_matcher \<Rightarrow> nat \<Rightarrow> chunk_cursor \<Rightarrow> chunk_site \<Rightarrow> bool" where
  "earlier_site m i c site \<longleftrightarrow> site_ok m i site \<and> \<not> bare_site m i site \<and> cc_anchored c
     \<and> claim_start (site_claim m i site) < cc_line_index c"

fun located_ok :: "chunk_matcher \<Rightarrow> nat \<Rightarrow> chunk_cursor \<Rightarrow> located \<Rightarrow> bool" where
  "located_ok m i c (Site site) \<longleftrightarrow> in_order_site m i c site"
| "located_ok m i c (Relocated site) \<longleftrightarrow> earlier_site m i c site"
| "located_ok m i c (Ambiguous am) \<longleftrightarrow>
     (am_out_of_order_after am = None \<longrightarrow> am_start am = cc_line_index c)
     \<and> (if am_context am then \<exists>ctx. am_pattern am = [ctx] else
          am_pattern am = old_lines (cm_chunks m ! i) \<and> am_pattern am \<noteq> [])
     \<and> {first_line (am_error am) - 1, second_line (am_error am) - 1}
         \<subseteq> window_sites (strictness (am_error am)) (cm_original_lines m) (am_pattern am) (am_start am) (am_eof am)"

lemma anchored_site_ok:
  assumes "following_anchor m i a = Some start" "length (cm_original_lines m) \<le> usize_max"
  shows "site_ok m i \<lparr>site_anchor = Some a, site_start = start\<rparr>"
  using following_anchor_pinned[OF assms] by (simp add: site_ok_def)

lemma locate_anchor_ok:
  assumes loc: "locate_lines m i c relocate (Some a) relocated = Ok l"
    and len: "length (cm_original_lines m) \<le> usize_max" and a: "a < length (cm_original_lines m)"
    and pos: "if relocated then cc_anchored c \<and> a < cc_line_index c else cc_line_index c \<le> a"
  shows "located_ok m i c l"
proof (cases "old_lines (cm_chunks m ! i) = []")
  case True
  with loc a pos show ?thesis
    by (auto simp: locate_lines_def Let_def site_of_def in_order_site_def earlier_site_def site_ok_def
        site_claim_def bare_site_def)
next
  case False
  with loc obtain start where start: "following_anchor m i a = Some start"
    and l: "l = site_of relocated \<lparr>site_anchor = Some a, site_start = start\<rparr>"
    by (auto simp: locate_lines_def Let_def split: option.splits)
  from anchored_site_ok[OF start len] l pos show ?thesis
    by (auto simp: site_of_def in_order_site_def earlier_site_def bare_site_def site_claim_def)
qed

lemma locate_unanchored_ok:
  assumes loc: "locate_lines m i c relocate None False = Ok l"
  shows "located_ok m i c l"
proof (cases "old_lines (cm_chunks m ! i) = []")
  case True
  with loc show ?thesis
    by (auto simp: locate_lines_def Let_def site_of_def in_order_site_def site_ok_def bare_site_def)
next
  case p: False
  let ?p = "old_lines (cm_chunks m ! i)" and ?lines = "cm_original_lines m"
    and ?eof = "is_end_of_file (cm_chunks m ! i)"
  have at_eof: "\<not> ?eof \<or> start + length ?p = length ?lines"
    if "seek_sequence ?lines ?p k ?eof a = Ok (Some start)" for k a start
    using seek_sequence_found(3)[OF that] by blast
  show ?thesis
  proof (cases "seek_sequence ?lines ?p (cc_line_index c) ?eof (cc_anchored c)")
    case (Err e)
    with loc p have "l = Ambiguous \<lparr>am_error = e, am_pattern = ?p, am_context = False,
        am_start = cc_line_index c, am_eof = ?eof, am_out_of_order_after = None\<rparr>"
      by (simp add: locate_lines_def Let_def)
    with seek_sequence_ambiguous(5)[OF Err] p show ?thesis by simp
  next
    case (Ok r)
    show ?thesis
    proof (cases r)
      case (Some start)
      with Ok loc p at_eof[of "cc_line_index c" "cc_anchored c" start]
      have "l = Site \<lparr>site_anchor = None, site_start = start\<rparr>"
        by (auto simp: locate_lines_def Let_def)
      with p seek_sequence_found(1,2)[OF Ok[unfolded Some]] show ?thesis
        by (simp add: in_order_site_def site_ok_def site_claim_def)
    next
      case None
      with Ok loc p have rel: "cc_anchored c" "relocate"
        and far: "(case seek_sequence ?lines ?p 0 ?eof False of
             Ok (Some start) \<Rightarrow> if ?eof \<longrightarrow> start + length ?p = length ?lines
               then Ok (Relocated \<lparr>site_anchor = None, site_start = start\<rparr>) else Err Missing_Lines
           | Ok None \<Rightarrow> Err Missing_Lines
           | Err error \<Rightarrow> Ok (Ambiguous \<lparr>am_error = error, am_pattern = ?p, am_context = False, am_start = 0,
                am_eof = ?eof, am_out_of_order_after = Some (cc_line_index c)\<rparr>)) = Ok l"
        by (simp_all add: locate_lines_def Let_def split: if_splits)
      show ?thesis
      proof (cases "seek_sequence ?lines ?p 0 ?eof False")
        case (Err e)
        with far have l: "l = Ambiguous \<lparr>am_error = e, am_pattern = ?p, am_context = False,
            am_start = 0, am_eof = ?eof, am_out_of_order_after = Some (cc_line_index c)\<rparr>" by simp
        from seek_sequence_ambiguous(5)[OF Err] p show ?thesis by (simp add: l)
      next
        case found: (Ok q)
        with far obtain start where q: "q = Some start" by (cases q) auto
        with far found have l: "l = Relocated \<lparr>site_anchor = None, site_start = start\<rparr>"
          by (simp split: if_splits)
        have "start < cc_line_index c"
          by (rule seek_none_before[OF Ok[unfolded None] found[unfolded q] p])
        with l rel p seek_sequence_found(2)[OF found[unfolded q]] show ?thesis
          by (simp add: earlier_site_def site_ok_def site_claim_def bare_site_def)
      qed
    qed
  qed
qed

lemma locate_ok:
  assumes loc: "locate m i c relocate = Ok l" and len: "length (cm_original_lines m) \<le> usize_max"
  shows "located_ok m i c l"
proof (cases "change_context (cm_chunks m ! i)")
  case None
  with loc locate_unanchored_ok show ?thesis by (simp add: locate_def)
next
  case ctx: (Some ctx)
  let ?lines = "cm_original_lines m"
  show ?thesis
  proof (cases "seek_sequence ?lines [ctx] (cc_line_index c) False (cc_anchored c)")
    case (Err e)
    with loc ctx have "l = Ambiguous \<lparr>am_error = e, am_pattern = [ctx], am_context = True,
        am_start = cc_line_index c, am_eof = False, am_out_of_order_after = None\<rparr>"
      by (simp add: locate_def Let_def)
    with seek_sequence_ambiguous(5)[OF Err] show ?thesis by simp
  next
    case (Ok r)
    show ?thesis
    proof (cases r)
      case (Some a)
      from loc ctx Ok Some have "locate_lines m i c relocate (Some a) False = Ok l" by (simp add: locate_def)
      from locate_anchor_ok[OF this len] seek_sequence_found(1,2)[OF Ok[unfolded Some]] show ?thesis by simp
    next
      case None
      with loc ctx Ok have rel: "cc_anchored c"
        and far: "(case seek_sequence ?lines [ctx] 0 False False of
             Ok (Some index) \<Rightarrow> locate_lines m i c relocate (Some index) True
           | Ok None \<Rightarrow> Err Missing_Context
           | Err error \<Rightarrow> Ok (Ambiguous \<lparr>am_error = error, am_pattern = [ctx], am_context = True, am_start = 0,
                am_eof = False, am_out_of_order_after = Some (cc_line_index c)\<rparr>)) = Ok l"
        by (auto simp: locate_def Let_def split: if_splits)
      show ?thesis
      proof (cases "seek_sequence ?lines [ctx] 0 False False")
        case (Err e)
        with far have l: "l = Ambiguous \<lparr>am_error = e, am_pattern = [ctx], am_context = True,
            am_start = 0, am_eof = False, am_out_of_order_after = Some (cc_line_index c)\<rparr>" by simp
        from seek_sequence_ambiguous(5)[OF Err] show ?thesis by (simp add: l)
      next
        case found: (Ok q)
        with far obtain a where q: "q = Some a" by (cases q) auto
        with far found have at: "locate_lines m i c relocate (Some a) True = Ok l" by simp
        have "a < cc_line_index c" by (rule seek_none_before[OF Ok[unfolded None] found[unfolded q]]) simp
        with locate_anchor_ok[OF at len] rel seek_sequence_found(2)[OF found[unfolded q]] show ?thesis by simp
      qed
    qed
  qed
qed

section \<open>The invariant is kept\<close>

definition keeps :: "chunk_matcher \<Rightarrow> chunk_cursor outcome \<Rightarrow> bool" where
  "keeps m r \<longleftrightarrow> not_panicked r \<and> (\<forall>c. r = Ok c \<longrightarrow> cursor_inv m c)"

lemma keeps_simps [simp]:
  "keeps m (Ok c) \<longleftrightarrow> cursor_inv m c" "keeps m (mismatch k i)" "keeps m (Err e) \<longleftrightarrow> e \<noteq> Panicked"
  by (auto simp: keeps_def)

lemma nonempty_kinds: "chunk_wf c \<Longrightarrow> nonempty_chunk c \<Longrightarrow> line_kinds c \<noteq> []"
  by (auto simp: chunk_wf_def nonempty_chunk_def chunk_is_empty_def)

lemma chunk_facts:
  "matcher_ok m \<Longrightarrow> i < length (cm_chunks m) \<Longrightarrow>
   chunk_wf (cm_chunks m ! i) \<and> nonempty_chunk (cm_chunks m ! i) \<and> line_kinds (cm_chunks m ! i) \<noteq> []"
  by (auto simp: matcher_ok_def list_all_length nonempty_kinds)

text \<open>The replacements a site gives, if all removed lines are exact.\<close>

lemma place_edits:
  fixes m i
  defines "chunk \<equiv> cm_chunks m ! i"
  assumes m: "matcher_ok m" "i < length (cm_chunks m)" and site: "site_ok m i site" and p: "old_lines chunk \<noteq> []"
  obtains (refused) e where "and_then (chunk_edit_operations (cm_diff m) chunk (old_lines chunk))
        (\<lambda>ops. place_operations m i (site_start site) order ops c) = Err e" "e \<noteq> Panicked"
    | (edits) ops where "and_then (chunk_edit_operations (cm_diff m) chunk (old_lines chunk))
        (\<lambda>ops. place_operations m i (site_start site) order ops c) =
          Ok (c\<lparr>cc_replacements := cc_replacements c @
            map (placed_replacement (site_start site) order (new_lines chunk)) ops\<rparr>)"
        "script_from (old_lines chunk) (new_lines chunk) 0 0 ops"
        "list_all (exact_removal (cm_original_lines m) (old_lines chunk) (site_start site)) ops"
proof -
  obtain ops where ops: "chunk_edit_operations (cm_diff m) chunk (old_lines chunk) = Ok ops"
    and script: "script_from (old_lines chunk) (new_lines chunk) 0 0 ops"
    using chunk_facts[OF m] chunk_edit_operations_script[of chunk] by (auto simp: chunk_def)
  have "list_all (op_ok (length (old_lines chunk)) (length (new_lines chunk)) 0) ops"
    using script by (simp add: script_from_def)
  moreover have "site_start site + length (old_lines chunk) \<le> length (cm_original_lines m)"
    using site by (simp add: site_ok_def chunk_def)
  ultimately have spec: "not_panicked (place_operations m i (site_start site) order ops c) \<and>
      (place_operations m i (site_start site) order ops c = Ok c' \<longleftrightarrow>
       list_all (exact_removal (cm_original_lines m) (old_lines chunk) (site_start site)) ops \<and>
       c' = c\<lparr>cc_replacements := cc_replacements c @
         map (placed_replacement (site_start site) order (new_lines chunk)) ops\<rparr>)" for c'
    unfolding chunk_def by (rule place_operations_spec)
  show thesis
  proof (cases "place_operations m i (site_start site) order ops c")
    case (Ok c')
    with spec[of c'] ops script edits show thesis by simp
  next
    case (Err e)
    with spec ops refused[of e] show thesis by (simp add: not_panicked_def)
  qed
qed

lemma claim_free_in_order:
  assumes "cursor_inv m c" "cc_line_index c \<le> claim_start s"
  shows "\<forall>t\<in>set (cc_claimed c). \<not> overlaps t s"
  using assms by (fastforce simp: cursor_inv_def overlaps_def)

lemma claim_earlier_end:
  assumes inv: "cursor_inv m c" "cc_anchored c" and s: "claim_start s < cc_line_index c"
    and free: "\<not> list_ex (overlaps s) (cc_claimed c)"
  shows "claim_end s \<le> cc_line_index c"
proof -
  obtain t where "t \<in> set (cc_claimed c)" "claim_end t = cc_line_index c" "claim_start t < claim_end t"
    using inv by (auto simp: cursor_inv_def)
  with s free show ?thesis by (auto simp: overlaps_def list_ex_iff not_less)
qed

lemma place_keeps:
  assumes m: "matcher_ok m" "i < length (cm_chunks m)"
    and inv: "cursor_inv m c"
    and site: "if relocated then earlier_site m i c site else in_order_site m i c site"
  shows "keeps m (place m i site c relocated)"
proof -
  let ?n = "length (cm_original_lines m)" and ?chunk = "cm_chunks m ! i" and ?s = "site_claim m i site"
  have ok: "site_ok m i site" using site by (auto simp: in_order_site_def earlier_site_def split: if_splits)
  show ?thesis
  proof (cases "relocated \<and> list_ex (overlaps ?s) (cc_claimed c)")
    case True
    then show ?thesis by (simp add: place_def Let_def)
  next
    case free: False
    have fin: "cursor_inv m ((if relocated then cursor_claim ?s (c\<lparr>cc_replacements := cc_replacements c @ rs\<rparr>)
          else (cursor_claim ?s (c\<lparr>cc_replacements := cc_replacements c @ rs\<rparr>))
             \<lparr>cc_line_index := claim_end ?s, cc_anchored := True\<rparr>))"
      if nb: "\<not> bare_site m i site" and rs: "sorted_wrt compatible rs" "\<forall>r\<in>set rs. owned ?s r"
        and asked: "\<forall>r\<in>set rs. asked_by m ?chunk r" for rs
    proof (cases relocated)
      have by_chunk: "\<forall>r\<in>set rs. \<exists>chunk\<in>set (cm_chunks m). asked_by m chunk r"
        using asked m(2) nth_mem by blast
      case True
      with site free have e: "earlier_site m i c site" "\<not> list_ex (overlaps ?s) (cc_claimed c)" by auto
      then have "claim_end ?s \<le> cc_line_index c"
        using claim_earlier_end[OF inv] by (auto simp: earlier_site_def)
      moreover have "\<forall>t\<in>set (cc_claimed c). \<not> overlaps t ?s"
        using e(2) by (auto simp: list_ex_iff overlaps_sym[of _ ?s])
      moreover have "cc_line_index c \<le> ?n" using inv by (simp add: cursor_inv_def)
      ultimately show ?thesis
        using True cursor_inv_claim[OF inv rs claim_nonempty[OF ok nb] _ by_chunk, of "cc_line_index c" "cc_anchored c"]
        by (simp add: cursor_claim_def)
    next
      have by_chunk: "\<forall>r\<in>set rs. \<exists>chunk\<in>set (cm_chunks m). asked_by m chunk r"
        using asked m(2) nth_mem by blast
      case False
      with site nb have le: "cc_line_index c \<le> claim_start ?s" by (simp add: in_order_site_def)
      have "claim_start ?s < claim_end ?s" by (rule claim_nonempty[OF ok nb])
      moreover have "claim_end ?s \<le> ?n" using ok by (simp add: site_ok_def site_claim_def)
      ultimately show ?thesis
        using False le cursor_inv_claim[OF inv rs _ claim_free_in_order[OF inv le] by_chunk, of "claim_end ?s" True]
        by (simp add: cursor_claim_def)
    qed
    show ?thesis
    proof (cases "old_lines ?chunk = []")
      case True
      let ?order = "if bare_site m i site then cc_line_index c else claim_start ?s"
      let ?r = "\<lparr>rep_start = site_start site, rep_old_len = 0, rep_new_lines = new_lines ?chunk, rep_order = ?order\<rparr>"
      have "bare_site m i site \<Longrightarrow> bare ?n ?r"
        using ok by (auto simp: bare_site_def site_ok_def bare_def)
      moreover have "\<not> bare_site m i site \<Longrightarrow> owned ?s ?r"
        using ok True by (auto simp: owned_def site_claim_def site_ok_def bare_site_def rep_end_def split: option.splits)
      moreover have asked: "asked_by m ?chunk ?r" by (simp add: asked_by_def removed_lines_def)
      moreover have "\<exists>chunk\<in>set (cm_chunks m). asked_by m chunk ?r" using asked nth_mem[OF m(2)] by blast
      ultimately show ?thesis
        using True free fin[of "[?r]"] cursor_inv_bare[OF inv, of ?r]
        by (auto simp: place_def Let_def cursor_push_def bare_site_def)
    next
      case False
      then have nb: "\<not> bare_site m i site" by (simp add: bare_site_def)
      show ?thesis
      proof (rule place_edits[OF m ok False, of "claim_start ?s" c])
        fix e
        assume "and_then (chunk_edit_operations (cm_diff m) ?chunk (old_lines ?chunk))
            (\<lambda>ops. place_operations m i (site_start site) (claim_start ?s) ops c) = Err e" "e \<noteq> Panicked"
        with False free show ?thesis by (simp add: place_def Let_def)
      next
        fix ops
        assume eq: "and_then (chunk_edit_operations (cm_diff m) ?chunk (old_lines ?chunk))
            (\<lambda>ops. place_operations m i (site_start site) (claim_start ?s) ops c) =
          Ok (c\<lparr>cc_replacements := cc_replacements c @
            map (placed_replacement (site_start site) (claim_start ?s) (new_lines ?chunk)) ops\<rparr>)"
          and script: "script_from (old_lines ?chunk) (new_lines ?chunk) 0 0 ops"
          and exact: "list_all (exact_removal (cm_original_lines m) (old_lines ?chunk) (site_start site)) ops"
        let ?rs = "map (placed_replacement (site_start site) (claim_start ?s) (new_lines ?chunk)) ops"
        have "claim_start ?s \<le> site_start site" "site_start site + length (old_lines ?chunk) \<le> claim_end ?s"
          using ok by (auto simp: site_claim_def site_ok_def split: option.splits)
        then have "\<forall>r\<in>set ?rs. owned ?s r"
          using script placed_owned by (fastforce simp: script_from_def list_all_iff)
        moreover have "sorted_wrt compatible ?rs"
          using script placed_compatible by (auto simp: script_from_def)
        moreover have "\<forall>r\<in>set ?rs. asked_by m ?chunk r"
          using script exact ok placed_asked by (fastforce simp: script_from_def list_all_iff site_ok_def)
        ultimately have fin_inv: "cursor_inv m (if relocated then
            cursor_claim ?s (c\<lparr>cc_replacements := cc_replacements c @ ?rs\<rparr>)
          else (cursor_claim ?s (c\<lparr>cc_replacements := cc_replacements c @ ?rs\<rparr>))
             \<lparr>cc_line_index := claim_end ?s, cc_anchored := True\<rparr>)" by (intro fin[OF nb])
        then show ?thesis using False free eq by (simp add: place_def Let_def del: and_then_eq_Ok)
      qed
    qed
  qed
qed

lemma place_range_keeps:
  assumes inv: "cursor_inv m c" and i: "i < length (cm_chunks m)"
    and bounds: "start \<noteq> 0" "\<not> stop < start" "\<not> length (cm_original_lines m) < stop" "\<not> start - 1 < cc_line_index c"
    and asked: "asked_by m (cm_chunks m ! i) \<lparr>rep_start = start - 1, rep_old_len = stop - start + 1,
      rep_new_lines = news, rep_order = start - 1\<rparr>"
  shows "cursor_inv m (place_range i start stop news c)"
proof -
  let ?s = "\<lparr>claim_start = start - 1, claim_end = stop, claim_chunk_ordinal = i + 1\<rparr>"
  let ?r = "\<lparr>rep_start = start - 1, rep_old_len = stop - start + 1, rep_new_lines = news, rep_order = start - 1\<rparr>"
  have free: "\<forall>t\<in>set (cc_claimed c). \<not> overlaps t ?s"
    by (rule claim_free_in_order[OF inv]) (use bounds in simp)
  have "\<forall>r\<in>set [?r]. \<exists>chunk\<in>set (cm_chunks m). asked_by m chunk r"
    using asked nth_mem[OF i] by auto
  from cursor_inv_claim[OF inv _ _ _ free this, of stop True] bounds show ?thesis
    by (auto simp: place_range_def cursor_claim_def cursor_push_def owned_def rep_end_def)
qed

lemma match_range_keeps:
  assumes inv: "cursor_inv m c" and i: "i < length (cm_chunks m)"
    and handle: "range_handle (cm_chunks m ! i) = Some handle"
  shows "keeps m (match_range m i handle c)"
proof -
  let ?chunk = "cm_chunks m ! i"
  have unread: "keeps m (Ok (place_range i start stop (new_lines ?chunk) c))"
    if "start \<noteq> 0" "\<not> stop < start" "\<not> length (cm_original_lines m) < stop" "\<not> start - 1 < cc_line_index c"
      "old_lines ?chunk = []" "source_hash_parse hash = Ok h" "source_hash_matches h (cm_source_hash m)"
    for start stop hash h
    using place_range_keeps[OF inv i that(1-4)] source_hash_parse_ok[OF that(6)] that(5,7) handle
    by (auto simp: asked_by_def)
  have read: "keeps m (Ok (place_range i start stop (new_lines ?chunk) c))"
    if "start \<noteq> 0" "\<not> stop < start" "\<not> length (cm_original_lines m) < stop" "\<not> start - 1 < cc_line_index c"
      "old_lines ?chunk = take (stop - (start - 1)) (drop (start - 1) (cm_original_lines m))" for start stop
  proof -
    have "stop - start + 1 = stop - (start - 1)" using that(1,2) by simp
    then show ?thesis
      using place_range_keeps[OF inv i that(1-4)] that(5) by (auto simp: asked_by_def removed_lines_def)
  qed
  show ?thesis
    using read unread
    by (auto simp: match_range_def Let_def get_slice_def simp del: keeps_simps(1)
        split: option.splits prod.splits result.splits)
qed

section \<open>Trials and disambiguation\<close>

lemma candidate_starts_ok:
  assumes "located_ok m i c (Ambiguous am)" "am_out_of_order_after am = None" "k \<in> set (candidate_starts m am)"
  shows "cc_line_index c \<le> k \<and> k + length (am_pattern am) \<le> length (cm_original_lines m)"
proof -
  have "k \<in> window_sites (strictness (am_error am)) (cm_original_lines m) (am_pattern am) (am_start am) (am_eof am)"
    using assms(1,3) ambiguous_candidates_sites[of "cm_original_lines m" "am_pattern am" "am_start am" "am_eof am"
        "am_error am"]
    by (auto simp: candidate_starts_def Let_def split: if_splits)
  then show ?thesis using assms(1,2) by (auto simp: window_sites_def window_def)
qed

lemma candidate_site_ok:
  assumes am: "located_ok m i c (Ambiguous am)" "am_out_of_order_after am = None"
    and k: "k \<in> set (candidate_starts m am)" and site: "candidate_site m i am k = Some site"
    and len: "length (cm_original_lines m) \<le> usize_max"
  shows "in_order_site m i c site"
proof -
  note bnd = candidate_starts_ok[OF am k]
  show ?thesis
  proof (cases "am_context am")
    case False
    with am site bnd show ?thesis
      by (auto simp: candidate_site_def in_order_site_def site_ok_def site_claim_def)
  next
    case ctx: True
    with am obtain t where t: "am_pattern am = [t]" by auto
    show ?thesis
    proof (cases "old_lines (cm_chunks m ! i) = []")
      case True
      with ctx site bnd t show ?thesis
        by (auto simp: candidate_site_def in_order_site_def site_ok_def site_claim_def)
    next
      case False
      with ctx site obtain start where "following_anchor m i k = Some start"
        and "site = \<lparr>site_anchor = Some k, site_start = start\<rparr>"
        by (auto simp: candidate_site_def)
      with anchored_site_ok[OF _ len] bnd show ?thesis by (auto simp: in_order_site_def site_claim_def)
    qed
  qed
qed

definition trials_ok :: "chunk_matcher \<Rightarrow> (nat \<times> chunk_cursor) list \<Rightarrow> bool" where
  "trials_ok m ts \<longleftrightarrow> (\<forall>t\<in>set ts. cursor_inv m (snd t))"

lemma place_candidates_ok:
  assumes m: "matcher_ok m" "i < length (cm_chunks m)" and inv: "cursor_inv m c"
    and am: "located_ok m i c (Ambiguous am)" "am_out_of_order_after am = None"
    and ks: "set ks \<subseteq> set (candidate_starts m am)"
  shows "not_panicked (place_candidates m i am c ks) \<and>
    (\<forall>placed e. place_candidates m i am c ks = Ok (placed, e) \<longrightarrow>
       trials_ok m placed \<and> length placed \<le> length ks)"
  using ks
proof (induction ks)
  case Nil
  then show ?case by (auto simp: trials_ok_def)
next
  case (Cons k ks)
  then have IH: "not_panicked (place_candidates m i am c ks)"
    "\<And>placed e. place_candidates m i am c ks = Ok (placed, e) \<Longrightarrow>
       trials_ok m placed \<and> length placed \<le> length ks" by auto
  have len: "length (cm_original_lines m) \<le> usize_max" using m by (simp add: matcher_ok_def)
  show ?case
  proof (cases "candidate_site m i am k")
    case None
    with IH show ?thesis by (auto intro: le_SucI)
  next
    case (Some site)
    have "keeps m (place m i site c False)"
      using place_keeps[OF m inv, of False site] candidate_site_ok[OF am _ Some len] Cons.prems by simp
    then have k: "not_panicked (place m i site c False)"
      "\<And>t. place m i site c False = Ok t \<Longrightarrow> cursor_inv m t"
      by (auto simp: keeps_def)
    show ?thesis
      using Some IH k
      by (cases "place m i site c False"; cases "place_candidates m i am c ks")
         (auto simp: trials_ok_def not_panicked_def split: option.splits prod.splits)
  qed
qed

lemma viable_trials_ok:
  assumes run: "\<And>c. cursor_inv m c \<Longrightarrow> keeps m (run c)" and ts: "trials_ok m ts"
  shows "not_panicked (viable_trials run ts) \<and> (\<forall>vs. viable_trials run ts = Ok vs \<longrightarrow> trials_ok m vs)"
  using ts
proof (induction ts)
  case Nil
  then show ?case by (auto simp: trials_ok_def)
next
  case (Cons t ts)
  obtain k c where t: "t = (k, c)" by (cases t)
  have c: "not_panicked (run c)" "\<And>d. run c = Ok d \<Longrightarrow> cursor_inv m d"
    using run[of c] Cons.prems t by (auto simp: trials_ok_def keeps_def)
  have IH: "not_panicked (viable_trials run ts)" "\<And>vs. viable_trials run ts = Ok vs \<Longrightarrow> trials_ok m vs"
    using Cons by (auto simp: trials_ok_def)
  show ?case
    using t c IH
    by (cases "run c"; cases "viable_trials run ts") (auto simp: trials_ok_def not_panicked_def)
qed

definition rep_triples :: "(string list \<Rightarrow> 'b list) \<Rightarrow> chunk_cursor \<Rightarrow> (nat \<times> nat \<times> 'b list) list" where
  "rep_triples f c = map (\<lambda>r. (rep_start r, rep_old_len r, f (rep_new_lines r))) (cursor_sorted c)"

lemma rep_triples_ordered: "cursor_inv m c \<Longrightarrow> ordered_from (length (cm_original_lines m)) 0 (rep_triples f c)"
  unfolding rep_triples_def cursor_sorted_def by (rule cursor_inv_ordered)

lemma into_sorted_triples: "into_sorted_replacements c = rep_triples id c"
  by (simp add: into_sorted_replacements_def rep_triples_def cursor_sorted_def)

lemma splice_trial_descending:
  "splice_trial rs out =
     apply_descending out (map (\<lambda>r. (rep_start r, rep_old_len r, map (Pair True) (rep_new_lines r))) rs)"
  by (induction rs out rule: splice_trial.induct) (auto intro: arg_cong[of _ _ "and_then _"])

lemma trial_output_merged:
  assumes "cursor_inv m c"
    "length (split_inclusive LF (cm_original_contents m)) = length (cm_original_lines m)"
  shows "trial_output m c =
    Ok (Some (merged 0 (map (Pair False) (split_inclusive LF (cm_original_contents m))) (rep_triples (map (Pair True)) c)))"
proof -
  let ?out = "map (Pair False) (split_inclusive LF (cm_original_contents m))"
  have "splice_trial (rev (cursor_sorted c)) ?out = apply_replacements ?out (rep_triples (map (Pair True)) c)"
    by (simp add: splice_trial_descending apply_replacements_def rep_triples_def rev_map)
  also have "\<dots> = Ok (merged 0 ?out (rep_triples (map (Pair True)) c))"
    by (rule apply_replacements_merged) (simp add: assms rep_triples_ordered)
  finally show ?thesis using assms(2) by (simp add: trial_output_def)
qed

lemma trial_output_ok:
  "cursor_inv m c \<Longrightarrow> not_panicked (trial_output m c)"
  using trial_output_merged[of m c]
  by (cases "length (split_inclusive LF (cm_original_contents m)) = length (cm_original_lines m)")
     (auto simp: trial_output_def)

lemma all_write_ok: "trials_ok m ts \<Longrightarrow> not_panicked (all_write m out ts)"
  by (induction m out ts rule: all_write.induct)
     (auto simp: trials_ok_def intro!: not_panicked_and_then trial_output_ok)

lemma write_same_bytes_ok: "trials_ok m ts \<Longrightarrow> not_panicked (write_same_bytes m ts)"
  by (cases "(m, ts)" rule: write_same_bytes.cases)
     (auto simp: trials_ok_def intro!: not_panicked_and_then trial_output_ok all_write_ok)

definition flow_keeps :: "chunk_matcher \<Rightarrow> (chunk_flow \<times> chunk_cursor) outcome \<Rightarrow> bool" where
  "flow_keeps m r \<longleftrightarrow> not_panicked r \<and> (\<forall>f c. r = Ok (f, c) \<longrightarrow> cursor_inv m c)"

lemma flow_keeps_simps [simp]:
  "flow_keeps m (Ok (f, c)) \<longleftrightarrow> cursor_inv m c" "flow_keeps m (mismatch k i)" "flow_keeps m trial_miss"
  "flow_keeps m (missing_error i reason)" "flow_keeps m (next_chunk r) \<longleftrightarrow> keeps m r"
  by (auto simp: flow_keeps_def trial_miss_def missing_error_def split: missing.split)
     (cases r; auto simp: next_chunk_def keeps_def flow_keeps_def)+

text \<open>One chunk of any pass keeps the invariant, if resolving an ambiguity does.\<close>

lemma match_chunk_keeps:
  assumes m: "matcher_ok m" "i < length (cm_chunks m)" and inv: "cursor_inv m c"
    and res: "\<And>am. pass = Primary \<Longrightarrow> located_ok m i c (Ambiguous am) \<Longrightarrow> am_out_of_order_after am = None \<Longrightarrow>
      flow_keeps m (resolve i c am)"
  shows "flow_keeps m (match_chunk resolve m i c pass)"
proof (cases "range_handle (cm_chunks m ! i)")
  case (Some handle)
  with match_range_keeps[OF inv m(2)] show ?thesis by (simp add: match_chunk_def)
next
  case None
  have len: "length (cm_original_lines m) \<le> usize_max" using m by (simp add: matcher_ok_def)
  show ?thesis
  proof (cases "locate m i c (pass \<noteq> InOrder)")
    case (Err e)
    with None show ?thesis by (simp add: match_chunk_def)
  next
    case (Ok l)
    note loc = locate_ok[OF Ok len]
    show ?thesis
    proof (cases l)
      case (Site site)
      with None Ok loc place_keeps[OF m inv, of False site] show ?thesis by (simp add: match_chunk_def)
    next
      case (Relocated site)
      with None Ok loc place_keeps[OF m inv, of True site] show ?thesis by (simp add: match_chunk_def)
    next
      case (Ambiguous am)
      show ?thesis
      proof (cases "pass = Primary \<and> am_out_of_order_after am = None")
        case True
        have "flow_keeps m (resolve i c am)"
          by (rule res) (use True loc[unfolded Ambiguous] in \<open>simp_all only: simp_thms\<close>)
        with None Ok Ambiguous True show ?thesis by (simp add: match_chunk_def)
      next
        case False
        with None Ok Ambiguous show ?thesis by (auto simp: match_chunk_def)
      qed
    qed
  qed
qed

lemma match_loop_keeps:
  assumes m: "matcher_ok m" and ks: "\<forall>i\<in>set ks. i < length (cm_chunks m)"
    and inv: "cursor_inv m c"
    and res: "\<And>i c am. pass = Primary \<Longrightarrow> i < length (cm_chunks m) \<Longrightarrow> cursor_inv m c \<Longrightarrow>
      located_ok m i c (Ambiguous am) \<Longrightarrow> am_out_of_order_after am = None \<Longrightarrow>
      flow_keeps m (resolve i c am)"
  shows "keeps m (match_loop resolve m ks c pass)"
  using ks inv
proof (induction ks arbitrary: c)
  case (Cons k ks)
  have "flow_keeps m (match_chunk resolve m k c pass)"
    by (rule match_chunk_keeps[OF m]) (use Cons.prems res in auto)
  with Cons show ?case
    by (cases "match_chunk resolve m k c pass")
       (auto simp: flow_keeps_def keeps_def not_panicked_def split: chunk_flow.splits)
qed simp

lemma trial_keeps:
  assumes "matcher_ok m" "cursor_inv m c" "pass \<noteq> Primary"
  shows "keeps m (match_from no_nested_search m k c pass)"
  unfolding match_from_def by (rule match_loop_keeps) (use assms in auto)

lemma try_passes_keeps:
  assumes "matcher_ok m" "trials_ok m placed" "\<forall>pass\<in>set passes. pass \<noteq> Primary"
  shows "flow_keeps m (try_passes m i everywhere placed passes)"
  using assms(3)
proof (induction passes)
  case (Cons pass passes)
  let ?n = "length (cm_original_lines m)"
  let ?run = "\<lambda>trial. match_from no_nested_search m (i + 1) trial pass"
  have v: "not_panicked (viable_trials ?run placed)" "\<And>vs. viable_trials ?run placed = Ok vs \<Longrightarrow> trials_ok m vs"
    using viable_trials_ok[of m ?run placed] trial_keeps[OF assms(1)] assms(2) Cons.prems by auto
  show ?case
  proof (cases "viable_trials ?run placed")
    case (Err e)
    with v show ?thesis by (auto simp: flow_keeps_def not_panicked_def)
  next
    case (Ok vs)
    have w: "not_panicked (write_same_bytes m vs)" using v(2)[OF Ok] by (rule write_same_bytes_ok)
    show ?thesis
    proof (cases vs)
      case Nil
      with Ok Cons show ?thesis by simp
    next
      case (Cons v' vs')
      with Ok v w show ?thesis
        by (cases "write_same_bytes m vs") (auto simp: flow_keeps_def not_panicked_def trials_ok_def mismatch_def)
    qed
  qed
qed simp

lemma disambiguate_keeps:
  assumes m: "matcher_ok m" "i < length (cm_chunks m)" and inv: "cursor_inv m c"
    and am: "located_ok m i c (Ambiguous am)" "am_out_of_order_after am = None"
  shows "flow_keeps m (disambiguate m i c am)"
proof -
  note p = place_candidates_ok[OF m inv am order_refl]
  show ?thesis
  proof (cases "place_candidates m i am c (candidate_starts m am)")
    case (Ok r)
    obtain placed e where r: "r = (placed, e)" by (cases r)
    with p Ok have "trials_ok m placed" by simp
    from try_passes_keeps[OF m(1) this, of "[InOrder, Relocating]"] Ok r show ?thesis
      by (simp add: disambiguate_def Let_def del: try_passes.simps)
  next
    case (Err e)
    with p show ?thesis by (auto simp: disambiguate_def Let_def flow_keeps_def not_panicked_def mismatch_def)
  qed
qed

lemma match_from_keeps:
  assumes "matcher_ok m"
  shows "keeps m (match_from (disambiguate m) m 0 default_cursor Primary)"
  unfolding match_from_def
  by (rule match_loop_keeps[OF assms]) (use disambiguate_keeps[OF assms] in auto)

lemma compute_replacements_ok:
  assumes "matcher_ok m"
  shows "not_panicked (compute_replacements m)"
    "compute_replacements m = Ok rs \<Longrightarrow> ordered_from (length (cm_original_lines m)) 0 rs"
  using match_from_keeps[OF assms] rep_triples_ordered[of m _ id]
  by (cases "match_from (disambiguate m) m 0 default_cursor Primary";
      auto simp: compute_replacements_def keeps_def not_panicked_def into_sorted_triples)+

end
