(* ===== verification/Matcher_Results.thy ===== *)
theory Matcher_Results
  imports Matcher_Invariant
begin

text \<open>
  What an update hunk does to a file: the written text is the forward reading of the replacements,
  a chunk that matches exactly replaces its old lines by its new lines and nothing else, and an
  ambiguity is resolved only when every viable site writes the same bytes.
\<close>

section \<open>From replacements to text\<close>

lemma merged_map:
  "map f (merged pos xs rs) = merged pos (map f xs) (map (\<lambda>(s, l, new). (s, l, map f new)) rs)"
  by (induction pos xs rs rule: merged.induct) (auto simp: take_map drop_map)

definition written_lines :: "string \<Rightarrow> string list \<Rightarrow> (nat \<times> nat \<times> string list) list \<Rightarrow> string list" where
  "written_lines newline physical rs = merged 0 physical (push_newlines newline rs)"

definition final_text :: "prepared_source \<Rightarrow> (nat \<times> nat \<times> string list) list \<Rightarrow> string" where
  "final_text source rs =
     concat (restore_final_newline (ps_contents source) (terminate_lines (ps_newline source)
       (written_lines (ps_newline source) (ps_physical_lines source) rs)))"

lemma push_newlines_ordered: "ordered_from n pos (push_newlines nl rs) \<longleftrightarrow> ordered_from n pos rs"
  by (induction n pos rs rule: ordered_from.induct) (auto simp: push_newlines_def)

lemma push_newlines_untouched: "untouched (push_newlines nl rs) = untouched rs"
  by (auto simp: untouched_def push_newlines_def)

definition chunks_ok :: "update_file_chunk list \<Rightarrow> bool" where
  "chunks_ok chunks \<longleftrightarrow> list_all chunk_wf chunks \<and> list_all nonempty_chunk chunks"

lemma matcher_of_ok:
  "chunks_ok chunks \<Longrightarrow> length (ps_logical_lines source) \<le> usize_max \<Longrightarrow>
   matcher_ok (matcher_of sha256 diff source chunks)"
  by (simp add: matcher_ok_def matcher_of_def chunks_ok_def)

lemma prepare_source_lengths [simp]:
  "length (ps_logical_lines (prepare_source s)) = length (ps_physical_lines (prepare_source s))"
  "ps_physical_lines (prepare_source s) = split_inclusive LF s" "ps_contents (prepare_source s) = s"
  "ps_logical_lines (prepare_source s) = map logical_line (split_inclusive LF s)"
  by (simp_all add: prepare_source_def Let_def)

lemma textual_contents_outcome:
  assumes chunks: "chunks_ok chunks" and len: "length (split_inclusive LF s) \<le> usize_max"
  obtains (failed) e where "textual_contents sha256 diff (prepare_source s) chunks = Err e" "e \<noteq> Panicked"
      "compute_replacements (matcher_of sha256 diff (prepare_source s) chunks) = Err e"
    | (written) rs where "compute_replacements (matcher_of sha256 diff (prepare_source s) chunks) = Ok rs"
        "ordered_from (length (split_inclusive LF s)) 0 rs"
        "textual_contents sha256 diff (prepare_source s) chunks = Ok (final_text (prepare_source s) rs)"
proof -
  let ?m = "matcher_of sha256 diff (prepare_source s) chunks"
  have m: "matcher_ok ?m" by (rule matcher_of_ok[OF chunks]) (use len in simp)
  have lines: "length (cm_original_lines ?m) = length (split_inclusive LF s)" by (simp add: matcher_of_def)
  show thesis
  proof (cases "compute_replacements ?m")
    case (Err e)
    with compute_replacements_ok(1)[OF m] show thesis
      by (intro failed[of e]) (auto simp: textual_contents_def not_panicked_def)
  next
    case (Ok rs)
    have ord: "ordered_from (length (split_inclusive LF s)) 0 rs"
      using compute_replacements_ok(2)[OF m Ok] lines by simp
    then have "apply_replacements (split_inclusive LF s) (push_newlines nl rs) =
        Ok (written_lines nl (split_inclusive LF s) rs)" for nl
      unfolding written_lines_def by (intro apply_replacements_merged) (simp add: push_newlines_ordered)
    with Ok ord show thesis
      by (intro written[of rs]) (simp_all add: textual_contents_def final_text_def)
  qed
qed

section \<open>Where the written lines come from\<close>

lemma compute_replacements_asked:
  assumes m: "matcher_ok m" and rs: "compute_replacements m = Ok rs" "(s, l, new) \<in> set rs"
  shows "\<exists>chunk\<in>set (cm_chunks m). sublist new (new_lines chunk) \<and>
    (sublist (take l (drop s (cm_original_lines m))) (old_lines chunk)
     \<or> range_handle chunk \<noteq> None \<and> old_lines chunk = []
       \<and> (\<exists>h. hash_ref_ok h \<and> source_hash_matches h (cm_source_hash m)))"
proof -
  from rs(1) obtain c where run: "match_from (disambiguate m) m 0 default_cursor Primary = Ok c"
    and rs': "rs = into_sorted_replacements c"
    by (auto simp: compute_replacements_def)
  with match_from_keeps[OF m] have inv: "cursor_inv m c" by (simp add: keeps_def)
  from rs(2) rs' obtain r where r: "r \<in> set (cc_replacements c)" "s = rep_start r" "l = rep_old_len r"
    "new = rep_new_lines r" by (auto simp: into_sorted_replacements_def)
  with inv obtain chunk where "chunk \<in> set (cm_chunks m)" "asked_by m chunk r"
    by (auto simp: cursor_inv_def)
  with r show ?thesis by (auto simp: asked_by_def removed_lines_def)
qed

section \<open>An exact match\<close>

lemma strongest_exact:
  assumes "window_sites ''exact'' lines p k eof \<noteq> {}" "strongest_tier lines p k eof t"
  shows "t = ''exact''"
proof -
  obtain a b where "TIERS = a @ t # b" "\<forall>u\<in>set a. window_sites u lines p k eof = {}"
    using assms(2) by (auto simp: strongest_tier_def)
  with assms(1) show ?thesis by (cases a) (auto simp: TIERS_def)
qed

lemma seek_unique_exact:
  assumes "window_sites ''exact'' lines p k eof = {i}" "p \<noteq> []"
  shows "seek_sequence lines p k eof a = Ok (Some i)"
proof (cases "seek_sequence lines p k eof a")
  case (Err e)
  with seek_sequence_spec[OF assms(2), of lines k eof a] strongest_exact[of lines p k eof "strictness e"]
  show ?thesis using assms(1) by (auto simp: seek_spec_def)
next
  case (Ok r)
  with seek_sequence_spec[OF assms(2), of lines k eof a] have spec: "seek_spec lines p k eof a (Ok r)" by simp
  have "''exact'' \<in> set TIERS" by (simp add: TIERS_def)
  with spec assms(1) obtain j t where r: "r = Some j" and t: "strongest_tier lines p k eof t"
    and j: "j \<in> window_sites t lines p k eof"
    by (cases r) (auto simp: seek_spec_def)
  with strongest_exact[OF _ t] assms(1) have "j = i" by auto
  with Ok r show ?thesis by simp
qed

lemma merged_shift:
  assumes "ordered_from k pos rs" "st + k \<le> length lines"
  shows "merged (st + pos) lines (map (\<lambda>(s, l, new). (st + s, l, new)) rs) =
    merged pos (take k (drop st lines)) rs @ drop (st + k) lines"
  using assms
proof (induction rs arbitrary: pos)
  case Nil
  have "drop (st + pos) lines = drop pos (take k (drop st lines)) @ drop (st + k) lines"
  proof -
    have "drop st lines = take k (drop st lines) @ drop (st + k) lines"
      by (metis append_take_drop_id drop_drop add.commute)
    then have "drop pos (drop st lines) = drop pos (take k (drop st lines) @ drop (st + k) lines)"
      by (rule arg_cong)
    then show ?thesis using Nil by (simp add: add.commute)
  qed
  then show ?case by simp
next
  case (Cons r rs)
  obtain s l new where r: "r = (s, l, new)" by (cases r)
  with Cons.prems have s: "pos \<le> s" and rs: "ordered_from k (s + l) rs" by auto
  have "s \<le> k" using ordered_from_le[OF rs] by simp
  then have "take (s - pos) (drop (st + pos) lines) = take (s - pos) (drop pos (take k (drop st lines)))"
    using s by (simp add: drop_take min_def add.commute)
  with Cons.IH[OF rs Cons.prems(2)] r show ?case by (simp add: add.assoc)
qed

lemma shift_ordered:
  assumes "ordered_from k pos rs" "st + k \<le> n"
  shows "ordered_from n (st + pos) (map (\<lambda>(s, l, new). (st + s, l, new)) rs)"
  using assms by (induction rs arbitrary: pos) (auto simp: add.assoc)

lemma script_ordered:
  assumes "list_all (op_ok n k pos) ops" "sorted_wrt op_before ops" "pos \<le> n"
  shows "ordered_from n pos (map (op_replacement news) ops)"
  using assms
proof (induction ops arbitrary: pos)
  case (Cons operation ops)
  obtain s e ns ne where r: "old_range operation = (s, e)" "new_range operation = (ns, ne)" by fastforce
  with Cons.prems have se: "pos \<le> s" "s \<le> e" "e \<le> n" by (auto simp: op_ok_def)
  have "list_all (op_ok n k e) ops"
    using Cons.prems r by (auto simp: list_all_iff op_ok_def op_before_def)
  with Cons.IH[of e] Cons.prems se r show ?case by (simp add: op_replacement_def)
qed simp

lemma script_sorted_keys:
  assumes "list_all (op_ok n k pos) ops" "sorted_wrt op_before ops"
  shows "sorted (map rep_key (map (placed_replacement st order news) ops))"
  using assms
proof (induction ops)
  case (Cons operation ops)
  have "rep_key (placed_replacement st order news operation) \<le> rep_key (placed_replacement st order news q)"
    if "q \<in> set ops" for q
    using Cons.prems that
    by (auto simp: placed_replacement_def op_replacement_def rep_key_def op_before_def op_ok_def list_all_iff
        split: prod.splits)
  with Cons show ?case by simp
qed simp

text \<open>
  A single chunk whose old lines occur exactly once is applied there, and the file becomes what
  the patch says.
\<close>

lemma exact_chunk_applies:
  assumes m: "matcher_ok m" and one: "cm_chunks m = [chunk]" and plain: "change_context chunk = None"
    and old: "old_lines chunk \<noteq> []"
    and site: "window_sites ''exact'' (cm_original_lines m) (old_lines chunk) 0 (is_end_of_file chunk) = {st}"
  shows "\<exists>rs. compute_replacements m = Ok rs \<and> merged 0 (cm_original_lines m) rs =
    take st (cm_original_lines m) @ new_lines chunk @ drop (st + length (old_lines chunk)) (cm_original_lines m)"
proof -
  let ?lines = "cm_original_lines m" and ?k = "length (old_lines chunk)"
  let ?site = "\<lparr>site_anchor = None, site_start = st\<rparr>"
  have st: "st + ?k \<le> length ?lines" "take ?k (drop st ?lines) = old_lines chunk"
    and eof: "is_end_of_file chunk \<longrightarrow> st + ?k = length ?lines"
    using site by (auto simp: window_sites_def window_def site_matches_def tier_key_def)
  have "seek_sequence ?lines (old_lines chunk) 0 (is_end_of_file chunk) False = Ok (Some st)"
    by (rule seek_unique_exact[OF site old])
  then have loc: "locate m 0 default_cursor True = Ok (Site ?site)"
    using one plain old eof by (simp add: locate_def locate_lines_def default_cursor_def)
  have ok: "site_ok m 0 ?site" using st one old by (simp add: site_ok_def)
  obtain ops where ops: "chunk_edit_operations (cm_diff m) chunk (old_lines chunk) = Ok ops"
    and script: "script_from (old_lines chunk) (new_lines chunk) 0 0 ops"
    using chunk_facts[OF m, of 0] one chunk_edit_operations_script[of chunk] by auto
  then have okops: "list_all (op_ok ?k (length (new_lines chunk)) 0) ops" "sorted_wrt op_before ops"
    and result: "merged 0 (old_lines chunk) (map (op_replacement (new_lines chunk)) ops) = new_lines chunk"
    by (auto simp: script_from_def)
  have same: "old_lines chunk ! k = ?lines ! (st + k)" if "k < ?k" for k
    using st that by (metis nth_drop nth_take le_add1 order_trans)
  have "list_all (exact_removal ?lines (old_lines chunk) st) ops"
    using okops(1) same by (fastforce simp: list_all_iff exact_removal_def op_ok_def)
  then have "place_operations m 0 st st ops default_cursor =
      Ok (default_cursor\<lparr>cc_replacements := map (placed_replacement st st (new_lines chunk)) ops\<rparr>)"
    using place_operations_spec[of m 0 ops st st default_cursor] okops st one by (simp add: default_cursor_def)
  then obtain c where c: "place m 0 ?site default_cursor False = Ok c"
    and reps: "cc_replacements c = map (placed_replacement st st (new_lines chunk)) ops"
    using one old ops by (auto simp: place_def Let_def site_claim_def cursor_claim_def)
  have "match_from (disambiguate m) m 0 default_cursor Primary = Ok c"
    using loc c one plain by (simp add: match_from_def match_chunk_def range_handle_def next_chunk_def)
  then have "compute_replacements m = Ok (into_sorted_replacements c)"
    by (simp add: compute_replacements_def)
  moreover have "into_sorted_replacements c =
      map (\<lambda>(s, l, new). (st + s, l, new)) (map (op_replacement (new_lines chunk)) ops)"
    using script_sorted_keys[OF okops, of st st "new_lines chunk"] reps
    by (simp add: into_sorted_replacements_def sort_key_id_if_sorted placed_replacement_def split_beta)
  moreover have "merged 0 ?lines (map (\<lambda>(s, l, new). (st + s, l, new)) (map (op_replacement (new_lines chunk)) ops))
      = take st ?lines @ merged st ?lines (map (\<lambda>(s, l, new). (st + s, l, new)) (map (op_replacement (new_lines chunk)) ops))"
    using take_merged[OF shift_ordered[OF script_ordered[OF okops, of "new_lines chunk"] st(1)], of 0] by simp
  ultimately show ?thesis
    using merged_shift[OF script_ordered[OF okops, of "new_lines chunk"] st(1)] st(2) result by simp
qed

section \<open>Ambiguous sites\<close>

lemma all_write_same: "all_write m out ts = Ok True \<Longrightarrow> t \<in> set ts \<Longrightarrow> trial_output m (snd t) = Ok out"
  by (induction m out ts rule: all_write.induct) (auto split: if_splits)

lemma write_same_bytes_same:
  assumes "write_same_bytes m ts = Ok True" "t \<in> set ts" "u \<in> set ts"
  shows "trial_output m (snd t) = trial_output m (snd u)"
proof -
  obtain k c rest where ts: "ts = (k, c) # rest" using assms(1) by (cases "(m, ts)" rule: write_same_bytes.cases) auto
  with assms(1) obtain out where out: "trial_output m c = Ok out" "all_write m out rest = Ok True"
    by (auto split: if_splits)
  have "v \<in> set ts \<Longrightarrow> trial_output m (snd v) = Ok out" for v
    using ts out all_write_same[OF out(2), of v] by auto
  with assms show ?thesis by simp
qed

text \<open>A pass that resolves an ambiguity found viable trials that all write the same lines.\<close>

lemma try_passes_resolved:
  assumes "try_passes m i everywhere placed passes = Ok (f, d)"
  shows "everywhere \<and> f = Finished \<and> (\<exists>pass\<in>set passes. \<exists>viable.
    viable_trials (\<lambda>trial. match_from no_nested_search m (i + 1) trial pass) placed = Ok viable
    \<and> viable \<noteq> [] \<and> d = snd (hd viable) \<and> write_same_bytes m viable = Ok True)"
  using assms
proof (induction passes)
  case (Cons pass passes)
  let ?run = "\<lambda>trial. match_from no_nested_search m (i + 1) trial pass"
  from Cons.prems obtain viable where v: "viable_trials ?run placed = Ok viable" by auto
  show ?case
  proof (cases "viable = []")
    case True
    with v Cons show ?thesis by auto
  next
    case False
    with v Cons.prems show ?thesis by (auto split: if_splits)
  qed
qed simp

lemma trial_output_text:
  assumes inv: "cursor_inv m c" "cursor_inv m d" and m: "m = matcher_of sha256 diff (prepare_source s) chunks"
    and same: "trial_output m c = trial_output m d"
  shows "final_text (prepare_source s) (into_sorted_replacements c) =
    final_text (prepare_source s) (into_sorted_replacements d)"
proof -
  let ?nl = "ps_newline (prepare_source s)" and ?phys = "split_inclusive LF s"
  define g where "g = (\<lambda>(patched, line). if patched then line @ ?nl else line)"
  have len: "length (split_inclusive LF (cm_original_contents m)) = length (cm_original_lines m)"
    and src: "cm_original_contents m = s"
    by (simp_all add: m matcher_of_def)
  have tagged: "written_lines ?nl ?phys (into_sorted_replacements x) =
      map g (merged 0 (map (Pair False) ?phys) (rep_triples (map (Pair True)) x))" for x
  proof -
    have "map g (map (Pair False) ?phys) = ?phys" by (simp add: g_def o_def)
    moreover have "map (\<lambda>(s, l, new). (s, l, map g new)) (rep_triples (map (Pair True)) x) =
        push_newlines ?nl (into_sorted_replacements x)"
      by (simp add: rep_triples_def push_newlines_def into_sorted_triples g_def o_def)
    ultimately show ?thesis by (simp only: merged_map written_lines_def)
  qed
  have "merged 0 (map (Pair False) ?phys) (rep_triples (map (Pair True)) c) =
      merged 0 (map (Pair False) ?phys) (rep_triples (map (Pair True)) d)"
    using same trial_output_merged[OF inv(1) len] trial_output_merged[OF inv(2) len] src by simp
  then show ?thesis by (simp add: final_text_def tagged)
qed

lemma disambiguate_resolved:
  assumes m: "matcher_ok m" "i < length (cm_chunks m)" and inv: "cursor_inv m c"
    and am: "located_ok m i c (Ambiguous am)" "am_out_of_order_after am = None"
    and res: "disambiguate m i c am = Ok (f, d)"
  shows "\<exists>placed viable pass. place_candidates m i am c (candidate_starts m am) = Ok (placed, True)
    \<and> pass \<noteq> Primary
    \<and> viable_trials (\<lambda>trial. match_from no_nested_search m (i + 1) trial pass) placed = Ok viable
    \<and> d = snd (hd viable) \<and> viable \<noteq> []
    \<and> (\<forall>t\<in>set viable. cursor_inv m (snd t) \<and> trial_output m (snd t) = trial_output m d)"
proof -
  from res obtain placed everywhere where pc: "place_candidates m i am c (candidate_starts m am) = Ok (placed, everywhere)"
    and tp: "try_passes m i everywhere placed [InOrder, Relocating] = Ok (f, d)"
    by (auto simp: disambiguate_def Let_def simp del: try_passes.simps split: if_splits)
  note p = place_candidates_ok[OF m inv am order_refl]
  with pc have placed: "trials_ok m placed" by simp
  from try_passes_resolved[OF tp] obtain pass viable where ev: "everywhere" and pass: "pass \<noteq> Primary"
    and v: "viable_trials (\<lambda>trial. match_from no_nested_search m (i + 1) trial pass) placed = Ok viable"
      "viable \<noteq> []" "d = snd (hd viable)" "write_same_bytes m viable = Ok True" by auto
  have "trials_ok m viable"
    using viable_trials_ok[of m "\<lambda>trial. match_from no_nested_search m (i + 1) trial pass" placed]
      trial_keeps[OF m(1) _ pass] placed v(1) by blast
  then have "\<forall>t\<in>set viable. cursor_inv m (snd t) \<and> trial_output m (snd t) = trial_output m d"
    using write_same_bytes_same[OF v(4) _ hd_in_set[OF v(2)]] unfolding v(3) trials_ok_def by blast
  moreover have "place_candidates m i am c (candidate_starts m am) = Ok (placed, True)" using pc ev by simp
  ultimately show ?thesis using pass v(1-3) by blast
qed

section \<open>Properties\<close>

lemma chunk_edit_script_applies:
  assumes "chunk_wf c" "line_kinds c \<noteq> []"
  obtains ops where "chunk_edit_operations diff c (old_lines c) = Ok ops"
    "apply_replacements (old_lines c) (map (op_replacement (new_lines c)) ops) = Ok (new_lines c)"
proof -
  obtain ops where ops: "chunk_edit_operations diff c (old_lines c) = Ok ops"
    and script: "script_from (old_lines c) (new_lines c) 0 0 ops"
    by (rule chunk_edit_operations_script[OF assms])
  then have "ordered_from (length (old_lines c)) 0 (map (op_replacement (new_lines c)) ops)"
    by (auto simp: script_from_def intro: script_ordered)
  from that[OF ops] apply_replacements_merged[OF this] script show thesis by (simp add: script_from_def)
qed

text \<open>
  C24: the edit operations computed from the line kinds of a chunk are correct: they are always
  found, without the line diff, and applying them to the old lines gives the new lines.
\<close>

theorem chunk_edit_operations_correct:
  assumes "chunk_wf c" "line_kinds c \<noteq> []"
  shows "\<exists>ops. chunk_edit_operations diff c (old_lines c) = Ok ops
    \<and> apply_replacements (old_lines c) (map (op_replacement (new_lines c)) ops) = Ok (new_lines c)"
  by (rule chunk_edit_script_applies[OF assms]) blast

definition swap_chunk :: update_file_chunk where
  "swap_chunk = \<lparr>change_context = None, old_lines = [''a''], new_lines = [''b''],
     line_kinds = [Remove, Add], is_end_of_file = False\<rparr>"

lemma swap_chunk_ok: "chunks_ok [swap_chunk]" "chunk_wf swap_chunk" "line_kinds swap_chunk \<noteq> []"
  by (simp_all add: chunks_ok_def swap_chunk_def chunk_wf_def nonempty_chunk_def chunk_is_empty_def)

theorem chunk_edit_operations_correct_witness:
  "\<exists>ops. chunk_edit_operations (\<lambda>_ _. []) swap_chunk (old_lines swap_chunk) = Ok ops
    \<and> apply_replacements (old_lines swap_chunk) (map (op_replacement (new_lines swap_chunk)) ops) =
       Ok (new_lines swap_chunk)"
  by (rule chunk_edit_operations_correct[OF swap_chunk_ok(2,3)])

text \<open>
  C11: applying the chunks of an update to a file never panics. It fails with an ordinary error of
  the matcher, or the replacements are in order, in range and disjoint, and the text written is the
  forward reading of the file with each replaced range exchanged for its new lines.
\<close>

theorem textual_contents_total:
  assumes "chunks_ok chunks" "length (split_inclusive LF s) \<le> usize_max"
  shows "case textual_contents sha256 diff (prepare_source s) chunks of
      Err e \<Rightarrow> e \<noteq> Panicked \<and> compute_replacements (matcher_of sha256 diff (prepare_source s) chunks) = Err e
    | Ok result \<Rightarrow> (\<exists>rs. compute_replacements (matcher_of sha256 diff (prepare_source s) chunks) = Ok rs
        \<and> ordered_from (length (split_inclusive LF s)) 0 rs \<and> result = final_text (prepare_source s) rs)"
  by (rule textual_contents_outcome[OF assms, of sha256 diff]) auto

theorem textual_contents_total_witness:
  "textual_contents id (\<lambda>_ _. []) (prepare_source ''x'') [swap_chunk] \<noteq> Err Panicked"
  using textual_contents_total[OF swap_chunk_ok(1), of "''x''" id "\<lambda>_ _. []"]
  by (auto simp: usize_max_def)


definition line_a :: string where
  "line_a = [CHR ''a'', LF]"

lemma line_a_prepared: "split_inclusive LF line_a = [line_a]" "logical_line line_a = ''a''"
  by (simp_all add: line_a_def) code_simp+

lemma swap_chunk_site:
  "window_sites ''exact'' (cm_original_lines (matcher_of sha256 diff (prepare_source line_a) [swap_chunk]))
     (old_lines swap_chunk) 0 (is_end_of_file swap_chunk) = {0}"
  by (auto simp: matcher_of_def line_a_prepared swap_chunk_def window_sites_def window_def site_matches_def
      tier_key_def)

lemma swap_chunk_matcher: "matcher_ok (matcher_of sha256 diff (prepare_source line_a) [swap_chunk])"
  by (rule matcher_of_ok[OF swap_chunk_ok(1)]) (simp add: line_a_prepared usize_max_def)

lemma swap_chunk_applies:
  "\<exists>rs. compute_replacements (matcher_of sha256 diff (prepare_source line_a) [swap_chunk]) = Ok rs"
  using exact_chunk_applies[OF swap_chunk_matcher _ _ _ swap_chunk_site]
  by (fastforce simp: matcher_of_def swap_chunk_def)


text \<open>
  C13: a chunk whose old lines stand at exactly one place of the file (at its end, when the chunk
  says so) is applied there: the file becomes the lines before, the new lines of the chunk and the
  lines after.
\<close>

theorem exact_chunk_written:
  assumes "matcher_ok m" "cm_chunks m = [chunk]" "change_context chunk = None" "old_lines chunk \<noteq> []"
    and "window_sites ''exact'' (cm_original_lines m) (old_lines chunk) 0 (is_end_of_file chunk) = {st}"
  shows "\<exists>rs. compute_replacements m = Ok rs \<and> apply_replacements (cm_original_lines m) rs =
    Ok (take st (cm_original_lines m) @ new_lines chunk @ drop (st + length (old_lines chunk)) (cm_original_lines m))"
proof -
  obtain rs where rs: "compute_replacements m = Ok rs" "merged 0 (cm_original_lines m) rs =
      take st (cm_original_lines m) @ new_lines chunk @ drop (st + length (old_lines chunk)) (cm_original_lines m)"
    using exact_chunk_applies[OF assms] by blast
  with apply_replacements_merged[OF compute_replacements_ok(2)[OF assms(1) rs(1)]] show ?thesis by simp
qed

theorem exact_chunk_written_witness:
  "\<exists>rs. compute_replacements (matcher_of id (\<lambda>_ _. []) (prepare_source line_a) [swap_chunk]) = Ok rs
    \<and> apply_replacements [''a''] rs = Ok [''b'']"
  using exact_chunk_written[OF swap_chunk_matcher _ _ _ swap_chunk_site, of id "\<lambda>_ _. []"]
  by (fastforce simp: matcher_of_def swap_chunk_def line_a_prepared)


definition drop_chunk :: update_file_chunk where
  "drop_chunk = \<lparr>change_context = None, old_lines = [''a''], new_lines = [],
     line_kinds = [Remove], is_end_of_file = False\<rparr>"

definition twice_matcher :: chunk_matcher where
  "twice_matcher = matcher_of id (\<lambda>_ _. []) (prepare_source (line_a @ line_a)) [drop_chunk]"

lemma line_a_twice: "split_inclusive LF (line_a @ line_a) = [line_a, line_a]"
  by (simp add: line_a_def)

lemma twice_matcher_simps:
  "cm_original_lines twice_matcher = [''a'', ''a'']" "cm_chunks twice_matcher = [drop_chunk]"
  "cm_original_contents twice_matcher = line_a @ line_a" "matcher_ok twice_matcher"
  by (simp_all add: twice_matcher_def matcher_of_def line_a_twice line_a_prepared matcher_ok_def usize_max_def
      drop_chunk_def chunk_wf_def nonempty_chunk_def chunk_is_empty_def)

lemma twice_matches: "tier_matches [''a'', ''a''] [''a''] 0 1 ''exact'' limit = take (max limit 1) [0, 1]"
  by (subst tier_matches_eq) (simp_all add: site_matches_def tier_key_def upt_rec)

definition twice_ambiguity :: ambiguity where
  "twice_ambiguity = \<lparr>am_error = \<lparr>first_line = 1, second_line = 2, strictness = ''exact''\<rparr>,
     am_pattern = [''a''], am_context = False, am_start = 0, am_eof = False, am_out_of_order_after = None\<rparr>"

lemma drop_chunk_simps:
  "change_context drop_chunk = None" "old_lines drop_chunk = [''a'']" "new_lines drop_chunk = []"
  "line_kinds drop_chunk = [Remove]" "is_end_of_file drop_chunk = False"
  "cc_line_index default_cursor = 0" "cc_anchored default_cursor = False"
  by (simp_all add: drop_chunk_def default_cursor_def)

lemma twice_seek: "seek_sequence [''a'', ''a''] [''a''] 0 False False =
    Err \<lparr>first_line = 1, second_line = 2, strictness = ''exact''\<rparr>"
  by (simp add: seek_sequence_def checked_sub_def TIERS_def twice_matches[unfolded One_nat_def])

lemma twice_locate: "locate twice_matcher 0 default_cursor True = Ok (Ambiguous twice_ambiguity)"
  by (simp add: locate_def locate_lines_def Let_def twice_matcher_simps drop_chunk_simps twice_seek
      twice_ambiguity_def)

lemma twice_starts: "candidate_starts twice_matcher twice_ambiguity = [0, 1]"
  by (simp add: candidate_starts_def Let_def ambiguous_candidates_def twice_matcher_simps twice_ambiguity_def
      checked_sub_def twice_matches[unfolded One_nat_def] AMBIGUITY_REPORT_LIMIT_def)

definition twice_trial :: "nat \<Rightarrow> chunk_cursor" where
  "twice_trial i = \<lparr>cc_replacements = [\<lparr>rep_start = i, rep_old_len = 1, rep_new_lines = [], rep_order = i\<rparr>],
     cc_claimed = [\<lparr>claim_start = i, claim_end = i + 1, claim_chunk_ordinal = 1\<rparr>],
     cc_line_index = i + 1, cc_anchored = True\<rparr>"

lemma twice_place:
  assumes "i < 2"
  shows "place twice_matcher 0 \<lparr>site_anchor = None, site_start = i\<rparr> default_cursor False =
    Ok (twice_trial i)"
  using assms
  by (cases i) (auto simp: place_def Let_def site_claim_def twice_matcher_simps drop_chunk_simps
      chunk_edit_operations_def group_op_def get_index_def get_slice_def cursor_push_def cursor_claim_def
      default_cursor_def less_Suc_eq numeral_2_eq_2 twice_trial_def)

lemma twice_candidates:
  "place_candidates twice_matcher 0 twice_ambiguity default_cursor [0, 1] =
     Ok ([(0, twice_trial 0), (1, twice_trial 1)], True)"
  by (simp add: candidate_site_def twice_ambiguity_def twice_place)

lemma twice_trial_output: "i < 2 \<Longrightarrow> trial_output twice_matcher (twice_trial i) = Ok (Some [(False, line_a)])"
  by (cases i) (auto simp: trial_output_def twice_matcher_simps line_a_twice twice_trial_def cursor_sorted_def
      splice_def Let_def)

lemma twice_disambiguate: "\<exists>d. disambiguate twice_matcher 0 default_cursor twice_ambiguity = Ok (Finished, d)"
proof -
  have "match_from no_nested_search twice_matcher 1 trial InOrder = Ok trial" for trial
    by (simp add: match_from_def twice_matcher_simps)
  then have "try_passes twice_matcher 0 True [(0, twice_trial 0), (1, twice_trial 1)] [InOrder, Relocating] =
      Ok (Finished, twice_trial 0)"
    by (simp add: twice_trial_output)
  then show ?thesis
    using twice_candidates
    by (simp add: disambiguate_def Let_def twice_starts DISAMBIGUATION_CANDIDATE_LIMIT_def
        del: place_candidates.simps try_passes.simps)
qed


end
