(* ===== verification/Exact_Edits.thy ===== *)
theory Exact_Edits
  imports Matcher_Results
begin

text \<open>
  The revision-bound edits of \<^verbatim>\<open>unique_anchor.rs\<close> and \<^verbatim>\<open>counted_replace.rs\<close>, and
  \<^verbatim>\<open>new_contents_from_prepared\<close> of \<^verbatim>\<open>lib.rs\<close>, which chooses between them, JSON edits and the chunk
  matcher. The SHA-256 of a text (in hexadecimal), the JSON decoders and the JSON editor are
  parameters: \<open>sha256\<close>, \<open>anchor_json\<close> (\<^verbatim>\<open>serde_json::from_str::<AnchorReplacement>\<close>),
  \<open>string_json\<close> (\<^verbatim>\<open>serde_json::from_str::<String>\<close>) and \<open>json_apply\<close> (\<^verbatim>\<open>json_edit::apply\<close>).
  The lemmas state byte for byte what each edit does to the file.
\<close>

section \<open>Occurrences of a string\<close>

text \<open>
  \<^verbatim>\<open>match_indices\<close> and \<^verbatim>\<open>replace\<close> scan from the left and continue after each match. The pattern is
  not empty wherever the code uses them.
\<close>

function (sequential) pieces :: "string \<Rightarrow> string \<Rightarrow> string list" where
  "pieces needle s =
     (if needle = [] then [s]
      else case find_str needle s of
        None \<Rightarrow> [s]
      | Some i \<Rightarrow> take i s # pieces needle (drop (i + length needle) s))"
  by pat_completeness auto
termination
proof (relation "measure (\<lambda>(needle, s). length s)")
  fix needle s :: string and i
  assume "needle \<noteq> []" "find_str needle s = Some i"
  then show "((needle, drop (i + length needle) s), needle, s) \<in> measure (\<lambda>(needle, s). length s)"
    using find_str_Some[of needle s i] by (cases needle) auto
qed simp

declare pieces.simps [simp del]

definition match_count :: "string \<Rightarrow> string \<Rightarrow> nat" where
  "match_count needle s = length (pieces needle s) - 1"

definition str_replace :: "string \<Rightarrow> string \<Rightarrow> string \<Rightarrow> string" where
  "str_replace needle replacement s = join replacement (pieces needle s)"

lemma pieces_ne [simp]: "pieces needle s \<noteq> []"
  by (subst pieces.simps) (auto split: option.split)

lemma join_Cons: "ws \<noteq> [] \<Longrightarrow> join d (w # ws) = w @ d @ join d ws"
  by (cases ws) auto

lemma find_str_split:
  assumes "find_str p s = Some i"
  shows "s = take i s @ p @ drop (i + length p) s"
proof -
  obtain r where r: "s = take i s @ p @ r" and len: "i + length p \<le> length s"
    using find_str_Some[OF assms] by blast
  have "drop (i + length p) s = drop (i + length p) (take i s @ p @ r)" using r by simp
  also have "\<dots> = r" using len by simp
  finally show ?thesis using r by simp
qed

lemma join_pieces [simp]: "needle \<noteq> [] \<Longrightarrow> join needle (pieces needle s) = s"
proof (induction needle s rule: pieces.induct)
  case (1 needle s)
  show ?case
  proof (cases "find_str needle s")
    case None
    then show ?thesis by (simp add: pieces.simps[of needle s])
  next
    case (Some i)
    with 1 have "join needle (pieces needle s) = take i s @ needle @ drop (i + length needle) s"
      by (simp add: pieces.simps[of needle s] join_Cons)
    with find_str_split[OF Some] show ?thesis by simp
  qed
qed

lemma find_str_before:
  assumes "find_str p s = Some i" "p \<noteq> []"
  shows "\<not> contains_str p (take i s)"
proof
  assume "contains_str p (take i s)"
  then obtain j where j: "find_str p (take i s) = Some j" by (auto simp: contains_str_def)
  obtain r where r: "take i s = take j (take i s) @ p @ r" and len: "j + length p \<le> length (take i s)"
    using find_str_Some[OF j] by blast
  have ji: "j < i" using len assms(2) by (cases p) auto
  have "s = take j s @ p @ r @ drop i s"
    using r ji by (metis append.assoc append_take_drop_id less_imp_le min.absorb1 take_take)
  moreover have "length (take j s) = j" using len by simp
  ultimately have "drop j s = p @ r @ drop i s"
    by (metis append_eq_conv_conj)
  then show False using find_str_least[OF assms(1) ji] by simp
qed

lemma pieces_free: "needle \<noteq> [] \<Longrightarrow> w \<in> set (pieces needle s) \<Longrightarrow> \<not> contains_str needle w"
proof (induction needle s arbitrary: w rule: pieces.induct)
  case (1 needle s)
  show ?case
  proof (cases "find_str needle s")
    case None
    with 1 show ?thesis by (simp add: pieces.simps[of needle s] contains_str_def)
  next
    case (Some i)
    with 1 find_str_before[OF Some] show ?thesis by (auto simp: pieces.simps[of needle s])
  qed
qed

section \<open>Messages\<close>

record path_text =
  uri_text :: string
  native_text :: string

definition explain_rejection :: "(string \<Rightarrow> string) \<Rightarrow> path_text \<Rightarrow> string \<Rightarrow> update_file_chunk list \<Rightarrow>
    apply_patch_error \<Rightarrow> apply_patch_error" where
  "explain_rejection sha256 path original chunks err =
     (let note =
        [LF] @ ''File: '' @ uri_text path @ '' (source sha256: '' @ sha256 original @ '')'' @ [LF] @
        ''Expected patch excerpt (bounded; may be empty for hash-only edits):'' @ [LF] @
        bounded_expected_lines (concat (map old_lines chunks)) @ [LF] @
        ''Current excerpt (bounded, from line 1):'' @ [LF] @ bounded_expected_lines (str_lines original)
      in case err of
           ComputeReplacements message \<Rightarrow> ComputeReplacements (message @ note)
         | RevisionGuardMismatch message \<Rightarrow> RevisionGuardMismatch (message @ note)
         | other \<Rightarrow> other)"

section \<open>Unique anchors\<close>

definition is_anchor_chunk :: "update_file_chunk \<Rightarrow> bool" where
  "is_anchor_chunk chunk =
     (case change_context chunk of
        Some ctx \<Rightarrow> ctx = ''codex-anchor'' \<or> starts_with ''codex-anchor '' ctx
      | None \<Rightarrow> False)"

record anchor_replacement =
  ar_before :: string
  ar_after :: string
  ar_replacement :: string

definition anchor_invalid :: "path_text \<Rightarrow> string \<Rightarrow> apply_patch_error" where
  "anchor_invalid path message =
     ComputeReplacements (''Invalid codex-anchor in '' @ native_text path @ '': '' @ message)"

definition unique_position :: "path_text \<Rightarrow> string \<Rightarrow> string \<Rightarrow> string \<Rightarrow> nat outcome" where
  "unique_position path source anchor name =
     (case find_str anchor source of
        None \<Rightarrow> Err (anchor_invalid path (name @ '' anchor is missing''))
      | Some start \<Rightarrow>
          if rfind_str anchor source \<noteq> Some start then
            Err (anchor_invalid path (name @ '' anchor is ambiguous''))
          else Ok start)"

definition anchor_edit :: "path_text \<Rightarrow> string \<Rightarrow> anchor_replacement \<Rightarrow> string outcome" where
  "anchor_edit path source edit =
     (if ar_before edit = [] \<or> ar_after edit = [] then
        Err (anchor_invalid path ''before and after anchors must be nonempty'')
      else
        and_then (unique_position path source (ar_before edit) ''before'') (\<lambda>before_start.
        and_then (unique_position path source (ar_after edit) ''after'') (\<lambda>stop.
          let start = before_start + length (ar_before edit) in
          if stop < start then
            Err (anchor_invalid path
              ''anchors are reversed or overlapping; before must end at or before after starts'')
          else splice start stop (ar_replacement edit) source)))"

definition anchor_replace :: "(string \<Rightarrow> string) \<Rightarrow> (string \<Rightarrow> anchor_replacement option) \<Rightarrow> path_text \<Rightarrow>
    string \<Rightarrow> update_file_chunk list \<Rightarrow> string outcome" where
  "anchor_replace sha256 anchor_json path source chunks =
     (case chunks of
        [chunk] \<Rightarrow>
          (case Option.bind (change_context chunk) (strip_prefix ''codex-anchor sha256:'') of
             None \<Rightarrow> Err (anchor_invalid path (''expected @@ codex-anchor '' @ SOURCE_HASH_FORM))
           | Some hash_text \<Rightarrow>
               (case source_hash_parse hash_text of
                  Err e \<Rightarrow> Err (anchor_invalid path (source_hash_error_text e))
                | Ok (SourceHashRef h) \<Rightarrow>
                    if \<not> source_hash_matches (SourceHashRef h) (sha256 source) then
                      Err (RevisionGuardMismatch
                        (''codex-anchor revision guard failed for '' @ native_text path @ '': expected '' @ h @
                         '', current '' @ sha256 source @
                         ''. Re-read and reconcile before submitting a fresh patch.''))
                    else if old_lines chunk \<noteq> [] \<or> length (new_lines chunk) \<noteq> 1 \<or> is_end_of_file chunk
                      \<or> list_ex (\<lambda>kind. kind \<noteq> Add) (line_kinds chunk) then
                      Err (anchor_invalid path
                        ''expected one + line containing a JSON object with before, after, and replacement strings'')
                    else
                      (case anchor_json (hd (new_lines chunk)) of
                         None \<Rightarrow> Err (anchor_invalid path
                           ''expected a JSON object with only before, after, and replacement strings'')
                       | Some edit \<Rightarrow> anchor_edit path source edit)))
      | _ \<Rightarrow> Err (anchor_invalid path
               ''use exactly one codex-anchor chunk per file; do not mix with other chunks''))"

section \<open>Counted replacement\<close>

definition COUNTED_PREFIX :: string where
  "COUNTED_PREFIX = ''codex-replace ''"

definition counted_invalid :: "path_text \<Rightarrow> string \<Rightarrow> apply_patch_error" where
  "counted_invalid path message =
     ComputeReplacements (''Invalid codex-replace in '' @ native_text path @ '': '' @ message)"

definition counted_edit :: "(string \<Rightarrow> string option) \<Rightarrow> path_text \<Rightarrow> string \<Rightarrow> nat \<Rightarrow> update_file_chunk \<Rightarrow> string outcome" where
  "counted_edit string_json path source expected chunk =
     (case string_json (hd (old_lines chunk)) of
        None \<Rightarrow> Err (counted_invalid path ''the removed line must contain one JSON string'')
      | Some needle \<Rightarrow>
     (case string_json (hd (new_lines chunk)) of
        None \<Rightarrow> Err (counted_invalid path ''the added line must contain one JSON string'')
      | Some replacement \<Rightarrow>
          if needle = [] then Err (counted_invalid path ''the search string must not be empty'')
          else if match_count needle source \<noteq> expected then
            Err (ComputeReplacements
              (''codex-replace count mismatch for '' @ native_text path @ '': expected '' @ show_nat expected @
               '' exact non-overlapping occurrences, found '' @ show_nat (match_count needle source)))
          else Ok (str_replace needle replacement source)))"

definition counted_replace :: "(string \<Rightarrow> string) \<Rightarrow> (string \<Rightarrow> string option) \<Rightarrow> path_text \<Rightarrow> string \<Rightarrow>
    update_file_chunk list \<Rightarrow> string outcome" where
  "counted_replace sha256 string_json path source chunks =
     (case chunks of
        [chunk] \<Rightarrow>
          (case Option.bind (change_context chunk) (strip_prefix COUNTED_PREFIX) of
             None \<Rightarrow> Err (counted_invalid path ''missing replacement descriptor'')
           | Some descriptor \<Rightarrow>
          (case split_once '' sha256:'' descriptor of
             None \<Rightarrow> Err (counted_invalid path (''expected COUNT '' @ SOURCE_HASH_FORM))
           | Some (count_text, hash_text) \<Rightarrow>
               if count_text = [] \<or> \<not> list_all is_ascii_digit count_text then
                 Err (counted_invalid path ''expected a nonnegative occurrence count'')
               else
          (case source_hash_parse hash_text of
             Err e \<Rightarrow> Err (counted_invalid path (source_hash_error_text e))
           | Ok (SourceHashRef h) \<Rightarrow>
          (case parse_usize count_text of
             None \<Rightarrow> Err (counted_invalid path ''occurrence count is too large'')
           | Some expected \<Rightarrow>
               if \<not> source_hash_matches (SourceHashRef h) (sha256 source) then
                 Err (RevisionGuardMismatch
                   (''codex-replace revision guard failed for '' @ native_text path @ '': expected '' @ h @
                    '', current '' @ sha256 source @
                    ''. Re-read and reconcile before submitting a fresh patch.''))
               else if is_end_of_file chunk \<or> length (old_lines chunk) \<noteq> 1 \<or> length (new_lines chunk) \<noteq> 1
                 \<or> (line_kinds chunk \<noteq> [] \<and> line_kinds chunk \<noteq> [Remove, Add]) then
                 Err (counted_invalid path
                   ''expected one -JSON-string followed by one +JSON-string, without context or End of File markers'')
               else counted_edit string_json path source expected chunk))))
      | _ \<Rightarrow> Err (counted_invalid path
               ''use exactly one count-guarded replacement chunk per file; do not mix with line hunks''))"

section \<open>Choosing the edit\<close>

definition is_json_chunk :: "update_file_chunk \<Rightarrow> bool" where
  "is_json_chunk chunk =
     (case change_context chunk of
        Some ctx \<Rightarrow> ctx = ''codex-json'' \<or> starts_with ''codex-json '' ctx
      | None \<Rightarrow> False)"

definition is_counted_chunk :: "update_file_chunk \<Rightarrow> bool" where
  "is_counted_chunk chunk =
     (case change_context chunk of Some ctx \<Rightarrow> starts_with COUNTED_PREFIX ctx | None \<Rightarrow> False)"

record edit_environment =
  env_sha256 :: "string \<Rightarrow> string"
  env_diff :: "string list \<Rightarrow> string list \<Rightarrow> diff_op list"
  env_anchor_json :: "string \<Rightarrow> anchor_replacement option"
  env_string_json :: "string \<Rightarrow> string option"
  env_json_apply :: "string \<Rightarrow> update_file_chunk list \<Rightarrow> string \<Rightarrow> (string, string) result"

definition new_contents_from_prepared :: "edit_environment \<Rightarrow> path_text \<Rightarrow> prepared_source \<Rightarrow>
    update_file_chunk list \<Rightarrow> string outcome" where
  "new_contents_from_prepared env path source chunks =
     (let original = ps_contents source;
          explain = map_err (explain_rejection (env_sha256 env) path original chunks)
      in if chunks = [] then Ok original
         else if list_ex is_anchor_chunk chunks then
           explain (anchor_replace (env_sha256 env) (env_anchor_json env) path original chunks)
         else if list_ex is_json_chunk chunks then
           explain (map_err (\<lambda>e. ComputeReplacements (native_text path @ '': '' @ e))
             (env_json_apply env original chunks (ps_newline source)))
         else if list_ex is_counted_chunk chunks then
           explain (counted_replace (env_sha256 env) (env_string_json env) path original chunks)
         else textual_contents (env_sha256 env) (env_diff env) source chunks)"

definition new_contents_from_chunks :: "edit_environment \<Rightarrow> path_text \<Rightarrow> string \<Rightarrow> update_file_chunk list \<Rightarrow> string outcome" where
  "new_contents_from_chunks env path original chunks =
     new_contents_from_prepared env path (prepare_source original) chunks"

definition chunk_without_unique_site :: "string \<Rightarrow> update_file_chunk list \<Rightarrow> nat option" where
  "chunk_without_unique_site source chunks =
     (let lines = ps_logical_lines (prepare_source source);
          unsure = (\<lambda>chunk.
            if is_json_chunk chunk \<or> is_anchor_chunk chunk \<or> range_handle chunk \<noteq> None \<or> is_counted_chunk chunk
            then False
            else let site = (case change_context chunk of Some ctx \<Rightarrow> [ctx] | None \<Rightarrow> []) @ old_lines chunk
                 in site \<noteq> [] \<and> length (candidate_starts_at_any_tier lines site 2) \<noteq> 1)
      in map_option (\<lambda>index. index + 1) (find_index unsure chunks))"

section \<open>What an edit does to the file\<close>

lemma unique_position_ok:
  assumes "unique_position path source anchor name = Ok i" "anchor \<noteq> []"
  shows "starts_with anchor (drop i source)" "i + length anchor \<le> length source"
    "starts_with anchor (drop j source) \<Longrightarrow> j = i"
proof -
  have f: "find_str anchor source = Some i" "rfind_str anchor source = Some i"
    using assms(1) by (auto simp: unique_position_def split: option.splits if_splits)
  show "starts_with anchor (drop i source)" by (rule rfind_str_Some[OF f(2)])
  show "i + length anchor \<le> length source" using find_str_Some[OF f(1)] by blast
  assume j: "starts_with anchor (drop j source)"
  then have "j \<le> length source" using assms(2) by (cases "j \<le> length source") auto
  with j find_str_least[OF f(1), of j] rfind_str_greatest[OF f(2), of j] show "j = i"
    by (cases j i rule: linorder_cases) auto
qed

lemma starts_with_split:
  assumes "starts_with p (drop i s)"
  shows "s = take i s @ p @ drop (i + length p) s"
proof -
  obtain r where r: "drop i s = p @ r" using assms by (auto simp: starts_with_iff)
  then have "drop (i + length p) s = r" by (metis append_eq_conv_conj drop_drop add.commute)
  with r show ?thesis by (metis append_take_drop_id)
qed

text \<open>An anchor edit replaces what lies between its two anchors and keeps every other byte.\<close>

definition anchors_once :: "string \<Rightarrow> string \<Rightarrow> nat \<Rightarrow> bool" where
  "anchors_once anchor source i \<longleftrightarrow> (\<forall>j. starts_with anchor (drop j source) \<longleftrightarrow> j = i)"

lemma anchor_edit_ok:
  assumes "anchor_edit path source edit = Ok result"
  shows "\<exists>pre mid post. source = pre @ ar_before edit @ mid @ ar_after edit @ post
    \<and> result = pre @ ar_before edit @ ar_replacement edit @ ar_after edit @ post
    \<and> anchors_once (ar_before edit) source (length pre)
    \<and> anchors_once (ar_after edit) source (length pre + length (ar_before edit) + length mid)"
proof -
  let ?b = "ar_before edit" and ?a = "ar_after edit"
  from assms obtain i j where ne: "?b \<noteq> []" "?a \<noteq> []"
    and i: "unique_position path source ?b ''before'' = Ok i"
    and j: "unique_position path source ?a ''after'' = Ok j"
    and le: "i + length ?b \<le> j"
    and res: "splice (i + length ?b) j (ar_replacement edit) source = Ok result"
    by (auto simp: anchor_edit_def Let_def split: if_splits)
  note I = unique_position_ok[OF i ne(1)] and J = unique_position_ok[OF j ne(2)]
  define mid where "mid = take (j - (i + length ?b)) (drop (i + length ?b) source)"
  have lens: "length (take i source) = i" "length mid = j - (i + length ?b)"
    using I(2) J(2) le by (auto simp: mid_def)
  have tail: "drop j source = ?a @ drop (j + length ?a) source"
    using starts_with_split[OF J(1)] J(2) by (metis append_take_drop_id same_append_eq)
  have "drop (i + length ?b) source = mid @ drop j source"
    unfolding mid_def using le by (metis append_take_drop_id drop_drop le_add_diff_inverse2)
  then have src: "source = take i source @ ?b @ mid @ ?a @ drop (j + length ?a) source"
    using starts_with_split[OF I(1)] tail by metis
  have head: "take (i + length ?b) source = take i source @ ?b"
    using starts_with_split[OF I(1)] lens(1) by (metis append.assoc append_eq_conv_conj length_append)
  have "result = take i source @ ?b @ ar_replacement edit @ ?a @ drop (j + length ?a) source"
    using res head tail by (auto simp: splice_def split: if_splits)
  moreover have "anchors_once ?b source i" unfolding anchors_once_def using I(1,3) by blast
  moreover have "anchors_once ?a source j" unfolding anchors_once_def using J(1,3) by blast
  ultimately show ?thesis
  proof (intro exI conjI)
    show "source = take i source @ ?b @ mid @ ?a @ drop (j + length ?a) source" by (rule src)
  qed (use lens le in simp_all)
qed

lemma unique_position_not_panicked: "not_panicked (unique_position path source anchor name)"
  by (simp add: unique_position_def anchor_invalid_def split: option.split)

lemma unique_position_le: "unique_position path source anchor name = Ok j \<Longrightarrow> j \<le> length source"
  using find_str_Some[of anchor source j]
  by (auto simp: unique_position_def split: option.splits if_splits)

lemma anchor_edit_not_panicked: "not_panicked (anchor_edit path source edit)"
  by (auto simp: anchor_edit_def anchor_invalid_def splice_def Let_def
      dest: unique_position_le intro!: not_panicked_and_then unique_position_not_panicked)

lemma anchor_replace_cases:
  assumes "anchor_replace sha256 anchor_json path source chunks = Ok result"
  obtains chunk h edit where "chunks = [chunk]" "hash_ref_ok h" "source_hash_matches h (sha256 source)"
    "anchor_json (hd (new_lines chunk)) = Some edit" "anchor_edit path source edit = Ok result"
  using assms source_hash_parse_ok
  by (auto simp: anchor_replace_def simp del: source_hash_matches.simps hash_ref_ok.simps
      split: list.splits option.splits result.splits source_hash_ref.splits if_splits)

lemma anchor_replace_not_panicked: "not_panicked (anchor_replace sha256 anchor_json path source chunks)"
  using anchor_edit_not_panicked
  by (auto simp: anchor_replace_def anchor_invalid_def simp del: source_hash_matches.simps
      split: list.splits option.splits result.splits source_hash_ref.splits)

text \<open>A counted replacement rewrites all occurrences, whose number it was told.\<close>

lemma counted_edit_cases:
  assumes "counted_edit string_json path source expected chunk = Ok result"
  obtains needle replacement where "string_json (hd (old_lines chunk)) = Some needle"
    "string_json (hd (new_lines chunk)) = Some replacement" "needle \<noteq> []"
    "match_count needle source = expected" "result = str_replace needle replacement source"
  using assms by (auto simp: counted_edit_def split: option.splits if_splits)

lemma counted_replace_cases:
  assumes "counted_replace sha256 string_json path source chunks = Ok result"
  obtains chunk h expected where "chunks = [chunk]" "hash_ref_ok h" "source_hash_matches h (sha256 source)"
    "length (old_lines chunk) = 1" "length (new_lines chunk) = 1"
    "\<exists>rest. change_context chunk = Some (COUNTED_PREFIX @ rest) \<and>
       (\<exists>count_text hash_text. split_once '' sha256:'' rest = Some (count_text, hash_text)
          \<and> parse_usize count_text = Some expected)"
    "counted_edit string_json path source expected chunk = Ok result"
proof -
  from assms obtain chunk where chunk: "chunks = [chunk]"
    by (auto simp: counted_replace_def split: list.splits)
  from assms chunk obtain rest where rest: "Option.bind (change_context chunk) (strip_prefix COUNTED_PREFIX) = Some rest"
    by (auto simp: counted_replace_def split: option.splits)
  from assms chunk rest obtain ct ht where split: "split_once '' sha256:'' rest = Some (ct, ht)"
    by (auto simp: counted_replace_def split: option.splits)
  from assms chunk rest split obtain h where h: "source_hash_parse ht = Ok h"
    by (auto simp: counted_replace_def split: result.splits if_splits)
  from assms chunk rest split h obtain expected where e: "parse_usize ct = Some expected"
    by (auto simp: counted_replace_def split: option.splits source_hash_ref.splits if_splits)
  show thesis
    by (rule that[OF chunk source_hash_parse_ok[OF h]])
       (use assms chunk rest split h e in \<open>auto simp: counted_replace_def bind_eq_Some_conv
          simp del: source_hash_matches.simps split: source_hash_ref.splits if_splits\<close>)
qed

lemma counted_replace_not_panicked: "not_panicked (counted_replace sha256 string_json path source chunks)"
  by (auto simp: counted_replace_def counted_edit_def counted_invalid_def simp del: source_hash_matches.simps
      split: list.splits option.splits result.splits source_hash_ref.splits prod.splits)

lemma map_err_explain_not_panicked:
  "not_panicked r \<Longrightarrow> not_panicked (map_err (explain_rejection sha256 path original chunks) r)"
  by (cases r) (auto simp: explain_rejection_def Let_def split: apply_patch_error.splits)

lemma new_contents_not_panicked:
  assumes "chunks_ok chunks" "length (split_inclusive LF original) \<le> usize_max"
  shows "not_panicked (new_contents_from_chunks env path original chunks)"
proof -
  have "not_panicked (textual_contents (env_sha256 env) (env_diff env) (prepare_source original) chunks)"
    by (rule textual_contents_outcome[OF assms, of "env_sha256 env" "env_diff env"]) (simp_all add: not_panicked_def)
  moreover have "not_panicked (map_err (\<lambda>e. ComputeReplacements (native_text path @ '': '' @ e)) r)"
    for r :: "(string, string) result" by (cases r) auto
  ultimately show ?thesis
    unfolding new_contents_from_chunks_def new_contents_from_prepared_def Let_def
    by (auto intro!: map_err_explain_not_panicked anchor_replace_not_panicked counted_replace_not_panicked)
qed

lemma chunk_without_unique_site_None:
  assumes none: "chunk_without_unique_site source chunks = None" and chunk: "chunk \<in> set chunks"
    and textual: "\<not> is_json_chunk chunk" "\<not> is_anchor_chunk chunk" "range_handle chunk = None" "\<not> is_counted_chunk chunk"
    and site: "site = (case change_context chunk of Some ctx \<Rightarrow> [ctx] | None \<Rightarrow> []) @ old_lines chunk" "site \<noteq> []"
  shows "\<exists>!i. \<exists>t\<in>set TIERS. site_matches (tier_key t) (ps_logical_lines (prepare_source source)) site i"
proof -
  let ?lines = "ps_logical_lines (prepare_source source)"
  have "length (candidate_starts_at_any_tier ?lines site 2) = 1"
    using none chunk textual site
    by (auto simp: chunk_without_unique_site_def Let_def find_index_None)
  then obtain i where i: "candidate_starts_at_any_tier ?lines site 2 = [i]" by (auto simp: length_Suc_conv)
  have "i \<in> set (candidate_starts_at_any_tier ?lines site 2)" using i by simp
  then have "site_matches normalise ?lines site i"
    using site(2) unfolding candidate_starts_at_any_tier_def checked_sub_def
    by (auto simp: tier_matches_eq TIERS_def tier_key_def simp del: upt_Suc prepare_source_lengths
        split: if_splits dest!: in_set_takeD)
  moreover have "tier_key ''Unicode-normalized'' = normalise" "''Unicode-normalized'' \<in> set TIERS"
    by (simp_all add: tier_key_def TIERS_def)
  ultimately show ?thesis using candidate_starts_unique[OF i] by metis
qed

section \<open>Properties\<close>


definition example_hash :: string where
  "example_hash = ''0123456789ab''"

definition example_path :: path_text where
  "example_path = \<lparr>uri_text = ''f'', native_text = ''f''\<rparr>"

definition anchor_chunk :: update_file_chunk where
  "anchor_chunk = \<lparr>change_context = Some (''codex-anchor sha256:'' @ example_hash), old_lines = [],
     new_lines = [''{}''], line_kinds = [Add], is_end_of_file = False\<rparr>"

definition anchor_example :: anchor_replacement where
  "anchor_example = \<lparr>ar_before = ''<'', ar_after = ''>'', ar_replacement = ''new''\<rparr>"

lemma example_hash_ok:
  "source_hash_parse example_hash = Ok (SourceHashRef example_hash)"
  "source_hash_matches (SourceHashRef example_hash) example_hash"
  by (simp_all add: source_hash_parse_def example_hash_def MIN_PREFIX_LEN_def FULL_LEN_def eq_ignore_ascii_case_def)
     (code_simp)+

lemma anchor_example_edit: "anchor_edit example_path ''a<old>b'' anchor_example = Ok ''a<new>b''"
  by code_simp

lemma anchor_example_replace:
  "anchor_replace (\<lambda>_. example_hash) (\<lambda>_. Some anchor_example) example_path ''a<old>b'' [anchor_chunk] = Ok ''a<new>b''"
  by (simp add: anchor_replace_def anchor_chunk_def example_hash_ok anchor_example_edit
      del: source_hash_matches.simps)



definition counted_chunk :: update_file_chunk where
  "counted_chunk = \<lparr>change_context = Some (''codex-replace 2 sha256:'' @ example_hash), old_lines = [''a''],
     new_lines = [''b''], line_kinds = [Remove, Add], is_end_of_file = False\<rparr>"

lemma counted_example_replace:
  "counted_replace (\<lambda>_. example_hash) Some example_path ''xaya'' [counted_chunk] = Ok ''xbyb''"
proof -
  define rest where "rest = ''2 sha256:'' @ example_hash"
  have edit: "counted_edit Some example_path ''xaya'' 2 counted_chunk = Ok ''xbyb''" by code_simp
  have split: "split_once '' sha256:'' rest = Some (''2'', example_hash)"
    unfolding rest_def example_hash_def by code_simp
  have bind: "Option.bind (change_context counted_chunk) (strip_prefix COUNTED_PREFIX) = Some rest"
    unfolding rest_def example_hash_def counted_chunk_def by code_simp
  have fields: "old_lines counted_chunk = [''a'']" "new_lines counted_chunk = [''b'']"
    "line_kinds counted_chunk = [Remove, Add]" "\<not> is_end_of_file counted_chunk"
    by (simp_all add: counted_chunk_def)
  have digits: "digits_val ''2'' = 2" "list_all is_ascii_digit ''2''" "strip_prefix ''+'' ''2'' = None"
    by code_simp+
  then have "parse_usize ''2'' = Some 2" by (simp add: parse_usize_def usize_max_def)
  with edit split bind fields digits show ?thesis
    by (simp add: counted_replace_def example_hash_ok del: source_hash_matches.simps)
qed


text \<open>
  When the pre-check finds no chunk without a unique site, every textual chunk with something to
  look for (its context line followed by its old lines) matches the file at exactly one place, even
  in the weakest comparison tier.
\<close>

lemma unique_site_check_sound:
  assumes "chunk_without_unique_site source chunks = None" "chunk \<in> set chunks"
    and "\<not> is_json_chunk chunk" "\<not> is_anchor_chunk chunk" "range_handle chunk = None" "\<not> is_counted_chunk chunk"
    and "site = (case change_context chunk of Some ctx \<Rightarrow> [ctx] | None \<Rightarrow> []) @ old_lines chunk" "site \<noteq> []"
  shows "\<exists>!i. \<exists>t\<in>set TIERS. site_matches (tier_key t) (ps_logical_lines (prepare_source source)) site i"
  using assms by (rule chunk_without_unique_site_None)

lemma swap_chunk_textual:
  "\<not> is_json_chunk swap_chunk" "\<not> is_anchor_chunk swap_chunk" "range_handle swap_chunk = None"
  "\<not> is_counted_chunk swap_chunk"
  by (simp_all add: swap_chunk_def is_json_chunk_def is_anchor_chunk_def range_handle_def is_counted_chunk_def)

lemma swap_chunk_unique: "chunk_without_unique_site line_a [swap_chunk] = None"
  by (simp add: chunk_without_unique_site_def swap_chunk_textual Let_def line_a_prepared)
     (simp add: swap_chunk_def candidate_starts_at_any_tier_def checked_sub_def tier_matches_eq site_matches_def
       TIERS_def)

theorem unique_site_check_sound_witness:
  "\<exists>!i. \<exists>t\<in>set TIERS. site_matches (tier_key t) (ps_logical_lines (prepare_source line_a)) [''a''] i"
  by (rule unique_site_check_sound[OF swap_chunk_unique _ swap_chunk_textual]) (simp_all add: swap_chunk_def)

end
