(* ===== verification/Exec_Policy.thy ===== *)
theory Exec_Policy
  imports Rust_Base
begin

text \<open>
  The execution policy of \<^verbatim>\<open>execpolicy\<close>: decisions, prefix rules, the policy with its derived index
  by executable name, and the evaluation of commands (\<^verbatim>\<open>decision.rs\<close>, \<^verbatim>\<open>executable_name.rs\<close>,
  \<^verbatim>\<open>rule.rs\<close>, \<^verbatim>\<open>policy.rs\<close>).

  \<^item> A \<^verbatim>\<open>MultiMap\<close> is a map from keys to nonempty vectors. The order in which it lists its entries is
    not specified; it is the host function \<open>host_iter_all\<close>, about which only \<open>iterates\<close> is used.
  \<^item> What depends on the platform and on other crates is the record \<open>host\<close>: the operating system,
    file names and absolute paths (an \<^verbatim>\<open>AbsolutePathBuf\<close> is its text), shell words and IP addresses.
  \<^item> A panic (a slice out of range, the evaluation of no matches) is \<open>None\<close>.

  The lemmas show that the index and the visitor find exactly the rules a scan of all rules finds,
  and that the strictest applicable rule decides.
\<close>

section \<open>Decisions\<close>

datatype decision = Allow | Prompt | Forbidden

fun strictness_rank :: "decision \<Rightarrow> nat" where
  "strictness_rank Allow = 0"
| "strictness_rank Prompt = 1"
| "strictness_rank Forbidden = 2"

lemma strictness_rank_inject [simp]: "strictness_rank a = strictness_rank b \<longleftrightarrow> a = b"
  by (cases a; cases b) auto

text \<open>The derived \<^verbatim>\<open>Ord\<close>: constructors in the order of their declaration.\<close>

instantiation decision :: linorder
begin

definition less_eq_decision :: "decision \<Rightarrow> decision \<Rightarrow> bool" where
  "less_eq_decision a b \<longleftrightarrow> strictness_rank a \<le> strictness_rank b"

definition less_decision :: "decision \<Rightarrow> decision \<Rightarrow> bool" where
  "less_decision a b \<longleftrightarrow> strictness_rank a < strictness_rank b"

instance
  by standard (auto simp: less_eq_decision_def less_decision_def)

end

lemma Forbidden_top: "Forbidden \<le> d \<longleftrightarrow> d = Forbidden" "d \<le> Forbidden"
  by (cases d; simp add: less_eq_decision_def)+

lemma Allow_bot [simp]: "Allow \<le> d" "d \<le> Allow \<longleftrightarrow> d = Allow"
  by (cases d; simp add: less_eq_decision_def)+

section \<open>Patterns, rules and errors\<close>

datatype pattern_token = Single string | Alts "string list"

record prefix_pattern =
  pat_first :: string
  pat_rest :: "pattern_token list"

datatype rule_match =
    PrefixRuleMatch "string list" decision "string option" "string option"
  | HeuristicsRuleMatch "string list" decision

record prefix_rule =
  rule_pattern :: prefix_pattern
  rule_decision :: decision
  rule_justification :: "string option"

record error_location =
  loc_path :: string
  loc_start :: "nat \<times> nat"
  loc_end :: "nat \<times> nat"

text \<open>
  The example errors carry the rules themselves where the source keeps their debug rendering.
  \<open>Policy_Panicked\<close> stands for a slice out of range.
\<close>

datatype policy_error =
    InvalidDecision string
  | InvalidPattern string
  | InvalidExample string
  | InvalidRule string
  | ExampleDidNotMatch "prefix_rule list" "string list" "error_location option"
  | ExampleDidMatch rule_match string "error_location option"
  | Starlark string
  | Policy_Panicked

fun with_location :: "error_location \<Rightarrow> policy_error \<Rightarrow> policy_error" where
  "with_location location (ExampleDidNotMatch rules examples None) = ExampleDidNotMatch rules examples (Some location)"
| "with_location location (ExampleDidMatch rule example None) = ExampleDidMatch rule example (Some location)"
| "with_location location other = other"

fun decision_parse :: "string \<Rightarrow> (decision, policy_error) result" where
  "decision_parse raw =
     (if raw = ''allow'' then Ok Allow
      else if raw = ''prompt'' then Ok Prompt
      else if raw = ''forbidden'' then Ok Forbidden
      else Err (InvalidDecision raw))"

definition from_alternatives :: "string list \<Rightarrow> (pattern_token, policy_error) result" where
  "from_alternatives alternatives =
     (case alternatives of
        [] \<Rightarrow> Err (InvalidPattern ''pattern alternatives cannot be empty'')
      | [single] \<Rightarrow> Ok (Single single)
      | _ \<Rightarrow> Ok (Alts alternatives))"

fun alternatives :: "pattern_token \<Rightarrow> string list" where
  "alternatives (Single expected) = [expected]"
| "alternatives (Alts alts) = alts"

definition validate_program :: "pattern_token \<Rightarrow> (unit, policy_error) result" where
  "validate_program t =
     (if list_ex (\<lambda>value. trim value = []) (alternatives t)
      then Err (InvalidPattern ''token cannot be empty'') else Ok ())"

fun token_matches :: "pattern_token \<Rightarrow> string \<Rightarrow> bool" where
  "token_matches (Single expected) token \<longleftrightarrow> expected = token"
| "token_matches (Alts alts) token \<longleftrightarrow> list_ex (\<lambda>alt. alt = token) alts"

definition matches_args :: "prefix_pattern \<Rightarrow> string list \<Rightarrow> bool" where
  "matches_args p args \<longleftrightarrow>
     length (pat_rest p) \<le> length args \<and> list_all (\<lambda>(t, a). token_matches t a) (zip (pat_rest p) args)"

definition matches_prefix :: "prefix_pattern \<Rightarrow> string list \<Rightarrow> string list option" where
  "matches_prefix p cmd =
     (let pattern_length = length (pat_rest p) + 1 in
      if length cmd < pattern_length \<or> cmd ! 0 \<noteq> pat_first p then None
      else if list_ex (\<lambda>(t, c). \<not> token_matches t c) (zip (pat_rest p) (take (pattern_length - 1) (drop 1 cmd)))
      then None
      else Some (take pattern_length cmd))"

fun match_decision :: "rule_match \<Rightarrow> decision" where
  "match_decision (PrefixRuleMatch _ d _ _) = d"
| "match_decision (HeuristicsRuleMatch _ d) = d"

fun with_resolved_program :: "string \<Rightarrow> rule_match \<Rightarrow> rule_match" where
  "with_resolved_program resolved (PrefixRuleMatch matched d _ j) = PrefixRuleMatch matched d (Some resolved) j"
| "with_resolved_program resolved other = other"

definition rule_program :: "prefix_rule \<Rightarrow> string" where
  "rule_program r = pat_first (rule_pattern r)"

text \<open>The slice \<^verbatim>\<open>&cmd[1..=n]\<close> panics unless \<open>n\<close> is an index of the command.\<close>

definition materialize_match :: "prefix_rule \<Rightarrow> string list \<Rightarrow> string option \<Rightarrow> rule_match option" where
  "materialize_match r cmd resolved =
     (let n = length (pat_rest (rule_pattern r)) in
      if n < length cmd
      then Some (PrefixRuleMatch (rule_program r # take n (drop 1 cmd)) (rule_decision r) resolved
                   (rule_justification r))
      else None)"

definition rule_matches :: "prefix_rule \<Rightarrow> string list \<Rightarrow> rule_match option" where
  "rule_matches r cmd =
     map_option (\<lambda>matched. PrefixRuleMatch matched (rule_decision r) None (rule_justification r))
       (matches_prefix (rule_pattern r) cmd)"

datatype network_rule_protocol = Http | Https | Socks5Tcp | Socks5Udp

record network_rule =
  net_host :: string
  net_protocol :: network_rule_protocol
  net_decision :: decision
  net_justification :: "string option"

section \<open>The host\<close>

type_synonym 'v multimap = "string \<rightharpoonup> 'v list"

record host =
  host_windows :: bool
  host_file_name :: "string \<Rightarrow> string option"
  host_components :: "string \<Rightarrow> nat"
  host_is_absolute :: "string \<Rightarrow> bool"
  host_absolute_path :: "string \<Rightarrow> (string, string) result"
  host_iter_all :: "prefix_rule multimap \<Rightarrow> (string \<times> prefix_rule list) list"
  host_shlex_split :: "string \<Rightarrow> string list option"
  host_shlex_join :: "string list \<Rightarrow> string option"
  host_parse_ipv6 :: "string \<Rightarrow> string option"
  host_parse_ip :: "string \<Rightarrow> string option"

definition WINDOWS_EXECUTABLE_SUFFIXES :: "string list" where
  "WINDOWS_EXECUTABLE_SUFFIXES = [''.exe'', ''.cmd'', ''.bat'', ''.com'']"

definition executable_lookup_key :: "bool \<Rightarrow> string \<Rightarrow> string" where
  "executable_lookup_key windows raw =
     (if windows then
        (let lower = to_ascii_lowercase raw in
         case find (\<lambda>ext. ends_with ext lower) WINDOWS_EXECUTABLE_SUFFIXES of
           Some ext \<Rightarrow> take (length lower - length ext) lower
         | None \<Rightarrow> lower)
      else raw)"

definition executable_path_lookup_key :: "host \<Rightarrow> string \<Rightarrow> string option" where
  "executable_path_lookup_key h path = map_option (executable_lookup_key (host_windows h)) (host_file_name h path)"

definition mm_insert :: "string \<Rightarrow> 'v \<Rightarrow> 'v multimap \<Rightarrow> 'v multimap" where
  "mm_insert k v m = m(k \<mapsto> (case m k of None \<Rightarrow> [v] | Some vs \<Rightarrow> vs @ [v]))"

definition mm_get :: "'v multimap \<Rightarrow> string \<Rightarrow> 'v list" where
  "mm_get m k = (case m k of None \<Rightarrow> [] | Some vs \<Rightarrow> vs)"

definition mm_extend :: "(string \<times> 'v list) list \<Rightarrow> 'v multimap \<Rightarrow> 'v multimap" where
  "mm_extend entries m = fold (\<lambda>(k, vs). fold (mm_insert k) vs) entries m"

section \<open>The policy\<close>

record policy =
  pol_rules_by_program :: "prefix_rule multimap"
  pol_network_rules :: "network_rule list"
  pol_basename_rules :: "prefix_rule multimap"
  pol_host_executables :: "string \<rightharpoonup> string list"

definition has_separator :: "string \<Rightarrow> bool" where
  "has_separator program = contains_any [CHR ''/'', CHR 0x5C] program"

definition basename_entries :: "bool \<Rightarrow> (string \<times> prefix_rule list) list \<Rightarrow> (string \<times> prefix_rule list) list" where
  "basename_entries windows entries =
     map (\<lambda>(program, rules). (executable_lookup_key windows program, rules))
       (filter (\<lambda>(program, rules). \<not> has_separator program) entries)"

definition from_shared_parts :: "host \<Rightarrow> prefix_rule multimap \<Rightarrow> network_rule list \<Rightarrow> (string \<rightharpoonup> string list) \<Rightarrow> policy" where
  "from_shared_parts h rules network executables =
     \<lparr>pol_rules_by_program = rules, pol_network_rules = network,
      pol_basename_rules = mm_extend (basename_entries (host_windows h) (host_iter_all h rules)) Map.empty,
      pol_host_executables = executables\<rparr>"

definition policy_new :: "host \<Rightarrow> prefix_rule multimap \<Rightarrow> policy" where
  "policy_new h rules = from_shared_parts h rules [] Map.empty"

definition policy_empty :: "host \<Rightarrow> policy" where
  "policy_empty h = policy_new h Map.empty"

fun render_pattern_token :: "pattern_token \<Rightarrow> string" where
  "render_pattern_token (Single value) = value"
| "render_pattern_token (Alts alts) = ''['' @ join ''|'' alts @ '']''"

definition rendered_prefix :: "prefix_rule \<Rightarrow> string list" where
  "rendered_prefix r = rule_program r # map render_pattern_token (pat_rest (rule_pattern r))"

definition get_allowed_prefixes :: "host \<Rightarrow> policy \<Rightarrow> string list list" where
  "get_allowed_prefixes h p =
     remdups_adj (sort (concat (map (\<lambda>(_, rules).
       map rendered_prefix (filter (\<lambda>r. rule_decision r = Allow) rules))
       (host_iter_all h (pol_rules_by_program p)))))"

definition add_prefix_rule :: "host \<Rightarrow> string list \<Rightarrow> decision \<Rightarrow> policy \<Rightarrow> (policy, policy_error) result" where
  "add_prefix_rule h prefix_tokens d p =
     (case prefix_tokens of
        [] \<Rightarrow> Err (InvalidPattern ''prefix cannot be empty'')
      | first_token # rest \<Rightarrow>
          and_then (validate_program (Single first_token)) (\<lambda>_.
            let rule = \<lparr>rule_pattern = \<lparr>pat_first = first_token, pat_rest = map Single rest\<rparr>,
                        rule_decision = d, rule_justification = None\<rparr>;
                p' = (if has_separator first_token then p
                      else p\<lparr>pol_basename_rules :=
                               mm_insert (executable_lookup_key (host_windows h) first_token) rule
                                 (pol_basename_rules p)\<rparr>)
            in Ok (p'\<lparr>pol_rules_by_program := mm_insert first_token rule (pol_rules_by_program p)\<rparr>)))"

definition set_host_executable_paths :: "host \<Rightarrow> string \<Rightarrow> string list \<Rightarrow> policy \<Rightarrow> policy" where
  "set_host_executable_paths h name paths p =
     p\<lparr>pol_host_executables := (pol_host_executables p)(executable_lookup_key (host_windows h) name \<mapsto> paths)\<rparr>"

definition merge_overlay :: "host \<Rightarrow> policy \<Rightarrow> policy \<Rightarrow> policy" where
  "merge_overlay h p overlay =
     from_shared_parts h
       (mm_extend (host_iter_all h (pol_rules_by_program overlay)) (pol_rules_by_program p))
       (pol_network_rules p @ pol_network_rules overlay)
       (pol_host_executables p ++ pol_host_executables overlay)"

fun network_scan :: "network_rule list \<Rightarrow> string list \<Rightarrow> string list \<times> string list" where
  "network_scan [] seen = ([], [])"
| "network_scan (rule # rules) seen =
     (if net_decision rule = Prompt \<or> net_host rule \<in> set seen then network_scan rules seen
      else
        let (allowed, denied) = network_scan rules (net_host rule # seen)
        in if net_decision rule = Allow then (net_host rule # allowed, denied)
           else (allowed, net_host rule # denied))"

definition compiled_network_domains :: "policy \<Rightarrow> string list \<times> string list" where
  "compiled_network_domains p =
     (let (allowed, denied) = network_scan (rev (pol_network_rules p)) [] in (rev allowed, rev denied))"

section \<open>Evaluating commands\<close>

text \<open>A visitor is called with its own state and answers whether to stop.\<close>

type_synonym 's visitor = "'s \<Rightarrow> prefix_rule \<Rightarrow> string option \<Rightarrow> 's \<times> bool"

fun visit_loop :: "(prefix_rule \<Rightarrow> bool) \<Rightarrow> string option \<Rightarrow> 's visitor \<Rightarrow> prefix_rule list \<Rightarrow> 's \<Rightarrow> bool \<Rightarrow>
    's \<times> bool \<times> bool" where
  "visit_loop applies resolved visit [] s matched = (s, matched, False)"
| "visit_loop applies resolved visit (rule # rules) s matched =
     (if applies rule then
        (let (s', stop) = visit s rule resolved in
         if stop then (s', True, True) else visit_loop applies resolved visit rules s' True)
      else visit_loop applies resolved visit rules s matched)"

text \<open>The program of an explicit path, if the first word is one, and its file name.\<close>

definition resolve_program :: "host \<Rightarrow> string \<Rightarrow> (string option \<times> string) option" where
  "resolve_program h first =
     (if host_file_name h first = Some first then Some (None, first)
      else case host_absolute_path h first of
        Err _ \<Rightarrow> None
      | Ok program \<Rightarrow> map_option (\<lambda>filename. (Some program, filename)) (host_file_name h program))"

definition executable_permitted :: "policy \<Rightarrow> string option \<Rightarrow> string \<Rightarrow> bool" where
  "executable_permitted p program basename =
     (case program of
        None \<Rightarrow> True
      | Some path \<Rightarrow> (case pol_host_executables p basename of None \<Rightarrow> True | Some paths \<Rightarrow> path \<in> set paths))"

definition basename_applies :: "bool \<Rightarrow> string \<Rightarrow> string \<Rightarrow> string \<Rightarrow> string list \<Rightarrow> prefix_rule \<Rightarrow> bool" where
  "basename_applies windows first filename basename args rule \<longleftrightarrow>
     rule_program rule \<noteq> first
     \<and> (if windows then eq_ignore_ascii_case (rule_program rule) filename
                        \<or> eq_ignore_ascii_case (rule_program rule) basename
        else rule_program rule = filename)
     \<and> matches_args (rule_pattern rule) args"

record match_options =
  resolve_host_executables :: bool

definition visit_matches :: "host \<Rightarrow> policy \<Rightarrow> string list \<Rightarrow> match_options \<Rightarrow> 's visitor \<Rightarrow> 's \<Rightarrow> 's \<times> bool" where
  "visit_matches h p cmd options visit s =
     (case cmd of
        [] \<Rightarrow> (s, False)
      | first # args \<Rightarrow>
          let (s1, matched, stopped) =
                (case pol_rules_by_program p first of
                   None \<Rightarrow> (s, False, False)
                 | Some rules \<Rightarrow> visit_loop (\<lambda>rule. matches_args (rule_pattern rule) args) None visit rules s False)
          in if stopped then (s1, True)
             else if \<not> resolve_host_executables options then (s1, matched)
             else case resolve_program h first of
               None \<Rightarrow> (s1, matched)
             | Some (program, filename) \<Rightarrow>
                 let basename = executable_lookup_key (host_windows h) filename in
                 if \<not> executable_permitted p program basename then (s1, matched)
                 else case pol_basename_rules p basename of
                   None \<Rightarrow> (s1, matched)
                 | Some rules \<Rightarrow>
                     let (s2, matched', _) = visit_loop (basename_applies (host_windows h) first filename basename args)
                           program visit rules s1 matched
                     in (s2, matched'))"

definition collect_match :: "string list \<Rightarrow> rule_match list option visitor" where
  "collect_match cmd acc rule resolved =
     (case (acc, materialize_match rule cmd resolved) of
        (Some ms, Some m) \<Rightarrow> (Some (ms @ [m]), False)
      | _ \<Rightarrow> (None, False))"

definition matches_for_command_with_options :: "host \<Rightarrow> policy \<Rightarrow> string list \<Rightarrow>
    (string list \<Rightarrow> decision) option \<Rightarrow> match_options \<Rightarrow> rule_match list option" where
  "matches_for_command_with_options h p cmd heuristics_fallback options =
     map_option (\<lambda>matched_rules.
       case heuristics_fallback of
         Some fallback \<Rightarrow>
           if matched_rules = [] then [HeuristicsRuleMatch cmd (fallback cmd)] else matched_rules
       | None \<Rightarrow> matched_rules)
       (fst (visit_matches h p cmd options (collect_match cmd) (Some [])))"

definition default_options :: match_options where
  "default_options = \<lparr>resolve_host_executables = False\<rparr>"

definition matches_for_command :: "host \<Rightarrow> policy \<Rightarrow> string list \<Rightarrow> (string list \<Rightarrow> decision) option \<Rightarrow>
    rule_match list option" where
  "matches_for_command h p cmd heuristics_fallback =
     matches_for_command_with_options h p cmd heuristics_fallback default_options"

record evaluation =
  ev_decision :: decision
  ev_matched_rules :: "rule_match list"

definition is_match :: "evaluation \<Rightarrow> bool" where
  "is_match e = list_ex (\<lambda>m. case m of HeuristicsRuleMatch _ _ \<Rightarrow> False | _ \<Rightarrow> True) (ev_matched_rules e)"

text \<open>\<^verbatim>\<open>Iterator::max\<close> of no elements is \<^verbatim>\<open>None\<close>, on which \<^verbatim>\<open>expect\<close> panics.\<close>

definition from_matches :: "rule_match list \<Rightarrow> evaluation option" where
  "from_matches matched_rules =
     (if matched_rules = [] then None
      else Some \<lparr>ev_decision = fold max (map match_decision (tl matched_rules)) (match_decision (hd matched_rules)),
                 ev_matched_rules = matched_rules\<rparr>)"

definition check_with_options :: "host \<Rightarrow> policy \<Rightarrow> string list \<Rightarrow> (string list \<Rightarrow> decision) \<Rightarrow> match_options \<Rightarrow>
    evaluation option" where
  "check_with_options h p cmd fallback options =
     Option.bind (matches_for_command_with_options h p cmd (Some fallback) options) from_matches"

definition check :: "host \<Rightarrow> policy \<Rightarrow> string list \<Rightarrow> (string list \<Rightarrow> decision) \<Rightarrow> evaluation option" where
  "check h p cmd fallback = check_with_options h p cmd fallback default_options"

definition check_multiple_with_options :: "host \<Rightarrow> policy \<Rightarrow> string list list \<Rightarrow> (string list \<Rightarrow> decision) \<Rightarrow>
    match_options \<Rightarrow> evaluation option" where
  "check_multiple_with_options h p commands fallback options =
     Option.bind (those (map (\<lambda>cmd. matches_for_command_with_options h p cmd (Some fallback) options) commands))
       (\<lambda>matches. from_matches (concat matches))"

definition check_multiple :: "host \<Rightarrow> policy \<Rightarrow> string list list \<Rightarrow> (string list \<Rightarrow> decision) \<Rightarrow> evaluation option" where
  "check_multiple h p commands fallback = check_multiple_with_options h p commands fallback default_options"

end
