(* ===== verification/Policy_Results.thy ===== *)
theory Policy_Results
  imports Exec_Policy
begin

text \<open>
  What the execution policy promises: the visitor sees exactly the applicable rules, the strictest
  of them decides, the derived index by executable name stays in step with the rules under every
  operation, and adding rules or overlays never loses one.
\<close>

section \<open>Multimaps as stores\<close>

text \<open>What the policy relies on of a multimap: an insertion appends to the vector of its key.\<close>

locale multi_store =
  fixes ins :: "'k \<Rightarrow> 'v \<Rightarrow> 's \<Rightarrow> 's" and lookup :: "'s \<Rightarrow> 'k \<Rightarrow> 'v list"
  assumes lookup_ins: "lookup (ins k v s) j = (if j = k then lookup s k @ [v] else lookup s j)"
begin

lemma lookup_fold: "lookup (fold (ins k) vs s) j = (if j = k then lookup s k @ vs else lookup s j)"
  by (induction vs arbitrary: s) (auto simp: lookup_ins)

lemma lookup_entries:
  "lookup (fold (\<lambda>(k, vs). fold (ins k) vs) es s) j =
     lookup s j @ concat (map snd (filter (\<lambda>(k, vs). k = j) es))"
  by (induction es arbitrary: s) (auto simp: lookup_fold)

end

interpretation rule_store: multi_store mm_insert mm_get
  by unfold_locales (auto simp: mm_insert_def mm_get_def split: option.split)

lemma mm_get_extend:
  "mm_get (mm_extend es m) j = mm_get m j @ concat (map snd (filter (\<lambda>(k, vs). k = j) es))"
  unfolding mm_extend_def by (rule rule_store.lookup_entries)

lemma mm_get_empty [simp]: "mm_get Map.empty k = []"
  by (simp add: mm_get_def)

lemma finite_dom_mm_insert [simp]: "finite (dom (mm_insert k v m)) = finite (dom m)"
  by (simp add: mm_insert_def)

lemma finite_dom_mm_extend: "finite (dom m) \<Longrightarrow> finite (dom (mm_extend es m))"
proof -
  have "finite (dom m) \<Longrightarrow> finite (dom (fold (mm_insert k) vs m))" for k vs m
    by (induction vs arbitrary: m) auto
  then show "finite (dom m) \<Longrightarrow> ?thesis" unfolding mm_extend_def
    by (induction es arbitrary: m) auto
qed

section \<open>The applicable rules\<close>

definition spelled_rules :: "policy \<Rightarrow> string \<Rightarrow> string list \<Rightarrow> prefix_rule list" where
  "spelled_rules p first args =
     filter (\<lambda>r. matches_args (rule_pattern r) args) (mm_get (pol_rules_by_program p) first)"

definition resolved_rules :: "host \<Rightarrow> policy \<Rightarrow> string \<Rightarrow> string list \<Rightarrow> (prefix_rule \<times> string option) list" where
  "resolved_rules h p first args =
     (case resolve_program h first of
        None \<Rightarrow> []
      | Some (program, filename) \<Rightarrow>
          let basename = executable_lookup_key (host_windows h) filename in
          if executable_permitted p program basename
          then map (\<lambda>r. (r, program)) (filter (basename_applies (host_windows h) first filename basename args)
                 (mm_get (pol_basename_rules p) basename))
          else [])"

definition applicable :: "host \<Rightarrow> policy \<Rightarrow> string list \<Rightarrow> match_options \<Rightarrow> (prefix_rule \<times> string option) list" where
  "applicable h p cmd options =
     (case cmd of
        [] \<Rightarrow> []
      | first # args \<Rightarrow>
          map (\<lambda>r. (r, None)) (spelled_rules p first args)
          @ (if resolve_host_executables options then resolved_rules h p first args else []))"

fun visit_all :: "'s visitor \<Rightarrow> (prefix_rule \<times> string option) list \<Rightarrow> 's \<Rightarrow> 's \<times> bool" where
  "visit_all visit [] s = (s, False)"
| "visit_all visit ((r, resolved) # rs) s =
     (let (s', stop) = visit s r resolved in if stop then (s', True) else visit_all visit rs s')"

lemma visit_all_append:
  "visit_all visit (xs @ ys) s =
     (let (s', stop) = visit_all visit xs s in if stop then (s', True) else visit_all visit ys s')"
  by (induction visit xs s rule: visit_all.induct) (auto split: prod.split)

lemma visit_all_stop: "visit_all visit xs s = (s', True) \<Longrightarrow> xs \<noteq> []"
  by auto

lemma visit_loop_eq:
  "visit_loop applies resolved visit rules s matched =
     (let (s', stop) = visit_all visit (map (\<lambda>r. (r, resolved)) (filter applies rules)) s
      in (s', matched \<or> filter applies rules \<noteq> [], stop))"
proof (induction rules arbitrary: s matched)
  case (Cons r rules)
  show ?case
  proof (cases "applies r")
    case True
    then show ?thesis using Cons.IH by (auto split: prod.split)
  next
    case False
    then show ?thesis using Cons.IH by auto
  qed
qed simp

text \<open>The visitor is called on the applicable rules, in order, until it stops.\<close>

lemma visit_matches_eq:
  "visit_matches h p cmd options visit s =
     (fst (visit_all visit (applicable h p cmd options) s), applicable h p cmd options \<noteq> [])"
proof (cases cmd)
  case (Cons first args)
  let ?exact = "spelled_rules p first args"
  obtain s1 stop where run: "visit_all visit (map (\<lambda>r. (r, None)) ?exact) s = (s1, stop)" by fastforce
  have exact: "(case pol_rules_by_program p first of None \<Rightarrow> (s, False, False)
      | Some rules \<Rightarrow> visit_loop (\<lambda>r. matches_args (rule_pattern r) args) None visit rules s False) =
      (s1, ?exact \<noteq> [], stop)"
    using run by (cases "pol_rules_by_program p first") (auto simp: visit_loop_eq mm_get_def spelled_rules_def)
  show ?thesis
  proof (cases stop)
    case True
    with run visit_all_stop[of visit] have "?exact \<noteq> []" by fastforce
    with True Cons exact run show ?thesis by (simp add: visit_matches_def applicable_def visit_all_append)
  next
    case False
    with Cons exact run show ?thesis
      by (auto simp: visit_matches_def applicable_def visit_all_append visit_loop_eq mm_get_def Let_def
          resolved_rules_def split: option.split prod.split)
  qed
qed (simp add: visit_matches_def applicable_def)

lemma applicable_Nil [simp]: "applicable h p [] options = []"
  by (simp add: applicable_def)

lemma resolved_rules_args:
  "x \<in> set (resolved_rules h p first args) \<Longrightarrow> matches_args (rule_pattern (fst x)) args"
  by (auto simp: resolved_rules_def basename_applies_def Let_def split: if_splits option.splits prod.splits)

lemma applicable_args:
  "x \<in> set (applicable h p cmd options) \<Longrightarrow> cmd \<noteq> [] \<and> matches_args (rule_pattern (fst x)) (tl cmd)"
  by (cases cmd) (auto simp: applicable_def spelled_rules_def dest: resolved_rules_args split: if_splits)

lemma applicable_materialize:
  assumes "x \<in> set (applicable h p cmd options)"
  shows "materialize_match (fst x) cmd (snd x) =
      Some (PrefixRuleMatch (rule_program (fst x) # take (length (pat_rest (rule_pattern (fst x)))) (tl cmd))
        (rule_decision (fst x)) (snd x) (rule_justification (fst x)))"
  using applicable_args[OF assms] by (cases cmd) (simp_all add: materialize_match_def matches_args_def Let_def)

fun match_of :: "string list \<Rightarrow> prefix_rule \<times> string option \<Rightarrow> rule_match" where
  "match_of cmd (r, resolved) =
     PrefixRuleMatch (rule_program r # take (length (pat_rest (rule_pattern r))) (tl cmd))
       (rule_decision r) resolved (rule_justification r)"

lemma match_of_decision [simp]: "match_decision (match_of cmd x) = rule_decision (fst x)"
  by (cases x) simp

lemma collect_all:
  "set xs \<subseteq> set (applicable h p cmd options) \<Longrightarrow>
   visit_all (collect_match cmd) xs (Some ms) = (Some (ms @ map (match_of cmd) xs), False)"
proof (induction xs arbitrary: ms)
  case (Cons x xs)
  then have "materialize_match (fst x) cmd (snd x) = Some (match_of cmd x)"
    using applicable_materialize[of x h p cmd options] by (cases x) simp
  with Cons show ?case by (cases x) (simp add: collect_match_def)
qed simp

lemma matches_for_command_eq:
  "matches_for_command_with_options h p cmd fb options =
     Some (if applicable h p cmd options = [] then
             (case fb of Some fallback \<Rightarrow> [HeuristicsRuleMatch cmd (fallback cmd)] | None \<Rightarrow> [])
           else map (match_of cmd) (applicable h p cmd options))"
  by (auto simp: matches_for_command_with_options_def visit_matches_eq
      collect_all[OF order_refl, of cmd h p options] split: option.split)

lemma from_matches_Max:
  "ms \<noteq> [] \<Longrightarrow> from_matches ms =
     Some \<lparr>ev_decision = Max (match_decision ` set ms), ev_matched_rules = ms\<rparr>"
proof (cases ms)
  case (Cons m rest)
  have "Max (set (match_decision m # map match_decision rest)) = fold max (map match_decision rest) (match_decision m)"
    by (rule Max.set_eq_fold)
  with Cons show ?thesis by (simp add: from_matches_def)
qed simp

definition strictest :: "host \<Rightarrow> policy \<Rightarrow> (string list \<Rightarrow> decision) \<Rightarrow> match_options \<Rightarrow> string list \<Rightarrow> decision" where
  "strictest h p fallback options cmd =
     (if applicable h p cmd options = [] then fallback cmd
      else Max (rule_decision ` fst ` set (applicable h p cmd options)))"

lemma check_strictest:
  "\<exists>e. check_with_options h p cmd fallback options = Some e \<and> ev_decision e = strictest h p fallback options cmd
     \<and> (is_match e \<longleftrightarrow> applicable h p cmd options \<noteq> [])"
proof (cases "applicable h p cmd options = []")
  case True
  then show ?thesis
    by (simp add: check_with_options_def matches_for_command_eq from_matches_Max strictest_def is_match_def)
next
  case False
  have "(\<lambda>x. match_decision (match_of cmd x)) ` S = rule_decision ` fst ` S" for S
    by (simp add: image_image)
  moreover have "list_ex (\<lambda>m. case m of HeuristicsRuleMatch _ _ \<Rightarrow> False | _ \<Rightarrow> True) (map (match_of cmd) xs)"
    if "xs \<noteq> []" for xs
    using that by (cases xs; cases "hd xs") auto
  ultimately show ?thesis using False
    by (simp add: check_with_options_def matches_for_command_eq from_matches_Max strictest_def is_match_def image_image)
qed

section \<open>The index by executable name\<close>

text \<open>A multimap lists each of its entries once.\<close>

definition iterates :: "host \<Rightarrow> bool" where
  "iterates h \<longleftrightarrow> (\<forall>m. finite (dom m) \<longrightarrow>
     distinct (map fst (host_iter_all h m)) \<and> set (host_iter_all h m) = {(k, vs). m k = Some vs})"

lemma map_of_iter:
  assumes "iterates h" "finite (dom m)"
  shows "map_of (host_iter_all h m) = m"
proof
  fix k
  have d: "distinct (map fst (host_iter_all h m))" and s: "set (host_iter_all h m) = {(k, vs). m k = Some vs}"
    using assms by (auto simp: iterates_def)
  have "map_of (host_iter_all h m) k = Some vs \<longleftrightarrow> m k = Some vs" for vs
    using map_of_eq_Some_iff[OF d, of k vs] s by auto
  then show "map_of (host_iter_all h m) k = m k" by (metis option.exhaust)
qed

lemma entries_of_key:
  assumes "distinct (map fst es)"
  shows "concat (map snd (filter (\<lambda>(k, vs). k = j) es)) = mm_get (map_of es) j"
  using assms
proof (induction es)
  case (Cons e es)
  obtain k vs where e: "e = (k, vs)" by (cases e)
  have "filter (\<lambda>(k, vs). k = j) es = []" if "k = j"
    using Cons.prems that e by (auto simp: filter_empty_conv image_iff)
  with Cons e show ?case by (auto simp: mm_get_def)
qed simp

lemma mm_get_extend_iter:
  assumes "iterates h" "finite (dom m)"
  shows "mm_get (mm_extend (host_iter_all h m) base) j = mm_get base j @ mm_get m j"
proof -
  have "distinct (map fst (host_iter_all h m))" using assms by (auto simp: iterates_def)
  from entries_of_key[OF this, of j] show ?thesis by (simp add: mm_get_extend map_of_iter[OF assms])
qed

definition rules_in :: "prefix_rule multimap \<Rightarrow> prefix_rule set" where
  "rules_in m = {r. \<exists>k. r \<in> set (mm_get m k)}"

definition keyed :: "prefix_rule multimap \<Rightarrow> bool" where
  "keyed m \<longleftrightarrow> finite (dom m) \<and> (\<forall>k. \<forall>r\<in>set (mm_get m k). rule_program r = k)"

text \<open>
  The invariant of a policy: rules are stored under their program, and the index holds exactly the
  rules for bare names, under their lookup key.
\<close>

definition policy_inv :: "host \<Rightarrow> policy \<Rightarrow> bool" where
  "policy_inv h p \<longleftrightarrow> keyed (pol_rules_by_program p) \<and>
     (\<forall>b. set (mm_get (pol_basename_rules p) b) =
        {r \<in> rules_in (pol_rules_by_program p).
           \<not> has_separator (rule_program r) \<and> executable_lookup_key (host_windows h) (rule_program r) = b})"

lemma keyed_rules_in: "keyed m \<Longrightarrow> r \<in> set (mm_get m k) \<longleftrightarrow> r \<in> rules_in m \<and> rule_program r = k"
  by (auto simp: keyed_def rules_in_def)

lemma from_shared_parts_inv:
  assumes it: "iterates h" and keyed: "keyed rules"
  shows "policy_inv h (from_shared_parts h rules network executables)"
proof -
  let ?w = "host_windows h"
  have entries: "set (host_iter_all h rules) = {(k, vs). rules k = Some vs}"
    using it keyed by (auto simp: iterates_def keyed_def)
  have vector: "(\<exists>vs. rules k = Some vs \<and> r \<in> set vs) \<longleftrightarrow> r \<in> set (mm_get rules k)" for k r
    by (cases "rules k") (simp_all add: mm_get_def)
  have "r \<in> set (mm_get (mm_extend (basename_entries ?w (host_iter_all h rules)) Map.empty) b) \<longleftrightarrow>
      (\<exists>k. (\<exists>vs. rules k = Some vs \<and> r \<in> set vs) \<and> \<not> has_separator k \<and> executable_lookup_key ?w k = b)" for r b
    by (auto simp: mm_get_extend basename_entries_def entries)
  then have "r \<in> set (mm_get (mm_extend (basename_entries ?w (host_iter_all h rules)) Map.empty) b) \<longleftrightarrow>
      r \<in> rules_in rules \<and> \<not> has_separator (rule_program r) \<and> executable_lookup_key ?w (rule_program r) = b" for r b
    by (simp add: vector keyed_rules_in[OF keyed])
  with keyed show ?thesis by (simp add: policy_inv_def from_shared_parts_def set_eq_iff)
qed

lemma keyed_insert: "keyed m \<Longrightarrow> rule_program r = k \<Longrightarrow> keyed (mm_insert k r m)"
  by (auto simp: keyed_def rule_store.lookup_ins)

lemma rules_in_insert: "rules_in (mm_insert k r m) = insert r (rules_in m)"
  by (auto simp: rules_in_def rule_store.lookup_ins split: if_splits)

lemma rules_in_extend_iter:
  assumes "iterates h" "finite (dom m)"
  shows "rules_in (mm_extend (host_iter_all h m) base) = rules_in base \<union> rules_in m"
  by (auto simp: rules_in_def mm_get_extend_iter[OF assms])

definition simple_rule :: "string \<Rightarrow> string list \<Rightarrow> decision \<Rightarrow> prefix_rule" where
  "simple_rule first rest d = \<lparr>rule_pattern = \<lparr>pat_first = first, pat_rest = map Single rest\<rparr>,
     rule_decision = d, rule_justification = None\<rparr>"

lemma simple_rule_program [simp]: "rule_program (simple_rule first rest d) = first"
  by (simp add: simple_rule_def rule_program_def)

lemma add_prefix_rule_cases:
  assumes "add_prefix_rule h prefix_tokens d p = Ok p'"
  obtains first rest where "prefix_tokens = first # rest" "trim first \<noteq> []"
    "pol_rules_by_program p' = mm_insert first (simple_rule first rest d) (pol_rules_by_program p)"
    "pol_basename_rules p' = (if has_separator first then pol_basename_rules p
       else mm_insert (executable_lookup_key (host_windows h) first) (simple_rule first rest d) (pol_basename_rules p))"
    "pol_host_executables p' = pol_host_executables p" "pol_network_rules p' = pol_network_rules p"
proof -
  from assms obtain first rest where f: "prefix_tokens = first # rest" "trim first \<noteq> []"
    by (auto simp: add_prefix_rule_def validate_program_def split: list.splits if_splits)
  with assms show thesis
    by (intro that[OF f]) (auto simp: add_prefix_rule_def validate_program_def simple_rule_def Let_def split: if_splits)
qed

lemma add_prefix_rule_inv:
  assumes inv: "policy_inv h p" and add: "add_prefix_rule h prefix_tokens d p = Ok p'"
  shows "policy_inv h p'"
  using add
proof (rule add_prefix_rule_cases)
  fix first rest
  let ?r = "simple_rule first rest d" and ?key = "executable_lookup_key (host_windows h)"
  assume p': "pol_rules_by_program p' = mm_insert first ?r (pol_rules_by_program p)"
    "pol_basename_rules p' = (if has_separator first then pol_basename_rules p
       else mm_insert (?key first) ?r (pol_basename_rules p))"
  have keyed: "keyed (pol_rules_by_program p)"
    and index: "\<And>b. set (mm_get (pol_basename_rules p) b) = {r \<in> rules_in (pol_rules_by_program p).
        \<not> has_separator (rule_program r) \<and> ?key (rule_program r) = b}"
    using inv by (auto simp: policy_inv_def)
  have "set (mm_get (pol_basename_rules p') b) = {r \<in> insert ?r (rules_in (pol_rules_by_program p)).
      \<not> has_separator (rule_program r) \<and> ?key (rule_program r) = b}" for b
  proof -
    have "{r \<in> insert ?r A. P r} = (if P ?r then insert ?r {r \<in> A. P r} else {r \<in> A. P r})" for A P by auto
    then show ?thesis using index[of b] by (simp add: p'(2) rule_store.lookup_ins)
  qed
  with keyed show ?thesis by (simp add: policy_inv_def p'(1) rules_in_insert keyed_insert)
qed

lemma merge_overlay_inv:
  assumes "iterates h" "policy_inv h p" "policy_inv h overlay"
  shows "policy_inv h (merge_overlay h p overlay)"
proof -
  let ?m = "mm_extend (host_iter_all h (pol_rules_by_program overlay)) (pol_rules_by_program p)"
  have k: "keyed (pol_rules_by_program p)" "keyed (pol_rules_by_program overlay)"
    using assms by (auto simp: policy_inv_def)
  then have "finite (dom ?m)" by (simp add: finite_dom_mm_extend keyed_def)
  moreover have "rule_program r = j" if "r \<in> set (mm_get ?m j)" for r j
    using that k mm_get_extend_iter[OF assms(1)] by (auto simp: keyed_def)
  ultimately have "keyed ?m" by (simp add: keyed_def)
  then show ?thesis unfolding merge_overlay_def by (rule from_shared_parts_inv[OF assms(1)])
qed

lemma policy_empty_inv: "iterates h \<Longrightarrow> policy_inv h (policy_empty h)"
  unfolding policy_empty_def policy_new_def by (rule from_shared_parts_inv) (auto simp: keyed_def)

lemma set_host_executable_paths_inv:
  "policy_inv h p \<Longrightarrow> policy_inv h (set_host_executable_paths h name paths p)"
  by (simp add: policy_inv_def set_host_executable_paths_def)

section \<open>A reference for the applicable rules\<close>

text \<open>
  Which rules apply to a command, by a scan of all rules and without the index: the arguments fit,
  and the program is spelled as in the rule or, when executables are resolved, is a permitted
  spelling of the bare name in the rule.
\<close>

definition same_executable :: "host \<Rightarrow> policy \<Rightarrow> string \<Rightarrow> string \<Rightarrow> bool" where
  "same_executable h p first name \<longleftrightarrow>
     (\<exists>program filename. resolve_program h first = Some (program, filename)
        \<and> executable_permitted p program (executable_lookup_key (host_windows h) filename)
        \<and> executable_lookup_key (host_windows h) name = executable_lookup_key (host_windows h) filename
        \<and> (if host_windows h then eq_ignore_ascii_case name filename
             \<or> eq_ignore_ascii_case name (executable_lookup_key (host_windows h) filename)
           else name = filename))"

definition rule_applies :: "host \<Rightarrow> policy \<Rightarrow> match_options \<Rightarrow> string list \<Rightarrow> prefix_rule \<Rightarrow> bool" where
  "rule_applies h p options cmd r \<longleftrightarrow>
     r \<in> rules_in (pol_rules_by_program p) \<and> cmd \<noteq> [] \<and> matches_args (rule_pattern r) (tl cmd)
     \<and> (rule_program r = hd cmd \<or>
        resolve_host_executables options \<and> \<not> has_separator (rule_program r)
        \<and> same_executable h p (hd cmd) (rule_program r))"

lemma set_spelled_rules:
  assumes "policy_inv h p"
  shows "set (spelled_rules p first args) =
    {r \<in> rules_in (pol_rules_by_program p). rule_program r = first \<and> matches_args (rule_pattern r) args}"
  using assms keyed_rules_in[of "pol_rules_by_program p"]
  by (simp add: spelled_rules_def policy_inv_def)

lemma set_resolved_rules:
  assumes "policy_inv h p"
  shows "fst ` set (resolved_rules h p first args) =
    {r \<in> rules_in (pol_rules_by_program p). \<not> has_separator (rule_program r) \<and> rule_program r \<noteq> first
       \<and> same_executable h p first (rule_program r) \<and> matches_args (rule_pattern r) args}"
proof (cases "resolve_program h first")
  case None
  then show ?thesis by (simp add: resolved_rules_def same_executable_def)
next
  case (Some pf)
  obtain program filename where pf: "pf = (program, filename)" by (cases pf)
  let ?b = "executable_lookup_key (host_windows h) filename"
  have index: "set (mm_get (pol_basename_rules p) ?b) = {r \<in> rules_in (pol_rules_by_program p).
      \<not> has_separator (rule_program r) \<and> executable_lookup_key (host_windows h) (rule_program r) = ?b}"
    using assms by (simp add: policy_inv_def)
  show ?thesis
  proof (cases "executable_permitted p program ?b")
    case True
    have "fst ` set (resolved_rules h p first args) =
        {r \<in> set (mm_get (pol_basename_rules p) ?b). basename_applies (host_windows h) first filename ?b args r}"
      using True Some pf by (simp add: resolved_rules_def Let_def image_image)
    then show ?thesis using True Some pf by (auto simp: index same_executable_def basename_applies_def)
  next
    case False
    with Some pf show ?thesis by (simp add: resolved_rules_def same_executable_def)
  qed
qed

lemma applicable_iff:
  assumes "policy_inv h p"
  shows "fst ` set (applicable h p cmd options) = {r. rule_applies h p options cmd r}"
proof (cases cmd)
  case (Cons first args)
  have "fst ` set (applicable h p cmd options) = set (spelled_rules p first args) \<union>
      (if resolve_host_executables options then fst ` set (resolved_rules h p first args) else {})"
    by (simp add: Cons applicable_def image_Un image_image)
  also have "\<dots> = {r. rule_applies h p options cmd r}"
    unfolding set_spelled_rules[OF assms] set_resolved_rules[OF assms] by (auto simp: rule_applies_def Cons)
  finally show ?thesis .
qed (simp add: rule_applies_def)

lemma strictest_bounds:
  assumes "policy_inv h p"
  shows "(if \<exists>r. rule_applies h p options cmd r
      then strictest h p fallback options cmd \<in> rule_decision ` {r. rule_applies h p options cmd r}
      else strictest h p fallback options cmd = fallback cmd)"
    and "rule_applies h p options cmd r \<Longrightarrow> rule_decision r \<le> strictest h p fallback options cmd"
proof -
  let ?A = "{r. rule_applies h p options cmd r}"
  have A: "fst ` set (applicable h p cmd options) = ?A" by (rule applicable_iff[OF assms])
  then have fin: "finite ?A" by (metis finite_imageI finite_set)
  have eq: "strictest h p fallback options cmd = (if ?A = {} then fallback cmd else Max (rule_decision ` ?A))"
    unfolding strictest_def A[symmetric] by simp
  show "(if \<exists>r. rule_applies h p options cmd r
      then strictest h p fallback options cmd \<in> rule_decision ` ?A
      else strictest h p fallback options cmd = fallback cmd)"
    using Max_in[of "rule_decision ` ?A"] fin by (auto simp: eq)
  show "rule_applies h p options cmd r \<Longrightarrow> rule_decision r \<le> strictest h p fallback options cmd"
    using Max_ge[of "rule_decision ` ?A"] fin by (auto simp: eq)
qed

lemma simple_rule_matches: "matches_args (rule_pattern (simple_rule first rest d)) (rest @ args)"
  by (induction rest) (auto simp: simple_rule_def matches_args_def)

lemma Max_UN:
  fixes f :: "'a \<Rightarrow> 'b::linorder set"
  assumes "finite S" "S \<noteq> {}" "\<And>x. x \<in> S \<Longrightarrow> finite (f x) \<and> f x \<noteq> {}"
  shows "Max (\<Union>x\<in>S. f x) = Max ((\<lambda>x. Max (f x)) ` S)"
proof (rule Max_eqI)
  show "finite (\<Union>x\<in>S. f x)" using assms by blast
  show "y \<le> Max ((\<lambda>x. Max (f x)) ` S)" if "y \<in> (\<Union>x\<in>S. f x)" for y
  proof -
    from that obtain x where x: "x \<in> S" "y \<in> f x" by blast
    with assms have "y \<le> Max (f x)" by simp
    also have "\<dots> \<le> Max ((\<lambda>x. Max (f x)) ` S)" using x assms(1) by simp
    finally show ?thesis .
  qed
  have "Max ((\<lambda>x. Max (f x)) ` S) \<in> (\<lambda>x. Max (f x)) ` S" using assms by (intro Max_in) auto
  then obtain x where x: "x \<in> S" "Max ((\<lambda>x. Max (f x)) ` S) = Max (f x)" by blast
  with assms(3)[OF x(1)] show "Max ((\<lambda>x. Max (f x)) ` S) \<in> (\<Union>x\<in>S. f x)" using Max_in by fastforce
qed

definition command_matches :: "host \<Rightarrow> policy \<Rightarrow> (string list \<Rightarrow> decision) \<Rightarrow> match_options \<Rightarrow> string list \<Rightarrow> rule_match list" where
  "command_matches h p fallback options cmd =
     (if applicable h p cmd options = [] then [HeuristicsRuleMatch cmd (fallback cmd)]
      else map (match_of cmd) (applicable h p cmd options))"

lemma command_matches_decision:
  "command_matches h p fallback options cmd \<noteq> []"
  "Max (match_decision ` set (command_matches h p fallback options cmd)) = strictest h p fallback options cmd"
  by (auto simp: command_matches_def strictest_def image_image)

lemma check_multiple_Max:
  assumes "commands \<noteq> []"
  shows "\<exists>e. check_multiple_with_options h p commands fallback options = Some e
    \<and> ev_decision e = Max (strictest h p fallback options ` set commands)"
proof -
  let ?ms = "command_matches h p fallback options"
  have those: "those (map (\<lambda>cmd. matches_for_command_with_options h p cmd (Some fallback) options) cs) = Some (map ?ms cs)" for cs
    by (induction cs) (simp_all add: matches_for_command_eq command_matches_def)
  have "concat (map ?ms commands) \<noteq> []"
    using assms command_matches_decision(1)[of h p fallback options] by (cases commands) auto
  moreover have "match_decision ` set (concat (map ?ms commands)) = (\<Union>cmd\<in>set commands. match_decision ` set (?ms cmd))"
    by auto
  moreover have "Max (\<Union>cmd\<in>set commands. match_decision ` set (?ms cmd)) =
      Max ((\<lambda>cmd. Max (match_decision ` set (?ms cmd))) ` set commands)"
    by (rule Max_UN) (use assms command_matches_decision(1) in auto)
  ultimately show ?thesis
    by (simp add: check_multiple_with_options_def those from_matches_Max command_matches_decision(2)
        del: set_concat concat_eq_Nil_conv)
qed

section \<open>Network hosts and allowed prefixes\<close>

text \<open>The last decision on a host that is not a prompt.\<close>

definition last_decision :: "network_rule list \<Rightarrow> string \<Rightarrow> decision option" where
  "last_decision rules name =
     map_option net_decision (find (\<lambda>r. net_host r = name \<and> net_decision r \<noteq> Prompt) (rev rules))"

lemma network_scan_sets:
  assumes "network_scan rules seen = (allowed, denied)"
  shows "distinct allowed \<and> distinct denied \<and> (\<forall>name.
     (name \<in> set allowed \<longleftrightarrow> name \<notin> set seen \<and>
        map_option net_decision (find (\<lambda>r. net_host r = name \<and> net_decision r \<noteq> Prompt) rules) = Some Allow)
   \<and> (name \<in> set denied \<longleftrightarrow> name \<notin> set seen \<and>
        map_option net_decision (find (\<lambda>r. net_host r = name \<and> net_decision r \<noteq> Prompt) rules) = Some Forbidden))"
  using assms
proof (induction rules seen arbitrary: allowed denied rule: network_scan.induct)
  case (2 rule rules seen)
  show ?case
  proof (cases "net_decision rule = Prompt \<or> net_host rule \<in> set seen")
    case True
    then have "name \<notin> set seen \<Longrightarrow>
        find (\<lambda>r. net_host r = name \<and> net_decision r \<noteq> Prompt) (rule # rules) =
        find (\<lambda>r. net_host r = name \<and> net_decision r \<noteq> Prompt) rules" for name
      by auto
    moreover from True "2.prems" have "network_scan rules seen = (allowed, denied)" by simp
    ultimately show ?thesis using "2.IH"(1)[OF True] by (simp del: find.simps cong: conj_cong)
  next
    case False
    obtain a d where ad: "network_scan rules (net_host rule # seen) = (a, d)" by fastforce
    have mem: "name \<in> set a \<longleftrightarrow> name \<noteq> net_host rule \<and> name \<notin> set seen \<and>
          map_option net_decision (find (\<lambda>r. net_host r = name \<and> net_decision r \<noteq> Prompt) rules) = Some Allow"
        "name \<in> set d \<longleftrightarrow> name \<noteq> net_host rule \<and> name \<notin> set seen \<and>
          map_option net_decision (find (\<lambda>r. net_host r = name \<and> net_decision r \<noteq> Prompt) rules) = Some Forbidden"
        and dist: "distinct a" "distinct d" for name
      using "2.IH"(2)[OF False ad] by simp_all
    have seen: "net_host rule \<notin> set seen" using False by blast
    show ?thesis
    proof (cases "net_decision rule")
      case Allow
      with "2.prems" False ad have "allowed = net_host rule # a" "denied = d" by auto
      with Allow seen show ?thesis by (simp add: mem dist)
    next
      case Prompt
      with False show ?thesis by simp
    next
      case Forbidden
      with "2.prems" False ad have "allowed = a" "denied = net_host rule # d" by auto
      with Forbidden seen show ?thesis by (simp add: mem dist)
    qed
  qed
qed simp

lemma sorted_distinct_adj:
  fixes xs :: "'a::linorder list"
  shows "sorted xs \<Longrightarrow> distinct_adj xs \<Longrightarrow> sorted_wrt (<) xs"
proof (induction xs rule: induct_list012)
  case (3 x y zs)
  then have "x < y" "sorted_wrt (<) (y # zs)" by auto
  moreover from this have "x < z" if "z \<in> set zs" for z using that by fastforce
  ultimately show ?case by simp
qed simp_all

section \<open>Properties\<close>

text \<open>
  C35: the strictest applicable rule decides. Evaluating a command never panics; the decision is the
  maximum over all rules of the policy that apply to the command, found as if every rule had been
  tried without the index, and the fallback decides only when no rule applies. So an allow rule for
  one spelling of a program never hides a stricter rule.
\<close>

theorem strictest_rule_decides:
  assumes "policy_inv h p"
  shows "\<exists>e. check_with_options h p cmd fallback options = Some e
    \<and> (is_match e \<longleftrightarrow> (\<exists>r. rule_applies h p options cmd r))
    \<and> (\<forall>r. rule_applies h p options cmd r \<longrightarrow> rule_decision r \<le> ev_decision e)
    \<and> (if \<exists>r. rule_applies h p options cmd r
       then ev_decision e \<in> rule_decision ` {r. rule_applies h p options cmd r}
       else ev_decision e = fallback cmd)"
proof -
  have "applicable h p cmd options \<noteq> [] \<longleftrightarrow> (\<exists>r. rule_applies h p options cmd r)"
    using applicable_iff[OF assms, of cmd options] by (metis Collect_empty_eq image_is_empty set_empty)
  with check_strictest[of h p cmd fallback options] strictest_bounds[OF assms] show ?thesis by metis
qed

definition example_host :: host where
  "example_host = \<lparr>host_windows = False, host_file_name = Some, host_components = (\<lambda>_. 1),
     host_is_absolute = (\<lambda>_. False), host_absolute_path = (\<lambda>_. Err []),
     host_iter_all = (\<lambda>m. map (\<lambda>k. (k, the (m k))) (sorted_list_of_set (dom m))),
     host_shlex_split = (\<lambda>_. None), host_shlex_join = (\<lambda>_. None), host_parse_ipv6 = (\<lambda>_. None),
     host_parse_ip = (\<lambda>_. None)\<rparr>"

lemma example_host_iterates: "iterates example_host"
  by (auto simp: iterates_def example_host_def o_def)

theorem strictest_rule_decides_witness:
  "\<exists>e. check_with_options example_host (policy_empty example_host) [''ls''] (\<lambda>_. Prompt) default_options = Some e
    \<and> ev_decision e = Prompt"
proof -
  have "\<not> rule_applies example_host (policy_empty example_host) default_options [''ls''] r" for r
    by (simp add: rule_applies_def policy_empty_def policy_new_def from_shared_parts_def rules_in_def)
  then show ?thesis
    using strictest_rule_decides[OF policy_empty_inv[OF example_host_iterates], of "[''ls'']" "\<lambda>_. Prompt" default_options]
    by auto
qed

text \<open>
  Evaluating a nonempty group of commands gives the strictest of their decisions, and an empty
  group panics, as documented.
\<close>

lemma check_multiple_decides:
  "check_multiple_with_options h p [] fallback options = None
   \<and> (\<exists>e. check_multiple_with_options h p (cmd # commands) fallback options = Some e
        \<and> ev_decision e = Max (strictest h p fallback options ` set (cmd # commands)))"
  using check_multiple_Max[of "cmd # commands" h p fallback options]
  by (simp add: check_multiple_with_options_def from_matches_def)


text \<open>
  C39: an overlay only adds rules. The merged policy is well formed and holds the rules of both, so
  without executable resolution it decides every command that one of them has a rule for at least
  as strictly as that policy alone.
\<close>

theorem merge_overlay_keeps_rules:
  assumes "iterates h" "policy_inv h p" "policy_inv h overlay" "q \<in> {p, overlay}"
    and "rule_applies h q default_options cmd r"
  shows "policy_inv h (merge_overlay h p overlay)
    \<and> rules_in (pol_rules_by_program (merge_overlay h p overlay)) =
       rules_in (pol_rules_by_program p) \<union> rules_in (pol_rules_by_program overlay)
    \<and> strictest h q fallback default_options cmd \<le> strictest h (merge_overlay h p overlay) fallback default_options cmd"
proof -
  let ?m = "merge_overlay h p overlay"
  have inv: "policy_inv h ?m" "policy_inv h q" using assms(2-4) merge_overlay_inv[OF assms(1-3)] by auto
  have rules: "rules_in (pol_rules_by_program ?m) =
      rules_in (pol_rules_by_program p) \<union> rules_in (pol_rules_by_program overlay)"
    using rules_in_extend_iter[OF assms(1)] assms(3)
    by (simp add: merge_overlay_def from_shared_parts_def policy_inv_def keyed_def)
  have "\<exists>r. rule_applies h q default_options cmd r" using assms(5) by blast
  then have "strictest h q fallback default_options cmd \<in> rule_decision ` {r. rule_applies h q default_options cmd r}"
    using strictest_bounds(1)[OF inv(2), of default_options cmd fallback] by (simp only: if_True)
  then obtain s where
    s: "rule_applies h q default_options cmd s" "strictest h q fallback default_options cmd = rule_decision s"
    by blast
  then have "rule_applies h ?m default_options cmd s"
    using rules assms(4) by (auto simp: rule_applies_def default_options_def)
  with strictest_bounds(2)[OF inv(1)] s(2) inv(1) rules show ?thesis by metis
qed

definition rm_policy :: policy where
  "rm_policy = (case add_prefix_rule example_host [''rm''] Forbidden (policy_empty example_host) of
     Ok p \<Rightarrow> p | Err _ \<Rightarrow> policy_empty example_host)"

lemma rm_policy_added: "add_prefix_rule example_host [''rm''] Forbidden (policy_empty example_host) = Ok rm_policy"
proof -
  have "trim ''rm'' \<noteq> []" by code_simp
  then show ?thesis by (simp add: rm_policy_def add_prefix_rule_def validate_program_def Let_def)
qed

lemma rm_policy_inv: "policy_inv example_host rm_policy"
  by (rule add_prefix_rule_inv[OF policy_empty_inv[OF example_host_iterates] rm_policy_added])

lemma rm_rule_applies:
  "rule_applies example_host rm_policy default_options [''rm''] (simple_rule ''rm'' [] Forbidden)"
proof -
  have "pol_rules_by_program rm_policy =
      mm_insert ''rm'' (simple_rule ''rm'' [] Forbidden) (pol_rules_by_program (policy_empty example_host))"
    by (rule add_prefix_rule_cases[OF rm_policy_added]) simp
  then show ?thesis
    using simple_rule_matches[of "''rm''" "[]" Forbidden "[]"] by (simp add: rule_applies_def rules_in_insert)
qed


theorem merge_overlay_keeps_rules_witness:
  "strictest example_host rm_policy (\<lambda>_. Allow) default_options [''rm'']
     \<le> strictest example_host (merge_overlay example_host (policy_empty example_host) rm_policy) (\<lambda>_. Allow)
         default_options [''rm'']"
  using merge_overlay_keeps_rules[OF example_host_iterates policy_empty_inv[OF example_host_iterates] rm_policy_inv _
      rm_rule_applies, of "\<lambda>_. Allow"] by simp

text \<open>
  The network hosts given to the proxy follow the last rule on each host that is not a prompt:
  a host is allowed, or denied, exactly when that rule says so; no host is listed twice or in both
  lists.
\<close>

lemma compiled_network_domains_correct:
  "case compiled_network_domains p of (allowed, denied) \<Rightarrow>
     distinct allowed \<and> distinct denied \<and> set allowed \<inter> set denied = {}
     \<and> set allowed = {name. last_decision (pol_network_rules p) name = Some Allow}
     \<and> set denied = {name. last_decision (pol_network_rules p) name = Some Forbidden}"
proof -
  obtain a d where ad: "network_scan (rev (pol_network_rules p)) [] = (a, d)" by fastforce
  with network_scan_sets[OF ad] show ?thesis
    by (auto simp: compiled_network_domains_def last_decision_def)
qed

text \<open>
  The listed allow prefixes are the rendered prefixes of exactly the allow rules, sorted and
  without duplicates, whatever order the rules are stored in.
\<close>

lemma allowed_prefixes_correct:
  assumes "iterates h" "policy_inv h p"
  shows "sorted_wrt (<) (get_allowed_prefixes h p)
    \<and> set (get_allowed_prefixes h p) =
       rendered_prefix ` {r \<in> rules_in (pol_rules_by_program p). rule_decision r = Allow}"
proof -
  have entries: "set (host_iter_all h (pol_rules_by_program p)) = {(k, vs). pol_rules_by_program p k = Some vs}"
    using assms by (auto simp: iterates_def policy_inv_def keyed_def)
  have rules: "(\<exists>k vs. pol_rules_by_program p k = Some vs \<and> r \<in> set vs) \<longleftrightarrow> r \<in> rules_in (pol_rules_by_program p)" for r
  proof -
    have "(\<exists>vs. pol_rules_by_program p k = Some vs \<and> r \<in> set vs) \<longleftrightarrow> r \<in> set (mm_get (pol_rules_by_program p) k)" for k
      by (cases "pol_rules_by_program p k") (simp_all add: mm_get_def)
    then show ?thesis by (simp add: rules_in_def)
  qed
  have "set (get_allowed_prefixes h p) =
      rendered_prefix ` {r. (\<exists>k vs. pol_rules_by_program p k = Some vs \<and> r \<in> set vs) \<and> rule_decision r = Allow}"
    by (auto simp: get_allowed_prefixes_def entries)
  moreover have "sorted_wrt (<) (get_allowed_prefixes h p)"
    unfolding get_allowed_prefixes_def by (rule sorted_distinct_adj) simp_all
  ultimately show ?thesis by (simp add: rules)
qed

theorem allowed_prefixes_correct_witness:
  "set (get_allowed_prefixes example_host rm_policy) =
     rendered_prefix ` {r \<in> rules_in (pol_rules_by_program rm_policy). rule_decision r = Allow}"
  using allowed_prefixes_correct[OF example_host_iterates rm_policy_inv] by simp

end
