(* ===== verification/Policy_Parser.thy ===== *)
theory Policy_Parser
  imports Policy_Results
begin

text \<open>
  The policy language of \<^verbatim>\<open>execpolicy/src/parser.rs\<close>: the builtins that a policy file calls, the
  builder they fill, the check of the examples and the canonical form of network hosts
  (\<^verbatim>\<open>normalize_network_rule_host\<close> of \<^verbatim>\<open>rule.rs\<close>).

  Policy files are Starlark programs. The evaluator is the parameter \<open>starlark\<close>: it gives, for a
  file, the builtin calls in the order they are made and the error the program ends with, if any.
  A Starlark value is a string, a list or a value of another type, of which only the type name is
  used.
\<close>

section \<open>Canonical network hosts\<close>

text \<open>\<^verbatim>\<open>u16::from_str\<close>, \<^verbatim>\<open>str::rsplit_once\<close> and \<^verbatim>\<open>str::trim_end_matches\<close>.\<close>

definition parse_u16 :: "string \<Rightarrow> nat option" where
  "parse_u16 s =
     (let d = (case strip_prefix ''+'' s of Some r \<Rightarrow> r | None \<Rightarrow> s)
      in if d = [] \<or> \<not> list_all is_ascii_digit d \<or> 65535 < digits_val d then None
         else Some (digits_val d))"

definition rsplit_once :: "string \<Rightarrow> string \<Rightarrow> (string \<times> string) option" where
  "rsplit_once p s = map_option (\<lambda>i. (take i s, drop (i + length p) s)) (rfind_str p s)"

definition trim_end_matches :: "char \<Rightarrow> string \<Rightarrow> string" where
  "trim_end_matches c s = rev (dropWhile (\<lambda>x. x = c) (rev s))"

definition host_error :: "string \<Rightarrow> ('a, policy_error) result" where
  "host_error message = Err (InvalidRule (''network_rule host '' @ message))"

definition valid_port :: "string \<Rightarrow> bool" where
  "valid_port port \<longleftrightarrow> parse_u16 port \<noteq> None \<and> list_all is_ascii_digit port"

text \<open>The host without brackets and port.\<close>

definition strip_port :: "string \<Rightarrow> string \<Rightarrow> (string, policy_error) result" where
  "strip_port raw host =
     (case strip_prefix ''['' host of
        Some stripped \<Rightarrow>
          (case split_once '']'' stripped of
             None \<Rightarrow> host_error ''has an invalid bracketed IPv6 literal''
           | Some (inside, rest) \<Rightarrow>
               let port_ok = (case strip_prefix '':'' rest of Some port \<Rightarrow> valid_port port | None \<Rightarrow> False) in
               if rest \<noteq> [] \<and> \<not> port_ok then host_error (''contains an unsupported suffix: '' @ raw)
               else Ok inside)
      | None \<Rightarrow>
          (case rsplit_once '':'' host of
             Some (candidate, port) \<Rightarrow>
               if contains_str '':'' candidate then Ok host
               else if candidate = [] \<or> \<not> valid_port port then host_error ''has an invalid port''
               else Ok candidate
           | None \<Rightarrow> Ok host))"

definition ipv6_host :: "host \<Rightarrow> bool \<Rightarrow> string \<Rightarrow> (string, policy_error) result" where
  "ipv6_host h bracketed normalized =
     (let scoped = (if bracketed then
                      (case split_once ''%25'' normalized of Some x \<Rightarrow> Some x | None \<Rightarrow> split_once ''%'' normalized)
                    else split_once ''%'' normalized)
      in case scoped of
           None \<Rightarrow>
             (case host_parse_ipv6 h normalized of
                None \<Rightarrow> host_error ''has an invalid IPv6 literal''
              | Some ip \<Rightarrow> Ok ip)
         | Some (literal, scope) \<Rightarrow>
             if scope = [] \<or> contains_str ''%'' scope then host_error ''has an invalid IPv6 scope''
             else
               (case host_parse_ipv6 h literal of
                  None \<Rightarrow> host_error ''has an invalid IPv6 literal''
                | Some ip \<Rightarrow> Ok (ip @ ''%'' @ scope)))"

definition checked_host :: "host \<Rightarrow> bool \<Rightarrow> string \<Rightarrow> (string, policy_error) result" where
  "checked_host h bracketed normalized =
     (if normalized = [] then host_error ''cannot be empty''
      else if contains_str ''*'' normalized then
        host_error ''must be a specific host; wildcards are not allowed''
      else if list_ex is_whitespace (utf8_chars normalized) then host_error ''cannot contain whitespace''
      else if contains_any (''[]@'' @ [CHR 0x5C]) normalized then host_error ''contains invalid syntax''
      else if bracketed \<or> contains_str '':'' normalized then ipv6_host h bracketed normalized
      else Ok (case host_parse_ip h normalized of Some ip \<Rightarrow> ip | None \<Rightarrow> normalized))"

definition normalize_network_rule_host :: "host \<Rightarrow> string \<Rightarrow> (string, policy_error) result" where
  "normalize_network_rule_host h raw =
     (let host = trim raw; bracketed = starts_with ''['' host in
      if host = [] then host_error ''cannot be empty''
      else if contains_str ''://'' host \<or> contains_any ''/?#'' host then
        host_error ''must be a hostname or IP literal (without scheme or path)''
      else and_then (strip_port raw host) (\<lambda>bare.
        checked_host h bracketed
          (if bracketed \<or> contains_str '':'' bare then to_ascii_lowercase bare
           else to_ascii_lowercase (trim_end_matches (CHR ''.'') bare))))"

definition protocol_parse :: "string \<Rightarrow> (network_rule_protocol, policy_error) result" where
  "protocol_parse raw =
     (if raw = ''http'' then Ok Http
      else if raw \<in> {''https'', ''https_connect'', ''http-connect''} then Ok Https
      else if raw = ''socks5_tcp'' then Ok Socks5Tcp
      else if raw = ''socks5_udp'' then Ok Socks5Udp
      else Err (InvalidRule
        (''network_rule protocol must be one of http, https, socks5_tcp, socks5_udp (got '' @ raw @ '')'')))"

section \<open>The builder\<close>

record pending_example_validation =
  pe_rules :: "prefix_rule list"
  pe_matches :: "string list list"
  pe_not_matches :: "string list list"
  pe_location :: "error_location option"

record policy_builder =
  pb_rules_by_program :: "prefix_rule multimap"
  pb_network_rules :: "network_rule list"
  pb_host_executables :: "string \<rightharpoonup> string list"
  pb_pending :: "pending_example_validation list"

definition builder_new :: policy_builder where
  "builder_new = \<lparr>pb_rules_by_program = Map.empty, pb_network_rules = [], pb_host_executables = Map.empty,
     pb_pending = []\<rparr>"

definition add_rule :: "prefix_rule \<Rightarrow> policy_builder \<Rightarrow> policy_builder" where
  "add_rule rule b = b\<lparr>pb_rules_by_program := mm_insert (rule_program rule) rule (pb_rules_by_program b)\<rparr>"

definition add_network_rule :: "network_rule \<Rightarrow> policy_builder \<Rightarrow> policy_builder" where
  "add_network_rule rule b = b\<lparr>pb_network_rules := pb_network_rules b @ [rule]\<rparr>"

definition add_host_executable :: "string \<Rightarrow> string list \<Rightarrow> policy_builder \<Rightarrow> policy_builder" where
  "add_host_executable name paths b = b\<lparr>pb_host_executables := (pb_host_executables b)(name \<mapsto> paths)\<rparr>"

definition add_pending_example_validation :: "prefix_rule list \<Rightarrow> string list list \<Rightarrow> string list list \<Rightarrow>
    error_location option \<Rightarrow> policy_builder \<Rightarrow> policy_builder" where
  "add_pending_example_validation rules matches not_matches location b =
     b\<lparr>pb_pending := pb_pending b @
        [\<lparr>pe_rules = rules, pe_matches = matches, pe_not_matches = not_matches, pe_location = location\<rparr>]\<rparr>"

definition attach_validation_location :: "error_location option \<Rightarrow> policy_error \<Rightarrow> policy_error" where
  "attach_validation_location location error =
     (case location of Some l \<Rightarrow> with_location l error | None \<Rightarrow> error)"

definition resolving :: match_options where
  "resolving = \<lparr>resolve_host_executables = True\<rparr>"

definition render_example :: "host \<Rightarrow> string list \<Rightarrow> string" where
  "render_example h example =
     (case host_shlex_join h example of Some s \<Rightarrow> s | None \<Rightarrow> ''unable to render example'')"

definition validate_match_examples :: "host \<Rightarrow> policy \<Rightarrow> prefix_rule list \<Rightarrow> string list list \<Rightarrow>
    (unit, policy_error) result" where
  "validate_match_examples h p rules matches =
     (let unmatched = map (render_example h)
            (filter (\<lambda>example. \<not> snd (visit_matches h p example resolving (\<lambda>s _ _. (s, True)) ())) matches)
      in if unmatched = [] then Ok () else Err (ExampleDidNotMatch rules unmatched None))"

fun validate_not_match_examples :: "host \<Rightarrow> policy \<Rightarrow> string list list \<Rightarrow> (unit, policy_error) result" where
  "validate_not_match_examples h p [] = Ok ()"
| "validate_not_match_examples h p (example # examples) =
     (case fst (visit_matches h p example resolving
                  (\<lambda>_ rule resolved. (Some (materialize_match rule example resolved), True)) None) of
        None \<Rightarrow> validate_not_match_examples h p examples
      | Some None \<Rightarrow> Err Policy_Panicked
      | Some (Some m) \<Rightarrow> Err (ExampleDidMatch m (render_example h example) None))"

definition example_policy :: "host \<Rightarrow> (string \<rightharpoonup> string list) \<Rightarrow> prefix_rule list \<Rightarrow> policy" where
  "example_policy h executables rules =
     from_shared_parts h (fold (\<lambda>rule. mm_insert (rule_program rule) rule) rules Map.empty) [] executables"

fun validate_examples :: "host \<Rightarrow> (string \<rightharpoonup> string list) \<Rightarrow> pending_example_validation list \<Rightarrow>
    (unit, policy_error) result" where
  "validate_examples h executables [] = Ok ()"
| "validate_examples h executables (v # vs) =
     (let p = example_policy h executables (pe_rules v) in
      and_then (map_err (attach_validation_location (pe_location v))
                  (validate_not_match_examples h p (pe_not_matches v))) (\<lambda>_.
      and_then (map_err (attach_validation_location (pe_location v))
                  (validate_match_examples h p (pe_rules v) (pe_matches v))) (\<lambda>_.
        validate_examples h executables vs)))"

definition validate_pending_examples :: "host \<Rightarrow> policy_builder \<Rightarrow> policy_builder \<times> (unit, policy_error) result" where
  "validate_pending_examples h b = (b\<lparr>pb_pending := []\<rparr>, validate_examples h (pb_host_executables b) (pb_pending b))"

definition builder_build :: "host \<Rightarrow> policy_builder \<Rightarrow> policy" where
  "builder_build h b = from_shared_parts h (pb_rules_by_program b) (pb_network_rules b) (pb_host_executables b)"

section \<open>The builtins\<close>

datatype starlark_value = Star_Str string | Star_List "starlark_value list" | Star_Other string

fun get_type :: "starlark_value \<Rightarrow> string" where
  "get_type (Star_Str _) = ''string''"
| "get_type (Star_List _) = ''list''"
| "get_type (Star_Other name) = name"

fun collect_results :: "('a, 'e) result list \<Rightarrow> ('a list, 'e) result" where
  "collect_results [] = Ok []"
| "collect_results (r # rs) = and_then r (\<lambda>x. and_then (collect_results rs) (\<lambda>xs. Ok (x # xs)))"

definition unpack_str :: "(string \<Rightarrow> policy_error) \<Rightarrow> starlark_value \<Rightarrow> (string, policy_error) result" where
  "unpack_str error value = (case value of Star_Str s \<Rightarrow> Ok s | _ \<Rightarrow> Err (error (get_type value)))"

definition parse_pattern_token :: "starlark_value \<Rightarrow> (pattern_token, policy_error) result" where
  "parse_pattern_token value =
     (case value of
        Star_Str s \<Rightarrow> Ok (Single s)
      | Star_List vs \<Rightarrow>
          and_then (collect_results (map (unpack_str (\<lambda>t. InvalidPattern
            (''pattern alternative must be a string (got '' @ t @ '')''))) vs)) from_alternatives
      | Star_Other t \<Rightarrow> Err (InvalidPattern (''pattern element must be a string or list of strings (got '' @ t @ '')'')))"

definition parse_pattern :: "starlark_value list \<Rightarrow> (pattern_token list, policy_error) result" where
  "parse_pattern items =
     and_then (collect_results (map parse_pattern_token items)) (\<lambda>tokens.
       case tokens of
         [] \<Rightarrow> Err (InvalidPattern ''pattern cannot be empty'')
       | first # _ \<Rightarrow> and_then (validate_program first) (\<lambda>_. Ok tokens))"

definition parse_string_example :: "host \<Rightarrow> string \<Rightarrow> (string list, policy_error) result" where
  "parse_string_example h raw =
     (case host_shlex_split h raw of
        None \<Rightarrow> Err (InvalidExample ''example string has invalid shell syntax'')
      | Some tokens \<Rightarrow> if tokens = [] then Err (InvalidExample ''example cannot be an empty string'') else Ok tokens)"

definition parse_list_example :: "starlark_value list \<Rightarrow> (string list, policy_error) result" where
  "parse_list_example vs =
     and_then (collect_results (map (unpack_str (\<lambda>t. InvalidExample
         (''example tokens must be strings (got '' @ t @ '')''))) vs)) (\<lambda>tokens.
       if tokens = [] then Err (InvalidExample ''example cannot be an empty list'') else Ok tokens)"

definition parse_example :: "host \<Rightarrow> starlark_value \<Rightarrow> (string list, policy_error) result" where
  "parse_example h value =
     (case value of
        Star_Str raw \<Rightarrow> parse_string_example h raw
      | Star_List vs \<Rightarrow> parse_list_example vs
      | Star_Other t \<Rightarrow> Err (InvalidExample (''example must be a string or list of strings (got '' @ t @ '')'')))"

definition parse_examples :: "host \<Rightarrow> starlark_value list \<Rightarrow> (string list list, policy_error) result" where
  "parse_examples h items = collect_results (map (parse_example h) items)"

definition parse_justification :: "string option \<Rightarrow> (string option, policy_error) result" where
  "parse_justification justification =
     (case justification of
        Some raw \<Rightarrow> if trim raw = [] then Err (InvalidRule ''justification cannot be empty'') else Ok (Some raw)
      | None \<Rightarrow> Ok None)"

definition optional_examples :: "host \<Rightarrow> starlark_value list option \<Rightarrow> (string list list, policy_error) result" where
  "optional_examples h items = (case items of None \<Rightarrow> Ok [] | Some vs \<Rightarrow> parse_examples h vs)"

definition call_prefix_rule :: "host \<Rightarrow> starlark_value list \<Rightarrow> string option \<Rightarrow> starlark_value list option \<Rightarrow>
    starlark_value list option \<Rightarrow> string option \<Rightarrow> error_location option \<Rightarrow> policy_builder \<Rightarrow>
    (policy_builder, policy_error) result" where
  "call_prefix_rule h pattern raw_decision match_items not_match_items raw_justification top_location b =
     and_then (case raw_decision of Some raw \<Rightarrow> decision_parse raw | None \<Rightarrow> Ok Allow) (\<lambda>d.
     and_then (parse_justification raw_justification) (\<lambda>justification.
     and_then (parse_pattern pattern) (\<lambda>tokens.
     and_then (optional_examples h match_items) (\<lambda>matches.
     and_then (optional_examples h not_match_items) (\<lambda>not_matches.
       let has_examples = (matches \<noteq> [] \<or> not_matches \<noteq> []);
           location = (if has_examples then top_location else None)
       in case tokens of
            [] \<Rightarrow> Err (InvalidPattern ''pattern cannot be empty'')
          | first_token # rest \<Rightarrow>
              let rules = map (\<lambda>head. \<lparr>rule_pattern = \<lparr>pat_first = head, pat_rest = rest\<rparr>, rule_decision = d,
                                       rule_justification = justification\<rparr>) (alternatives first_token);
                  b' = (if has_examples then add_pending_example_validation rules matches not_matches location b else b)
              in Ok (fold add_rule rules b'))))))"

definition parse_network_rule_decision :: "string \<Rightarrow> (decision, policy_error) result" where
  "parse_network_rule_decision raw = (if raw = ''deny'' then Ok Forbidden else decision_parse raw)"

definition call_network_rule :: "host \<Rightarrow> string \<Rightarrow> string \<Rightarrow> string \<Rightarrow> string option \<Rightarrow> policy_builder \<Rightarrow>
    (policy_builder, policy_error) result" where
  "call_network_rule h raw_host raw_protocol raw_decision raw_justification b =
     and_then (protocol_parse raw_protocol) (\<lambda>protocol.
     and_then (parse_network_rule_decision raw_decision) (\<lambda>d.
     and_then (parse_justification raw_justification) (\<lambda>justification.
     and_then (normalize_network_rule_host h raw_host) (\<lambda>host.
       Ok (add_network_rule \<lparr>net_host = host, net_protocol = protocol, net_decision = d,
             net_justification = justification\<rparr> b)))))"

definition parse_literal_absolute_path :: "host \<Rightarrow> string \<Rightarrow> (string, policy_error) result" where
  "parse_literal_absolute_path h raw =
     (if \<not> host_is_absolute h raw then
        Err (InvalidRule (''host_executable paths must be absolute (got '' @ raw @ '')''))
      else map_err (\<lambda>e. InvalidRule (''invalid absolute path `'' @ raw @ ''`: '' @ e)) (host_absolute_path h raw))"

definition validate_host_executable_name :: "host \<Rightarrow> string \<Rightarrow> (unit, policy_error) result" where
  "validate_host_executable_name h name =
     (if name = [] then Err (InvalidRule ''host_executable name cannot be empty'')
      else if host_components h name \<noteq> 1 \<or> host_file_name h name \<noteq> Some name then
        Err (InvalidRule (''host_executable name must be a bare executable name (got '' @ name @ '')''))
      else Ok ())"

fun host_paths :: "host \<Rightarrow> string \<Rightarrow> starlark_value list \<Rightarrow> string list \<Rightarrow> (string list, policy_error) result" where
  "host_paths h name [] parsed = Ok parsed"
| "host_paths h name (value # values) parsed =
     and_then (unpack_str (\<lambda>t. InvalidRule (''host_executable paths must be strings (got '' @ t @ '')'')) value) (\<lambda>raw.
     and_then (parse_literal_absolute_path h raw) (\<lambda>path.
       if executable_path_lookup_key h path \<noteq> Some (executable_lookup_key (host_windows h) name) then
         Err (InvalidRule (''host_executable path `'' @ raw @ ''` must have basename `'' @ name @ ''`''))
       else host_paths h name values (if path \<in> set parsed then parsed else parsed @ [path])))"

definition call_host_executable :: "host \<Rightarrow> string \<Rightarrow> starlark_value list \<Rightarrow> policy_builder \<Rightarrow>
    (policy_builder, policy_error) result" where
  "call_host_executable h name paths b =
     and_then (validate_host_executable_name h name) (\<lambda>_.
     and_then (host_paths h name paths []) (\<lambda>parsed.
       Ok (add_host_executable (executable_lookup_key (host_windows h) name) parsed b)))"

section \<open>Policy files\<close>

datatype builtin_call =
    Prefix_Rule "starlark_value list" "string option" "starlark_value list option" "starlark_value list option"
      "string option" "error_location option"
  | Network_Rule string string string "string option"
  | Host_Executable string "starlark_value list"

fun run_call :: "host \<Rightarrow> builtin_call \<Rightarrow> policy_builder \<Rightarrow> (policy_builder, policy_error) result" where
  "run_call h (Prefix_Rule pattern d ms nms j loc) b = call_prefix_rule h pattern d ms nms j loc b"
| "run_call h (Network_Rule host protocol d j) b = call_network_rule h host protocol d j b"
| "run_call h (Host_Executable name paths) b = call_host_executable h name paths b"

fun run_calls :: "host \<Rightarrow> builtin_call list \<Rightarrow> policy_builder \<Rightarrow> (policy_builder, policy_error) result" where
  "run_calls h [] b = Ok b"
| "run_calls h (c # cs) b = and_then (run_call h c b) (run_calls h cs)"

type_synonym starlark_eval = "string \<Rightarrow> string \<Rightarrow> builtin_call list \<times> string option"

definition policy_parse :: "host \<Rightarrow> starlark_eval \<Rightarrow> string \<Rightarrow> string \<Rightarrow> policy_builder \<Rightarrow>
    (policy_builder, policy_error) result" where
  "policy_parse h starlark identifier contents b =
     (let (calls, failure) = starlark identifier contents in
      and_then (run_calls h calls b) (\<lambda>b'.
        case failure of
          Some e \<Rightarrow> Err (Starlark e)
        | None \<Rightarrow> (case validate_pending_examples h b' of (b'', r) \<Rightarrow> and_then r (\<lambda>_. Ok b''))))"

fun parse_files :: "host \<Rightarrow> starlark_eval \<Rightarrow> (string \<times> string) list \<Rightarrow> policy_builder \<Rightarrow>
    (policy_builder, policy_error) result" where
  "parse_files h starlark [] b = Ok b"
| "parse_files h starlark ((identifier, contents) # files) b =
     and_then (policy_parse h starlark identifier contents b) (parse_files h starlark files)"

definition load_policies :: "host \<Rightarrow> starlark_eval \<Rightarrow> (string \<times> string) list \<Rightarrow> (policy, policy_error) result" where
  "load_policies h starlark files =
     and_then (parse_files h starlark files builder_new) (\<lambda>b. Ok (builder_build h b))"

end
