(* ===== verification/Policy_Files.thy ===== *)
theory Policy_Files
  imports Policy_Parser
begin

text \<open>
  What a policy file guarantees: the builder stays well formed under every builtin, the examples
  of a declaration are checked against exactly its own rules, and network hosts are canonical.
\<close>

section \<open>Examples\<close>

lemma visit_first:
  "visit_all (\<lambda>_ r resolved. (Some (f r resolved), True)) xs None =
     (case xs of [] \<Rightarrow> (None, False) | (r, resolved) # _ \<Rightarrow> (Some (f r resolved), True))"
  by (cases xs) auto

lemma validate_not_match_examples_ok:
  "validate_not_match_examples h p examples = Ok u \<longleftrightarrow>
     (\<forall>example\<in>set examples. applicable h p example resolving = [])"
proof (induction examples)
  case (Cons example examples)
  show ?case
  proof (cases "applicable h p example resolving")
    case Nil
    with Cons show ?thesis by (simp add: visit_matches_eq)
  next
    case (Cons x xs)
    then show ?thesis
      by (cases x) (auto simp: visit_matches_eq visit_first split: option.split)
  qed
qed simp

lemma validate_not_match_examples_no_panic: "validate_not_match_examples h p examples \<noteq> Err Policy_Panicked"
proof (induction examples)
  case (Cons example examples)
  show ?case
  proof (cases "applicable h p example resolving")
    case Nil
    with Cons show ?thesis by (simp add: visit_matches_eq)
  next
    case (Cons x xs)
    then have "materialize_match (fst x) example (snd x) \<noteq> None"
      using applicable_materialize[of x h p example resolving] by simp
    with Cons show ?thesis by (cases x) (auto simp: visit_matches_eq visit_first split: option.split)
  qed
qed simp

lemma validate_match_examples_ok:
  "validate_match_examples h p rules matches = Ok u \<longleftrightarrow>
     (\<forall>example\<in>set matches. applicable h p example resolving \<noteq> [])"
  by (auto simp: validate_match_examples_def visit_matches_eq filter_empty_conv Let_def)

lemma keyed_fold:
  "keyed m \<Longrightarrow> keyed (fold (\<lambda>rule. mm_insert (rule_program rule) rule) rules m)"
  by (induction rules arbitrary: m) (auto simp: keyed_insert)

lemma rules_in_fold:
  "rules_in (fold (\<lambda>rule. mm_insert (rule_program rule) rule) rules m) = rules_in m \<union> set rules"
  by (induction rules arbitrary: m) (auto simp: rules_in_insert)

lemma keyed_empty [simp]: "keyed Map.empty" and rules_in_empty [simp]: "rules_in Map.empty = {}"
  by (simp_all add: keyed_def rules_in_def)

lemma example_policy_inv: "iterates h \<Longrightarrow> policy_inv h (example_policy h executables rules)"
  unfolding example_policy_def by (rule from_shared_parts_inv) (auto intro: keyed_fold)

lemma example_policy_rules: "rules_in (pol_rules_by_program (example_policy h executables rules)) = set rules"
  by (simp add: example_policy_def from_shared_parts_def rules_in_fold)

text \<open>The examples of a declaration hold for its rules and the executables known at the end.\<close>

definition examples_hold :: "host \<Rightarrow> (string \<rightharpoonup> string list) \<Rightarrow> pending_example_validation \<Rightarrow> bool" where
  "examples_hold h executables v \<longleftrightarrow>
     (\<forall>example\<in>set (pe_matches v). \<exists>r\<in>set (pe_rules v).
        rule_applies h (example_policy h executables (pe_rules v)) resolving example r)
   \<and> (\<forall>example\<in>set (pe_not_matches v). \<forall>r\<in>set (pe_rules v).
        \<not> rule_applies h (example_policy h executables (pe_rules v)) resolving example r)"

lemma applicable_examples:
  assumes "iterates h"
  shows "applicable h (example_policy h executables rules) example resolving = [] \<longleftrightarrow>
    (\<forall>r\<in>set rules. \<not> rule_applies h (example_policy h executables rules) resolving example r)"
proof -
  let ?p = "example_policy h executables rules"
  have "applicable h ?p example resolving = [] \<longleftrightarrow> (\<forall>r. \<not> rule_applies h ?p resolving example r)"
    using applicable_iff[OF example_policy_inv[OF assms], of executables rules example resolving]
    by (metis Collect_empty_eq image_is_empty set_empty)
  moreover have "rule_applies h ?p resolving example r \<Longrightarrow> r \<in> set rules" for r
    by (simp add: rule_applies_def example_policy_rules)
  ultimately show ?thesis by blast
qed

lemma validate_examples_ok:
  assumes "iterates h"
  shows "validate_examples h executables vs = Ok u \<longleftrightarrow> (\<forall>v\<in>set vs. examples_hold h executables v)"
proof (induction vs)
  case (Cons v vs)
  have "validate_examples h executables (v # vs) = Ok u \<longleftrightarrow>
      examples_hold h executables v \<and> validate_examples h executables vs = Ok u"
    by (auto simp: Let_def validate_not_match_examples_ok validate_match_examples_ok
        applicable_examples[OF assms] examples_hold_def)
  with Cons show ?case by simp
qed simp

section \<open>Canonical hosts\<close>

lemma contains_char [simp]: "contains_str [c] s \<longleftrightarrow> c \<in> set s"
  by (induction s) (auto simp: contains_str_def)

lemma contains_any_set: "contains_any cs s \<longleftrightarrow> set cs \<inter> set s \<noteq> {}"
  by (auto simp: contains_any_def list_ex_iff)

lemma split_once_char: "c \<notin> set a \<Longrightarrow> split_once [c] (a @ c # b) = Some (a, b)"
proof -
  have "c \<notin> set a \<Longrightarrow> find_str [c] (a @ c # b) = Some (length a)" by (induction a) auto
  then show "c \<notin> set a \<Longrightarrow> ?thesis" by (simp add: split_once_def)
qed

lemma split_once_char_None: "c \<notin> set s \<Longrightarrow> split_once [c] s = None"
  using contains_char[of c s] by (simp add: split_once_def contains_str_def)

definition special_chars :: string where
  "special_chars = ''/?#*[]@:.%'' @ [CHR 0x5C]"

lemma ascii_lower_letter: "ascii_lower d \<noteq> d \<Longrightarrow> ascii_lower d \<in> set ''abcdefghijklmnopqrstuvwxyz''"
proof -
  assume "ascii_lower d \<noteq> d"
  then obtain l where l: "map_of (zip ''ABCDEFGHIJKLMNOPQRSTUVWXYZ'' ''abcdefghijklmnopqrstuvwxyz'') d = Some l" "ascii_lower d = l"
    unfolding ascii_lower_def by (auto simp del: map_of.simps zip_Cons_Cons split: option.splits)
  from set_zip_rightD[OF map_of_SomeD[OF l(1)]] l(2) show ?thesis by simp
qed

lemma ascii_lower_special:
  assumes "c \<in> set special_chars"
  shows "ascii_lower d = c \<longleftrightarrow> d = c"
proof -
  have fix_c: "list_all (\<lambda>c. ascii_lower c = c) special_chars" by code_simp
  have "list_all (\<lambda>c. c \<notin> set ''abcdefghijklmnopqrstuvwxyz'') special_chars" by code_simp
  with assms have "c \<notin> set ''abcdefghijklmnopqrstuvwxyz''" unfolding list_all_iff by blast
  with ascii_lower_letter[of d] have "ascii_lower d = c \<Longrightarrow> d = c" by metis
  moreover from fix_c assms have "ascii_lower c = c" unfolding list_all_iff by blast
  ultimately show ?thesis by blast
qed

lemma lower_special:
  assumes "c \<in> set special_chars"
  shows "c \<in> set (to_ascii_lowercase s) \<longleftrightarrow> c \<in> set s"
proof -
  have "c \<in> set (to_ascii_lowercase s) \<longleftrightarrow> (\<exists>d\<in>set s. ascii_lower d = c)" by (auto simp: to_ascii_lowercase_def)
  then show ?thesis by (simp add: ascii_lower_special[OF assms])
qed

lemma trim_clean: "\<not> list_ex is_whitespace (utf8_chars t) \<Longrightarrow> trim t = t"
proof -
  have "dropWhile P xs = xs" if "\<not> list_ex P xs" for P :: "string \<Rightarrow> bool" and xs
    using that by (cases xs) auto
  moreover have "list_ex P (rev xs) = list_ex P xs" for P :: "string \<Rightarrow> bool" and xs
    by (simp add: list_ex_iff)
  ultimately show "\<not> list_ex is_whitespace (utf8_chars t) \<Longrightarrow> ?thesis"
    by (simp add: trim_def trim_end_def trim_start_def)
qed

text \<open>Text that the syntax checks accept, in lowercase.\<close>

definition host_text :: "string \<Rightarrow> bool" where
  "host_text t \<longleftrightarrow> t \<noteq> [] \<and> \<not> list_ex is_whitespace (utf8_chars t) \<and> to_ascii_lowercase t = t
     \<and> set (''/?#*[]@'' @ [CHR 0x5C]) \<inter> set t = {}"

lemma contains_scheme: "contains_str ''://'' s \<Longrightarrow> CHR ''/'' \<in> set s"
proof -
  assume "contains_str ''://'' s"
  then obtain i where "find_str ''://'' s = Some i" by (auto simp: contains_str_def)
  from find_str_Some[OF this] obtain r where "s = take i s @ ''://'' @ r" by blast
  then have "set s = set (take i s) \<union> set ''://'' \<union> set r" by (metis set_append Un_assoc)
  then show ?thesis by simp
qed

lemma strip_port_plain:
  assumes "\<not> starts_with ''['' t" "CHR '':'' \<notin> set t"
  shows "strip_port raw t = Ok t"
proof -
  have "rfind_str '':'' t = None"
  proof (cases "rfind_str '':'' t")
    case (Some i)
    with rfind_str_Some[OF Some] have "CHR '':'' \<in> set (drop i t)" by (auto simp: starts_with_iff)
    with assms show ?thesis by (auto dest: in_set_dropD)
  qed
  moreover have "strip_prefix ''['' t = None" using assms(1) by (simp only: strip_prefix_None not_False_eq_True)
  ultimately show ?thesis by (simp add: strip_port_def rsplit_once_def)
qed

lemma strip_port_colons:
  assumes "\<not> starts_with ''['' t" "t = a @ CHR '':'' # b" "CHR '':'' \<in> set b"
  shows "strip_port raw t = Ok t"
proof -
  obtain i where i: "rfind_str '':'' t = Some i"
  proof (cases "rfind_str '':'' t")
    case None
    from rfind_str_None[OF None, of "length a"] assms(2) show ?thesis by simp
  qed
  from assms(3) obtain c d where b: "b = c @ CHR '':'' # d" by (auto simp: in_set_conv_decomp)
  have "length a < i"
  proof (rule ccontr)
    assume "\<not> length a < i"
    moreover have "drop (length a + 1 + length c) t = CHR '':'' # d" by (simp add: assms(2) b)
    ultimately show False
      using rfind_str_greatest[OF i, of "length a + 1 + length c"] assms(2) b by simp
  qed
  then have "CHR '':'' \<in> set (take i t)" by (simp add: assms(2) take_Cons')
  moreover have "strip_prefix ''['' t = None" using assms(1) by (simp only: strip_prefix_None not_False_eq_True)
  ultimately show ?thesis using i by (simp add: strip_port_def rsplit_once_def)
qed

text \<open>
  What the standard library documents of address texts: a printed address is canonical, in the
  characters of its notation, an IPv6 address has at least two colons and parses from ASCII only,
  and a text without a colon is not an IPv6 address.
\<close>

definition address_texts :: "host \<Rightarrow> bool" where
  "address_texts h \<longleftrightarrow>
     (\<forall>s ip. host_parse_ipv6 h s = Some ip \<longrightarrow> list_all is_ascii s \<and> host_parse_ipv6 h ip = Some ip
        \<and> set ip \<subseteq> set ''0123456789abcdef:.'' \<and> (\<exists>a b. ip = a @ CHR '':'' # b \<and> CHR '':'' \<in> set b))
   \<and> (\<forall>s ip. host_parse_ip h s = Some ip \<longrightarrow> CHR '':'' \<notin> set s \<longrightarrow> host_parse_ip h ip = Some ip
        \<and> set ip \<subseteq> set ''0123456789.'' \<and> ip \<noteq> [] \<and> last ip \<noteq> CHR ''.'')"

lemma utf8_chars_ascii: "list_all is_ascii m \<Longrightarrow> utf8_chars m = map (\<lambda>c. [c]) m"
  using utf8_chars_ascii_prefix[of m "[]"] by simp

lemma address_chars:
  assumes "c \<in> set ''0123456789abcdef:.''"
  shows "is_ascii c" "\<not> is_whitespace [c]" "ascii_lower c = c" "c \<notin> set (''/?#*[]@%'' @ [CHR 0x5C])"
proof -
  have "list_all (\<lambda>c. is_ascii c \<and> \<not> is_whitespace [c] \<and> ascii_lower c = c \<and> c \<notin> set (''/?#*[]@%'' @ [CHR 0x5C]))
      ''0123456789abcdef:.''" by code_simp
  with assms show "is_ascii c" "\<not> is_whitespace [c]" "ascii_lower c = c" "c \<notin> set (''/?#*[]@%'' @ [CHR 0x5C])"
    unfolding list_all_iff by blast+
qed

lemma address_host_text:
  assumes "set ip \<subseteq> set ''0123456789abcdef:.''" "ip \<noteq> []"
  shows "host_text ip" "list_all is_ascii ip" "CHR ''%'' \<notin> set ip"
proof -
  have chars: "\<And>c. c \<in> set ip \<Longrightarrow> c \<in> set ''0123456789abcdef:.''" using assms(1) by blast
  show ascii: "list_all is_ascii ip" using address_chars(1) chars by (simp add: list_all_iff)
  have "to_ascii_lowercase ip = ip" using address_chars(3) chars by (simp add: to_ascii_lowercase_def map_idI)
  moreover have "\<not> list_ex is_whitespace (utf8_chars ip)"
    using address_chars(2) chars by (auto simp: utf8_chars_ascii[OF ascii] list_ex_iff)
  moreover have no: "c \<notin> set ip" if "c \<in> set (''/?#*[]@%'' @ [CHR 0x5C])" for c
    using that address_chars(4) chars by blast
  ultimately show "host_text ip" using assms(2) unfolding host_text_def by auto
  show "CHR ''%'' \<notin> set ip" using no by simp
qed

lemma host_text_facts:
  assumes "host_text t"
  shows "trim t = t" "\<not> starts_with ''['' t" "\<not> contains_str ''://'' t" "\<not> contains_any ''/?#'' t"
    "CHR ''*'' \<notin> set t" "\<not> contains_any (''[]@'' @ [CHR 0x5C]) t" "\<not> list_ex is_whitespace (utf8_chars t)"
    "to_ascii_lowercase t = t" "t \<noteq> []"
  using assms trim_clean contains_scheme[of t]
  by (auto simp: host_text_def contains_any_set starts_with_iff)

lemma normalize_colons:
  assumes "host_text t" "t = a @ CHR '':'' # b" "CHR '':'' \<in> set b"
  shows "normalize_network_rule_host h t = ipv6_host h False t"
proof -
  note f = host_text_facts[OF assms(1)]
  have "CHR '':'' \<in> set t" by (simp add: assms(2))
  then show ?thesis
    unfolding normalize_network_rule_host_def checked_host_def Let_def f(1) using f strip_port_colons[OF f(2) assms(2,3)] by simp
qed

lemma trim_end_matches_id: "t = [] \<or> last t \<noteq> c \<Longrightarrow> trim_end_matches c t = t"
  by (cases t rule: rev_cases) (auto simp: trim_end_matches_def)

lemma normalize_plain:
  assumes "host_text t" "CHR '':'' \<notin> set t" "last t \<noteq> CHR ''.''"
  shows "normalize_network_rule_host h t = Ok (case host_parse_ip h t of Some ip \<Rightarrow> ip | None \<Rightarrow> t)"
proof -
  note f = host_text_facts[OF assms(1)]
  show ?thesis
    unfolding normalize_network_rule_host_def checked_host_def Let_def f(1)
    using f assms(2) strip_port_plain[OF f(2) assms(2)] trim_end_matches_id[of t "CHR ''.''"] assms(3)
    by (simp split: option.split)
qed

lemma strip_port_subset: "strip_port raw t = Ok bare \<Longrightarrow> set bare \<subseteq> set t"
  by (auto simp: strip_port_def host_error_def rsplit_once_def Let_def
      split: option.splits prod.splits if_splits dest!: split_once_Some dest: in_set_takeD)

lemma host_error_not_Ok [simp]: "host_error message \<noteq> Ok x"
  by (simp add: host_error_def)

lemma if_host_error: "(if c then host_error message else r) = Ok x \<longleftrightarrow> \<not> c \<and> r = Ok x"
  by simp

text \<open>What the checks have established when a host is accepted.\<close>

lemma normalize_cases:
  assumes "normalize_network_rule_host h raw = Ok out"
  obtains (address) bracketed t where "host_text t" "ipv6_host h bracketed t = Ok out"
    | (plain) t where "host_text t" "CHR '':'' \<notin> set t" "last t \<noteq> CHR ''.''"
        "out = (case host_parse_ip h t of Some ip \<Rightarrow> ip | None \<Rightarrow> t)"
proof -
  let ?host = "trim raw" and ?br = "starts_with ''['' (trim raw)"
  from assms have ok: "\<not> contains_any ''/?#'' ?host"
    and "\<exists>bare. strip_port raw ?host = Ok bare \<and> checked_host h ?br
      (if ?br \<or> contains_str '':'' bare then to_ascii_lowercase bare
       else to_ascii_lowercase (trim_end_matches (CHR ''.'') bare)) = Ok out"
    unfolding normalize_network_rule_host_def Let_def if_host_error and_then_eq_Ok by blast+
  then obtain bare where bare: "strip_port raw ?host = Ok bare"
    and checked: "checked_host h ?br (if ?br \<or> contains_str '':'' bare then to_ascii_lowercase bare
       else to_ascii_lowercase (trim_end_matches (CHR ''.'') bare)) = Ok out" by blast
  define t where "t = (if ?br \<or> contains_str '':'' bare then to_ascii_lowercase bare
      else to_ascii_lowercase (trim_end_matches (CHR ''.'') bare))"
  have "checked_host h ?br t = Ok out" using checked by (simp only: t_def)
  then have t: "t \<noteq> []" "CHR ''*'' \<notin> set t" "\<not> list_ex is_whitespace (utf8_chars t)"
      "\<not> contains_any (''[]@'' @ [CHR 0x5C]) t"
    and out: "(if ?br \<or> contains_str '':'' t then ipv6_host h ?br t
        else Ok (case host_parse_ip h t of Some ip \<Rightarrow> ip | None \<Rightarrow> t)) = Ok out"
    unfolding checked_host_def if_host_error contains_char by blast+
  have sub: "set (trim_end_matches c xs) \<subseteq> set xs" for c xs
    by (auto simp: trim_end_matches_def dest: set_dropWhileD)
  have "c \<notin> set bare" if "c \<in> set ''/?#''" for c
    using ok strip_port_subset[OF bare] that by (auto simp: contains_any_set)
  then have "c \<notin> set t" if "c \<in> set ''/?#''" for c
    using that sub[of "CHR ''.''" bare] lower_special[of c] by (auto simp: t_def special_chars_def)
  moreover have "to_ascii_lowercase t = t" by (simp add: t_def)
  ultimately have txt_ok: "host_text t" using t by (auto simp: host_text_def contains_any_set)
  show thesis
  proof (cases "?br \<or> CHR '':'' \<in> set t")
    case True
    with out txt_ok show thesis by (intro address[of t ?br]) simp_all
  next
    case False
    have colon: "CHR '':'' \<in> set special_chars" "CHR ''.'' \<in> set special_chars" by (simp_all add: special_chars_def)
    have dots: "t = to_ascii_lowercase (trim_end_matches (CHR ''.'') bare)"
      using False lower_special[OF colon(1)] by (auto simp: t_def split: if_splits)
    have "last t \<noteq> CHR ''.''"
    proof -
      have ne: "trim_end_matches (CHR ''.'') bare \<noteq> []" using t(1) dots by (auto simp: to_ascii_lowercase_def)
      have "last (trim_end_matches (CHR ''.'') bare) \<noteq> CHR ''.''"
        using ne hd_dropWhile[of "\<lambda>x. x = CHR ''.''" "rev bare"]
        by (simp add: trim_end_matches_def last_rev)
      then show ?thesis
        using ne ascii_lower_special[OF colon(2)] by (simp add: dots to_ascii_lowercase_def last_map)
    qed
    with False out txt_ok show thesis by (intro plain[of t]) simp_all
  qed
qed

lemma ipv6_host_cases:
  assumes "ipv6_host h bracketed t = Ok out"
  obtains ip where "host_parse_ipv6 h t = Some ip" "out = ip"
    | literal sep scope ip where "sep \<in> {''%25'', ''%''}" "t = literal @ sep @ scope" "scope \<noteq> []"
        "CHR ''%'' \<notin> set scope" "host_parse_ipv6 h literal = Some ip" "out = ip @ ''%'' @ scope"
proof -
  let ?scoped = "if bracketed then
      (case split_once ''%25'' t of Some x \<Rightarrow> Some x | None \<Rightarrow> split_once ''%'' t) else split_once ''%'' t"
  show thesis
  proof (cases ?scoped)
    case None
    then have "ipv6_host h bracketed t = (case host_parse_ipv6 h t of
        None \<Rightarrow> host_error ''has an invalid IPv6 literal'' | Some ip \<Rightarrow> Ok ip)"
      unfolding ipv6_host_def Let_def None by simp
    with assms show thesis
      by (intro that(1)) (auto simp: host_error_def split: option.splits)
  next
    case (Some ls)
    obtain literal scope where ls: "ls = (literal, scope)" by (cases ls)
    with Some have "t = literal @ ''%25'' @ scope \<or> t = literal @ ''%'' @ scope"
      using split_once_Some[of "''%25''" t literal scope] split_once_Some[of "''%''" t literal scope]
      by (cases bracketed; cases "split_once ''%25'' t") simp_all
    then obtain sep where sep: "sep \<in> {''%25'', ''%''}" "t = literal @ sep @ scope" by (elim disjE) blast+
    have "ipv6_host h bracketed t = (if scope = [] \<or> contains_str ''%'' scope then host_error ''has an invalid IPv6 scope''
        else case host_parse_ipv6 h literal of None \<Rightarrow> host_error ''has an invalid IPv6 literal''
          | Some ip \<Rightarrow> Ok (ip @ ''%'' @ scope))"
      unfolding ipv6_host_def Let_def Some ls by simp
    with assms obtain ip where "scope \<noteq> []" "CHR ''%'' \<notin> set scope" "host_parse_ipv6 h literal = Some ip"
      "out = ip @ ''%'' @ scope"
      by (auto simp: host_error_def split: option.splits if_splits)
    with sep show thesis by (intro that(2))
  qed
qed

lemma scoped_host_text:
  assumes "host_text (literal @ sep @ scope)" "sep \<in> {''%25'', ''%''}" "list_all is_ascii literal"
    and "host_text ip" "list_all is_ascii ip"
  shows "host_text (ip @ ''%'' @ scope)"
proof -
  have pct: "is_ascii (CHR ''%'')" "is_ascii (CHR ''2'')" "is_ascii (CHR ''5'')" "\<not> is_whitespace ''%''"
    "ascii_lower (CHR ''%'') = CHR ''%''" by code_simp+
  then have "list_all is_ascii (literal @ sep)" using assms(2,3) by auto
  from utf8_chars_ascii_prefix[OF this, of scope] assms(1) have ws: "\<not> list_ex is_whitespace (utf8_chars scope)"
    by (auto simp: host_text_def)
  have "list_all is_ascii (ip @ ''%'')" using assms(5) pct by simp
  from utf8_chars_ascii_prefix[OF this, of scope] have
    "utf8_chars (ip @ ''%'' @ scope) = utf8_chars ip @ [''%''] @ utf8_chars scope"
    by (simp add: utf8_chars_ascii[OF assms(5)])
  moreover have "to_ascii_lowercase scope = scope"
    using assms(1) by (simp add: host_text_def to_ascii_lowercase_def)
  ultimately show ?thesis
    using assms(1,4) ws pct by (auto simp: host_text_def to_ascii_lowercase_def)
qed

lemma normalize_idempotent:
  assumes addr: "address_texts h" and ok: "normalize_network_rule_host h raw = Ok out"
  shows "normalize_network_rule_host h out = Ok out"
  using ok
proof (cases rule: normalize_cases)
  case (plain t)
  show ?thesis
  proof (cases "host_parse_ip h t")
    case None
    with plain normalize_plain[of t h] show ?thesis by simp
  next
    case (Some ip)
    with addr plain(2) have ip: "host_parse_ip h ip = Some ip" "set ip \<subseteq> set ''0123456789.''" "ip \<noteq> []" "last ip \<noteq> CHR ''.''"
      unfolding address_texts_def by blast+
    have digits: "set ''0123456789.'' \<subseteq> set ''0123456789abcdef:.''" "CHR '':'' \<notin> set ''0123456789.''" by simp_all
    with ip(2) have "set ip \<subseteq> set ''0123456789abcdef:.''" "CHR '':'' \<notin> set ip" by blast+
    with ip normalize_plain[OF address_host_text(1), of ip h] Some plain(4) show ?thesis by simp
  qed
next
  case (address bracketed t)
  from address(2) show ?thesis
  proof (cases rule: ipv6_host_cases)
    case (1 ip)
    with addr obtain a b where ip: "host_parse_ipv6 h ip = Some ip" "set ip \<subseteq> set ''0123456789abcdef:.''"
      "ip = a @ CHR '':'' # b" "CHR '':'' \<in> set b" unfolding address_texts_def by blast
    from address_host_text[OF ip(2)] ip(3) have txt_ok: "host_text ip" "CHR ''%'' \<notin> set ip" by auto
    from normalize_colons[OF txt_ok(1) ip(3,4)] ip(1) 1 split_once_char_None[OF txt_ok(2)] show ?thesis
      by (simp add: ipv6_host_def)
  next
    case (2 literal sep scope ip)
    with addr obtain a b where ip: "host_parse_ipv6 h ip = Some ip" "set ip \<subseteq> set ''0123456789abcdef:.''"
      "ip = a @ CHR '':'' # b" "CHR '':'' \<in> set b" "list_all is_ascii literal" unfolding address_texts_def by blast
    from address_host_text[OF ip(2)] ip(3) have txt_ok: "host_text ip" "list_all is_ascii ip" "CHR ''%'' \<notin> set ip" by auto
    have "host_text (ip @ ''%'' @ scope)"
      using scoped_host_text[OF _ 2(1) ip(5) txt_ok(1,2)] address(1) 2(2) by blast
    from normalize_colons[OF this, of a "b @ ''%'' @ scope" h] ip(3,4)
    have "normalize_network_rule_host h out = ipv6_host h False (ip @ ''%'' @ scope)" using 2(6) by simp
    also have "\<dots> = Ok out" using split_once_char[OF txt_ok(3), of scope] ip(1) 2 by (simp add: ipv6_host_def)
    finally show ?thesis .
  qed
qed

section \<open>The builder\<close>

definition builder_inv :: "host \<Rightarrow> policy_builder \<Rightarrow> bool" where
  "builder_inv h b \<longleftrightarrow> keyed (pb_rules_by_program b)
     \<and> (\<forall>r\<in>rules_in (pb_rules_by_program b). trim (rule_program r) \<noteq> [])
     \<and> (\<forall>n\<in>set (pb_network_rules b). normalize_network_rule_host h (net_host n) = Ok (net_host n))"

lemma builder_new_inv: "builder_inv h builder_new"
  by (simp add: builder_inv_def builder_new_def)

lemma fold_add_rule:
  "pb_rules_by_program (fold add_rule rules b) =
     fold (\<lambda>rule. mm_insert (rule_program rule) rule) rules (pb_rules_by_program b)"
  "pb_network_rules (fold add_rule rules b) = pb_network_rules b"
  "pb_host_executables (fold add_rule rules b) = pb_host_executables b"
  "pb_pending (fold add_rule rules b) = pb_pending b"
  by (induction rules arbitrary: b) (simp_all add: add_rule_def)

lemma parse_pattern_cases:
  assumes "parse_pattern items = Ok tokens"
  obtains first rest where "tokens = first # rest" "\<forall>a\<in>set (alternatives first). trim a \<noteq> []"
proof -
  from assms obtain xs where xs: "(case xs of [] \<Rightarrow> Err (InvalidPattern ''pattern cannot be empty'')
       | first # _ \<Rightarrow> and_then (validate_program first) (\<lambda>_. Ok xs)) = Ok tokens"
    unfolding parse_pattern_def and_then_eq_Ok by blast
  then obtain first rest where t: "tokens = first # rest" "validate_program first = Ok ()"
    by (cases xs) auto
  then have "\<forall>a\<in>set (alternatives first). trim a \<noteq> []"
    by (auto simp: validate_program_def list_ex_iff split: if_splits)
  with t(1) show thesis by (rule that)
qed

text \<open>What a successful declaration of a rule does to the builder.\<close>

lemma call_prefix_rule_cases:
  assumes "call_prefix_rule h pattern d ms nms j loc b = Ok b'"
  obtains rules matches not_matches where "\<forall>r\<in>set rules. trim (rule_program r) \<noteq> []"
    "optional_examples h ms = Ok matches" "optional_examples h nms = Ok not_matches"
    "pb_rules_by_program b' = fold (\<lambda>rule. mm_insert (rule_program rule) rule) rules (pb_rules_by_program b)"
    "pb_network_rules b' = pb_network_rules b" "pb_host_executables b' = pb_host_executables b"
    "pb_pending b' = pb_pending b @ (if matches \<noteq> [] \<or> not_matches \<noteq> [] then
       [\<lparr>pe_rules = rules, pe_matches = matches, pe_not_matches = not_matches, pe_location = loc\<rparr>] else [])"
proof -
  from assms obtain dec just tokens matches not_matches where
    tokens: "parse_pattern pattern = Ok tokens" and
    ex: "optional_examples h ms = Ok matches" "optional_examples h nms = Ok not_matches" and
    b': "(let has_examples = (matches \<noteq> [] \<or> not_matches \<noteq> []); location = (if has_examples then loc else None)
       in case tokens of
            [] \<Rightarrow> Err (InvalidPattern ''pattern cannot be empty'')
          | first_token # rest \<Rightarrow>
              let rules = map (\<lambda>head. \<lparr>rule_pattern = \<lparr>pat_first = head, pat_rest = rest\<rparr>, rule_decision = dec,
                                       rule_justification = just\<rparr>) (alternatives first_token);
                  b' = (if has_examples then add_pending_example_validation rules matches not_matches location b else b)
              in Ok (fold add_rule rules b')) = Ok b'"
    unfolding call_prefix_rule_def and_then_eq_Ok by blast
  obtain first rest where t: "tokens = first # rest" "\<forall>a\<in>set (alternatives first). trim a \<noteq> []"
    by (rule parse_pattern_cases[OF tokens])
  define rules where "rules = map (\<lambda>head. \<lparr>rule_pattern = \<lparr>pat_first = head, pat_rest = rest\<rparr>, rule_decision = dec,
      rule_justification = just\<rparr>) (alternatives first)"
  have "\<forall>r\<in>set rules. trim (rule_program r) \<noteq> []" using t(2) by (simp add: rules_def rule_program_def)
  moreover have "b' = fold add_rule rules (if matches \<noteq> [] \<or> not_matches \<noteq> []
      then add_pending_example_validation rules matches not_matches loc b else b)"
    using b' unfolding t(1) rules_def Let_def by (auto split: if_splits)
  ultimately show thesis
    using ex by (intro that[of rules matches not_matches])
      (auto simp: fold_add_rule add_pending_example_validation_def)
qed

lemma run_call_inv:
  assumes addr: "address_texts h" and inv: "builder_inv h b" and run: "run_call h c b = Ok b'"
  shows "builder_inv h b'"
proof (cases c)
  case (Prefix_Rule pattern d ms nms j loc)
  with run have "call_prefix_rule h pattern d ms nms j loc b = Ok b'" by simp
  then show ?thesis
    by (rule call_prefix_rule_cases) (use inv in \<open>auto simp: builder_inv_def rules_in_fold intro: keyed_fold\<close>)
next
  case (Network_Rule host protocol d j)
  with run obtain out p' d' j' where "normalize_network_rule_host h host = Ok out"
    "b' = add_network_rule \<lparr>net_host = out, net_protocol = p', net_decision = d', net_justification = j'\<rparr> b"
    by (auto simp: call_network_rule_def)
  with normalize_idempotent[OF addr] inv show ?thesis by (auto simp: builder_inv_def add_network_rule_def)
next
  case (Host_Executable name paths)
  with run obtain parsed where "b' = add_host_executable (executable_lookup_key (host_windows h) name) parsed b"
    by (auto simp: call_host_executable_def)
  with inv show ?thesis by (simp add: builder_inv_def add_host_executable_def)
qed

lemma run_calls_inv:
  "address_texts h \<Longrightarrow> builder_inv h b \<Longrightarrow> run_calls h cs b = Ok b' \<Longrightarrow> builder_inv h b'"
  by (induction cs arbitrary: b) (auto dest: run_call_inv)

text \<open>Rules and pending examples only grow while the calls of a file run.\<close>

definition grows :: "policy_builder \<Rightarrow> policy_builder \<Rightarrow> bool" where
  "grows b b' \<longleftrightarrow> rules_in (pb_rules_by_program b) \<subseteq> rules_in (pb_rules_by_program b')
     \<and> set (pb_pending b) \<subseteq> set (pb_pending b')"

lemma run_call_grows: "run_call h c b = Ok b' \<Longrightarrow> grows b b'"
proof (cases c)
  case (Prefix_Rule pattern d ms nms j loc)
  assume "run_call h c b = Ok b'"
  with Prefix_Rule have "call_prefix_rule h pattern d ms nms j loc b = Ok b'" by simp
  then show ?thesis by (rule call_prefix_rule_cases) (simp add: grows_def rules_in_fold)
qed (auto simp: grows_def call_network_rule_def add_network_rule_def call_host_executable_def add_host_executable_def)

lemma run_calls_grows: "run_calls h cs b = Ok b' \<Longrightarrow> grows b b'"
proof (induction cs arbitrary: b)
  case (Cons c cs)
  then obtain m where "run_call h c b = Ok m" "run_calls h cs m = Ok b'" by auto
  with Cons.IH[of m] run_call_grows[of h c b m] show ?case by (auto simp: grows_def)
qed (simp add: grows_def)

text \<open>Every declared example is pending, together with rules that the builder holds.\<close>

lemma collect_results_member:
  "collect_results (map f xs) = Ok ys \<Longrightarrow> x \<in> set xs \<Longrightarrow> \<exists>y\<in>set ys. f x = Ok y"
  by (induction xs arbitrary: ys) auto

lemma run_calls_pending:
  assumes "run_calls h cs b = Ok b'" "Prefix_Rule pattern d ms nms j loc \<in> set cs"
  shows "\<exists>matches not_matches. optional_examples h ms = Ok matches \<and> optional_examples h nms = Ok not_matches
    \<and> (matches \<noteq> [] \<or> not_matches \<noteq> [] \<longrightarrow> (\<exists>v\<in>set (pb_pending b'). pe_matches v = matches
        \<and> pe_not_matches v = not_matches \<and> set (pe_rules v) \<subseteq> rules_in (pb_rules_by_program b')))"
  using assms
proof (induction cs arbitrary: b)
  case (Cons c cs)
  then obtain m where run: "run_call h c b = Ok m" and rest: "run_calls h cs m = Ok b'" by auto
  show ?case
  proof (cases "c = Prefix_Rule pattern d ms nms j loc")
    case True
    with run have "call_prefix_rule h pattern d ms nms j loc b = Ok m" by simp
    then show ?thesis
    proof (rule call_prefix_rule_cases)
      fix rules matches not_matches
      assume ex: "optional_examples h ms = Ok matches" "optional_examples h nms = Ok not_matches"
        and m: "pb_rules_by_program m = fold (\<lambda>rule. mm_insert (rule_program rule) rule) rules (pb_rules_by_program b)"
          "pb_pending m = pb_pending b @ (if matches \<noteq> [] \<or> not_matches \<noteq> [] then
             [\<lparr>pe_rules = rules, pe_matches = matches, pe_not_matches = not_matches, pe_location = loc\<rparr>] else [])"
      let ?v = "\<lparr>pe_rules = rules, pe_matches = matches, pe_not_matches = not_matches, pe_location = loc\<rparr>"
      have rules: "set rules \<subseteq> rules_in (pb_rules_by_program b')"
        using run_calls_grows[OF rest] m(1) by (simp add: grows_def rules_in_fold)
      have "?v \<in> set (pb_pending b')" if "matches \<noteq> [] \<or> not_matches \<noteq> []"
      proof -
        have "?v \<in> set (pb_pending m)" using that m(2) by simp
        then show ?thesis using run_calls_grows[OF rest] unfolding grows_def by blast
      qed
      with ex rules show ?thesis by (intro exI[of _ matches] exI[of _ not_matches] conjI impI bexI[of _ ?v]) simp_all
    qed
  next
    case False
    with Cons rest show ?thesis by auto
  qed
qed simp

lemma validate_pending_ok:
  assumes "iterates h" "validate_pending_examples h b = (b', Ok u)"
  shows "b' = b\<lparr>pb_pending := []\<rparr>" "\<forall>v\<in>set (pb_pending b). examples_hold h (pb_host_executables b) v"
  using assms validate_examples_ok[OF assms(1)] by (auto simp: validate_pending_examples_def)

lemma policy_parse_cases:
  assumes "policy_parse h starlark identifier contents b = Ok b'" "iterates h"
  obtains calls b1 where "starlark identifier contents = (calls, None)" "run_calls h calls b = Ok b1"
    "b' = b1\<lparr>pb_pending := []\<rparr>" "\<forall>v\<in>set (pb_pending b1). examples_hold h (pb_host_executables b') v"
proof -
  obtain calls failure where sl: "starlark identifier contents = (calls, failure)" by fastforce
  with assms obtain b1 where b1: "run_calls h calls b = Ok b1" "failure = None"
    "validate_pending_examples h b1 = (b', Ok ())"
    by (auto simp: policy_parse_def split: option.splits prod.splits)
  from validate_pending_ok[OF assms(2) b1(3)] sl b1 show thesis by (intro that) simp_all
qed

lemma parse_files_inv:
  "iterates h \<Longrightarrow> address_texts h \<Longrightarrow> builder_inv h b \<Longrightarrow> parse_files h starlark files b = Ok b' \<Longrightarrow>
   builder_inv h b'"
proof (induction files arbitrary: b)
  case (Cons f files)
  obtain ident contents where f: "f = (ident, contents)" by (cases f)
  with Cons.prems obtain m where m: "policy_parse h starlark ident contents b = Ok m"
    "parse_files h starlark files m = Ok b'" by auto
  from m(1) Cons.prems(1) obtain calls b1 where "run_calls h calls b = Ok b1" "m = b1\<lparr>pb_pending := []\<rparr>"
    by (rule policy_parse_cases)
  with run_calls_inv[OF Cons.prems(2,3)] have "builder_inv h m" by (simp add: builder_inv_def)
  with Cons.IH[OF Cons.prems(1,2) _ m(2)] show ?case by blast
qed simp

section \<open>Properties\<close>

text \<open>
  C37: a loaded policy is well formed, whatever the policy files contain. Its index agrees with its
  rules, no rule is for a blank program, and every network host is in canonical form.
\<close>

theorem loaded_policy_wellformed:
  assumes "iterates h" "address_texts h" "load_policies h starlark files = Ok p"
  shows "policy_inv h p \<and> (\<forall>r\<in>rules_in (pol_rules_by_program p). trim (rule_program r) \<noteq> [])
    \<and> (\<forall>n\<in>set (pol_network_rules p). normalize_network_rule_host h (net_host n) = Ok (net_host n))"
proof -
  from assms(3) obtain b where b: "parse_files h starlark files builder_new = Ok b" "p = builder_build h b"
    by (auto simp: load_policies_def)
  from parse_files_inv[OF assms(1,2) builder_new_inv b(1)] have "builder_inv h b" .
  with from_shared_parts_inv[OF assms(1)] b(2) show ?thesis
    by (simp add: builder_inv_def builder_build_def) (simp add: from_shared_parts_def)
qed

definition rm_file :: starlark_eval where
  "rm_file identifier contents =
     ([Prefix_Rule [Star_Str ''rm''] (Some ''forbidden'') (Some [Star_List [Star_Str ''rm'', Star_Str ''x'']]) None None None],
      None)"

lemma example_host_addresses: "address_texts example_host"
  by (simp add: address_texts_def example_host_def)

definition rm_rule :: prefix_rule where
  "rm_rule = \<lparr>rule_pattern = \<lparr>pat_first = ''rm'', pat_rest = []\<rparr>, rule_decision = Forbidden, rule_justification = None\<rparr>"

lemma rm_file_parsed:
  "\<exists>b. policy_parse example_host rm_file ''f'' ''t'' builder_new = Ok b \<and> rm_rule \<in> rules_in (pb_rules_by_program b)"
proof -
  have trim: "trim ''rm'' \<noteq> []" by code_simp
  let ?b = "add_rule rm_rule (add_pending_example_validation [rm_rule] [[''rm'', ''x'']] [] None builder_new)"
  have run: "run_calls example_host (fst (rm_file ''f'' ''t'')) builder_new = Ok ?b"
    using trim by (simp add: rm_file_def call_prefix_rule_def parse_justification_def parse_pattern_def
        parse_pattern_token_def validate_program_def optional_examples_def parse_examples_def parse_example_def
        parse_list_example_def unpack_str_def rm_rule_def)
  have "rule_applies example_host (example_policy example_host Map.empty [rm_rule]) resolving [''rm'', ''x''] rm_rule"
    by (simp add: rule_applies_def example_policy_rules rule_program_def rm_rule_def matches_args_def)
  then have "examples_hold example_host Map.empty
      \<lparr>pe_rules = [rm_rule], pe_matches = [[''rm'', ''x'']], pe_not_matches = [], pe_location = None\<rparr>"
    by (simp add: examples_hold_def)
  then have "validate_pending_examples example_host ?b = (?b\<lparr>pb_pending := []\<rparr>, Ok ())"
    using validate_examples_ok[OF example_host_iterates, of Map.empty _ "()"]
    by (simp add: validate_pending_examples_def add_rule_def add_pending_example_validation_def builder_new_def
        del: validate_examples.simps)
  with run have "policy_parse example_host rm_file ''f'' ''t'' builder_new = Ok (?b\<lparr>pb_pending := []\<rparr>)"
    by (simp add: policy_parse_def rm_file_def)
  then show ?thesis
    by (intro exI[of _ "?b\<lparr>pb_pending := []\<rparr>"]) (simp add: add_rule_def rules_in_insert)
qed

lemma rm_file_loaded: "\<exists>p. load_policies example_host rm_file [(''f'', ''t'')] = Ok p"
  using rm_file_parsed by (auto simp: load_policies_def)

theorem loaded_policy_wellformed_witness:
  "\<exists>p. load_policies example_host rm_file [(''f'', ''t'')] = Ok p \<and> policy_inv example_host p"
  using rm_file_loaded loaded_policy_wellformed[OF example_host_iterates example_host_addresses] by blast



text \<open>
  Checking examples never panics, so a policy file is refused only with an ordinary error.
\<close>

lemma example_check_no_panic:
  "validate_not_match_examples h p examples \<noteq> Err Policy_Panicked"
  by (rule validate_not_match_examples_no_panic)

text \<open>
  C40: canonical hosts are stable: normalizing a network host that was accepted once accepts it again
  and changes nothing, for names, IPv4 and IPv6 addresses and scoped IPv6 addresses.
\<close>

theorem network_host_canonical:
  assumes "address_texts h" "normalize_network_rule_host h raw = Ok out"
  shows "normalize_network_rule_host h out = Ok out"
  using assms by (rule normalize_idempotent)

theorem network_host_canonical_witness:
  "normalize_network_rule_host example_host ''Example.COM.'' = Ok ''example.com''
   \<and> normalize_network_rule_host example_host ''example.com'' = Ok ''example.com''"
proof -
  have raw: "trim ''Example.COM.'' = ''Example.COM.''" "\<not> starts_with ''['' ''Example.COM.''"
    "\<not> contains_str ''://'' ''Example.COM.''" "\<not> contains_any ''/?#'' ''Example.COM.''"
    "strip_port ''Example.COM.'' ''Example.COM.'' = Ok ''Example.COM.''" "\<not> contains_str '':'' ''Example.COM.''"
    "to_ascii_lowercase (trim_end_matches (CHR ''.'') ''Example.COM.'') = ''example.com''" by code_simp+
  have "\<not> contains_str ''*'' ''example.com''" "\<not> list_ex is_whitespace (utf8_chars ''example.com'')"
    "\<not> contains_any (''[]@'' @ [CHR 0x5C]) ''example.com''" "\<not> contains_str '':'' ''example.com''" by code_simp+
  then have "checked_host example_host False ''example.com'' = Ok ''example.com''"
    by (simp add: checked_host_def example_host_def del: contains_char)
  with raw have 1: "normalize_network_rule_host example_host ''Example.COM.'' = Ok ''example.com''"
    by (simp add: normalize_network_rule_host_def Let_def del: contains_char)
  with network_host_canonical[OF example_host_addresses 1] show ?thesis by simp
qed

end
