(* ===== verification/Shell_Parse.thy ===== *)
theory Shell_Parse
  imports Rust_Base
begin

text \<open>
  How \<^verbatim>\<open>shell-command\<close> looks inside shell wrappers: \<^verbatim>\<open>shell_detect.rs\<close>, \<^verbatim>\<open>bash.rs\<close> and the argument
  envelope of PowerShell (\<^verbatim>\<open>powershell.rs\<close>, \<^verbatim>\<open>command_safety/powershell_parser.rs\<close>).

  The bash grammar is a library: its parse tree is data of type \<open>node\<close>, with the kind, the byte range
  and the children that tree-sitter reports. Which tree a script has, and what the PowerShell host
  answers, are functions of the record \<open>shell_env\<close>. Ranges of a tree lie inside the source, so the
  slices of the code are in range.
\<close>

section \<open>Shell types\<close>

datatype shell_type = Zsh | Bash | PowerShell | Sh | Cmd

fun shell_type_from_name :: "string \<Rightarrow> shell_type option" where
  "shell_type_from_name name =
     (if name = ''zsh'' then Some Zsh
      else if name = ''bash'' then Some Bash
      else if name = ''sh'' then Some Sh
      else if name = ''cmd'' then Some Cmd
      else if name = ''pwsh'' \<or> name = ''powershell'' then Some PowerShell
      else None)"

definition is_separator :: "char \<Rightarrow> bool" where
  "is_separator c \<longleftrightarrow> c = CHR ''/'' \<or> c = CHR 0x5C"

text \<open>\<^verbatim>\<open>rsplit\<close> on the separators, first piece.\<close>

definition last_component :: "string \<Rightarrow> string" where
  "last_component path = last (split_on is_separator path)"

definition shell_basename :: "string \<Rightarrow> string" where
  "shell_basename path =
     (let name = to_ascii_lowercase (last_component path) in
      case strip_suffix ''.exe'' name of Some stripped \<Rightarrow> stripped | None \<Rightarrow> name)"

definition detect_shell_type :: "string \<Rightarrow> shell_type option" where
  "detect_shell_type path = shell_type_from_name (shell_basename path)"

section \<open>Bash parse trees\<close>

datatype node =
  Node (node_kind: string) (is_named: bool) (start_byte: nat) (end_byte: nat) (children: "node list")

record bash_tree =
  root_node :: node
  has_error :: bool

definition named_children :: "node \<Rightarrow> node list" where
  "named_children n = filter is_named (children n)"

definition slice :: "nat \<Rightarrow> nat \<Rightarrow> string \<Rightarrow> string" where
  "slice a b s = take (b - a) (drop a s)"

definition utf8_text :: "string \<Rightarrow> node \<Rightarrow> string" where
  "utf8_text src n = slice (start_byte n) (end_byte n) src"

definition ALLOWED_KINDS :: "string list" where
  "ALLOWED_KINDS =
     [''program'', ''list'', ''pipeline'', ''command'', ''command_name'', ''word'', ''string'',
      ''string_content'', ''raw_string'', ''number'', ''concatenation'']"

definition ALLOWED_PUNCT_TOKENS :: "string list" where
  "ALLOWED_PUNCT_TOKENS = [''&&'', ''||'', '';'', ''|'', [DQ], [CHR 0x27]]"

definition node_allowed :: "node \<Rightarrow> bool" where
  "node_allowed n \<longleftrightarrow>
     (let kind = node_kind n in
      if is_named n then kind \<in> set ALLOWED_KINDS
      else \<not> (contains_any ''&;|'' kind \<and> kind \<notin> set ALLOWED_PUNCT_TOKENS)
           \<and> (kind \<in> set ALLOWED_PUNCT_TOKENS \<or> trim kind = []))"

text \<open>
  The stack of the walk is a list with its top first; children are pushed in order, so the last
  child is visited next.
\<close>

function word_only_walk :: "node list \<Rightarrow> node list \<Rightarrow> node list option" where
  "word_only_walk [] command_nodes = Some command_nodes"
| "word_only_walk (n # stack) command_nodes =
     (if \<not> node_allowed n then None
      else word_only_walk (rev (children n) @ stack)
             (if is_named n \<and> node_kind n = ''command'' then command_nodes @ [n] else command_nodes))"
  by pat_completeness auto

lemma size_list_rev [simp]: "size_list f (rev xs) = size_list f xs"
  by (induction xs) (auto simp: size_list_append)

lemma size_children: "size_list size (children n) < size n"
  by (cases n) auto

termination word_only_walk
  by (relation "measure (\<lambda>(stack, _). size_list size stack)")
     (auto simp: size_list_append size_children less_SucI)

section \<open>Words\<close>

definition is_literal_word_or_number :: "node \<Rightarrow> bool" where
  "is_literal_word_or_number n \<longleftrightarrow> node_kind n \<in> {''word'', ''number''} \<and> named_children n = []"

definition parse_literal_word :: "string \<Rightarrow> node \<Rightarrow> string option" where
  "parse_literal_word src n =
     (if \<not> is_literal_word_or_number n then None
      else let txt0 = utf8_text src n in
        if starts_with ''='' txt0 \<or> contains_any (CHR 0x5C # ''*?[]{}~'') txt0 then None
        else Some txt0)"

definition strip_both :: "char \<Rightarrow> string \<Rightarrow> string option" where
  "strip_both c s = Option.bind (strip_prefix [c] s) (strip_suffix [c])"

definition parse_double_quoted_string :: "string \<Rightarrow> node \<Rightarrow> string option" where
  "parse_double_quoted_string src n =
     (if node_kind n \<noteq> ''string'' then None
      else if list_ex (\<lambda>p. node_kind p \<noteq> ''string_content'') (named_children n) then None
      else case strip_both DQ (utf8_text src n) of
        None \<Rightarrow> None
      | Some stripped \<Rightarrow> if contains_any [CHR 0x5C] stripped then None else Some stripped)"

definition parse_raw_string :: "string \<Rightarrow> node \<Rightarrow> string option" where
  "parse_raw_string src n =
     (if node_kind n \<noteq> ''raw_string'' then None else strip_both (CHR 0x27) (utf8_text src n))"

text \<open>The three word forms that occur alone and inside a concatenation.\<close>

definition parse_word_part :: "string \<Rightarrow> node \<Rightarrow> string option" where
  "parse_word_part src n =
     (if node_kind n \<in> {''word'', ''number''} then parse_literal_word src n
      else if node_kind n = ''string'' then parse_double_quoted_string src n
      else if node_kind n = ''raw_string'' then parse_raw_string src n
      else None)"

definition parse_concatenation :: "string \<Rightarrow> node \<Rightarrow> string option" where
  "parse_concatenation src n =
     (case those (map (parse_word_part src) (named_children n)) of
        None \<Rightarrow> None
      | Some parts \<Rightarrow> if concat parts = [] then None else Some (concat parts))"

definition parse_command_child :: "string \<Rightarrow> node \<Rightarrow> string option" where
  "parse_command_child src child =
     (if node_kind child = ''command_name'' then
        (case named_children child of
           [] \<Rightarrow> None
         | word_node # _ \<Rightarrow>
             if node_kind word_node \<noteq> ''word'' then None else parse_literal_word src word_node)
      else if node_kind child = ''concatenation'' then parse_concatenation src child
      else parse_word_part src child)"

definition parse_plain_command_from_node :: "string \<Rightarrow> node \<Rightarrow> string list option" where
  "parse_plain_command_from_node src cmd =
     (if node_kind cmd \<noteq> ''command'' then None
      else those (map (parse_command_child src) (named_children cmd)))"

section \<open>Scripts of plain commands\<close>

fun adjacent_operators :: "string \<Rightarrow> node list \<Rightarrow> string list" where
  "adjacent_operators src (a # b # ns) =
     (let gap = trim (slice (end_byte a) (start_byte b) src) in
      (if gap = [] then '';'' else gap) # adjacent_operators src (b # ns))"
| "adjacent_operators src _ = []"

definition try_parse_word_only_commands_with_operators ::
    "bash_tree \<Rightarrow> string \<Rightarrow> (string list list \<times> string list) option" where
  "try_parse_word_only_commands_with_operators tree src =
     (if has_error tree then None
      else case word_only_walk [root_node tree] [] of
        None \<Rightarrow> None
      | Some found \<Rightarrow>
          (let command_nodes = sort_key start_byte found in
           case those (map (parse_plain_command_from_node src) command_nodes) of
             None \<Rightarrow> None
           | Some commands \<Rightarrow> Some (commands, adjacent_operators src command_nodes)))"

definition try_parse_word_only_commands_sequence :: "bash_tree \<Rightarrow> string \<Rightarrow> string list list option" where
  "try_parse_word_only_commands_sequence tree src =
     map_option fst (try_parse_word_only_commands_with_operators tree src)"

section \<open>Walks over named nodes\<close>

text \<open>
  \<^verbatim>\<open>possible_command_argvs\<close>, \<^verbatim>\<open>find_single_command_node\<close>, \<^verbatim>\<open>has_named_descendant_kind\<close> and
  \<^verbatim>\<open>has_only_clearly_quoted_heredoc_delimiters\<close> share one loop: pop a node, look at it, push its
  named children. This is the sequence of the nodes it pops.
\<close>

function popped_nodes :: "node list \<Rightarrow> node list" where
  "popped_nodes [] = []"
| "popped_nodes (n # stack) = n # popped_nodes (rev (named_children n) @ stack)"
  by pat_completeness auto

lemma size_list_filter: "size_list f (filter P xs) \<le> size_list f xs"
  by (induction xs) auto

lemma size_named_children: "size_list size (named_children n) < size n"
  unfolding named_children_def by (rule le_less_trans[OF size_list_filter size_children])

termination popped_nodes
  by (relation "measure (size_list size)") (auto simp: size_list_append size_named_children less_SucI)

definition has_named_descendant_kind :: "node \<Rightarrow> string \<Rightarrow> bool" where
  "has_named_descendant_kind n kind \<longleftrightarrow> list_ex (\<lambda>m. node_kind m = kind) (popped_nodes [n])"

definition find_single_command_node :: "node \<Rightarrow> node option" where
  "find_single_command_node root =
     (case filter (\<lambda>n. node_kind n = ''command'') (popped_nodes [root]) of
        [single] \<Rightarrow> Some single
      | _ \<Rightarrow> None)"

definition quoted_delimiter :: "string \<Rightarrow> bool" where
  "quoted_delimiter start =
     (let txt0 = trim start;
          rest = (case strip_prefix ''<<-'' txt0 of
                    Some r \<Rightarrow> r
                  | None \<Rightarrow> (case strip_prefix ''<<'' txt0 of Some r \<Rightarrow> r | None \<Rightarrow> txt0));
          delimiter = trim rest
      in 2 \<le> length delimiter
         \<and> (starts_with [CHR 0x27] delimiter \<and> ends_with [CHR 0x27] delimiter
            \<or> starts_with [DQ] delimiter \<and> ends_with [DQ] delimiter))"

definition has_only_clearly_quoted_heredoc_delimiters :: "node \<Rightarrow> string \<Rightarrow> bool" where
  "has_only_clearly_quoted_heredoc_delimiters root src \<longleftrightarrow>
     (let starts = filter (\<lambda>n. node_kind n = ''heredoc_start'') (popped_nodes [root]) in
      starts \<noteq> [] \<and> list_all (\<lambda>n. quoted_delimiter (utf8_text src n)) starts)"

definition is_allowed_heredoc_attachment_kind :: "string \<Rightarrow> bool" where
  "is_allowed_heredoc_attachment_kind kind \<longleftrightarrow>
     kind \<in> {''heredoc_body'', ''simple_heredoc_body'', ''heredoc_redirect'', ''herestring_redirect'',
             ''redirected_statement''}"

text \<open>A child of a heredoc command gives a word, nothing, or makes the command unsupported.\<close>

definition heredoc_child_words :: "string \<Rightarrow> node \<Rightarrow> string list option" where
  "heredoc_child_words src child =
     (if node_kind child = ''command_name'' then
        (case named_children child of
           [] \<Rightarrow> None
         | word_node # _ \<Rightarrow>
             if \<not> is_literal_word_or_number word_node then None
             else map_option (\<lambda>w. [w]) (parse_literal_word src word_node))
      else if node_kind child \<in> {''word'', ''number''} then
        (if \<not> is_literal_word_or_number child then None
         else map_option (\<lambda>w. [w]) (parse_literal_word src child))
      else if node_kind child = ''comment'' then Some []
      else if is_allowed_heredoc_attachment_kind (node_kind child) then Some []
      else None)"

definition parse_heredoc_command_words :: "string \<Rightarrow> node \<Rightarrow> string list option" where
  "parse_heredoc_command_words src cmd =
     (if node_kind cmd \<noteq> ''command'' then None
      else case those (map (heredoc_child_words src) (named_children cmd)) of
        None \<Rightarrow> None
      | Some parts \<Rightarrow> if concat parts = [] then None else Some (concat parts))"

section \<open>Wrappers\<close>

datatype powershell_invocation =
    InlineCommand (inline_script: string) (inline_no_profile: bool)
  | Opaque
  | Bare
  | EmptyInvocation
  | InvalidInvocation

record powershell_parse_analysis =
  analysis_commands :: "string list list"

datatype powershell_parse_outcome =
    Analysis powershell_parse_analysis
  | Unsupported
  | SyntaxError string
  | Failed

text \<open>
  The functions outside the repository, and the answers of the PowerShell parser process: the file
  name of a path, the bash grammar, shell word splitting, the outcome of parsing a script with an
  executable's host, and the trusted host an executable resolves to.
\<close>

record shell_env =
  env_file_name :: "string \<Rightarrow> string option"
  env_bash_tree :: "string \<Rightarrow> bash_tree option"
  env_shlex :: "string \<Rightarrow> string list option"
  env_powershell :: "string \<Rightarrow> string \<Rightarrow> powershell_parse_outcome"
  env_trusted_host :: "string \<Rightarrow> string option"
  env_url_capture :: "string \<Rightarrow> string option"
  env_url_scheme :: "string \<Rightarrow> string option"

fun extract_bash_command :: "string list \<Rightarrow> (string \<times> string) option" where
  "extract_bash_command [shell, flag, script] =
     (if flag \<notin> {''-lc'', ''-c''}
         \<or> detect_shell_type shell \<notin> {Some Zsh, Some Bash, Some Sh} then None
      else Some (shell, script))"
| "extract_bash_command _ = None"

definition parse_shell_script_into_commands :: "shell_env \<Rightarrow> string \<Rightarrow> string list list option" where
  "parse_shell_script_into_commands e script =
     Option.bind (env_bash_tree e script) (\<lambda>tree. try_parse_word_only_commands_sequence tree script)"

definition parse_shell_lc_plain_commands :: "shell_env \<Rightarrow> string list \<Rightarrow> string list list option" where
  "parse_shell_lc_plain_commands e command =
     Option.bind (extract_bash_command command) (\<lambda>(_, script). parse_shell_script_into_commands e script)"

definition heredoc_statement :: "node \<Rightarrow> bool" where
  "heredoc_statement root =
     (case filter (\<lambda>n. node_kind n \<noteq> ''comment'') (named_children root) of
        [statement] \<Rightarrow>
          node_kind statement \<in> {''command'', ''redirected_statement''}
          \<and> (node_kind statement = ''redirected_statement'' \<longrightarrow>
               list_all (\<lambda>n. node_kind n \<in> {''command'', ''heredoc_redirect'', ''comment''})
                 (named_children statement))
      | _ \<Rightarrow> False)"

definition parse_shell_lc_single_command_prefix :: "shell_env \<Rightarrow> string list \<Rightarrow> string list option" where
  "parse_shell_lc_single_command_prefix e command =
     Option.bind (extract_bash_command command) (\<lambda>(_, script).
     Option.bind (env_bash_tree e script) (\<lambda>tree.
       let root = root_node tree in
       if has_error tree then None
       else if \<not> heredoc_statement root then None
       else if \<not> has_named_descendant_kind root ''heredoc_redirect'' then None
       else if \<not> has_only_clearly_quoted_heredoc_delimiters root script then None
       else if has_named_descendant_kind root ''file_redirect''
               \<or> has_named_descendant_kind root ''herestring_redirect'' then None
       else Option.bind (find_single_command_node root) (parse_heredoc_command_words script)))"

text \<open>Literal command prefixes of an opaque script; leading assignments are dropped.\<close>

definition is_assignment_word :: "string \<Rightarrow> bool" where
  "is_assignment_word arg =
     (case split_once ''='' arg of
        None \<Rightarrow> False
      | Some (name, _) \<Rightarrow>
          name \<noteq> [] \<and> list_all (\<lambda>ch. is_ascii_alphabetic ch \<or> is_ascii_digit ch \<or> ch = CHR ''_'') name)"

definition possible_argv :: "shell_env \<Rightarrow> string \<Rightarrow> node \<Rightarrow> string list list" where
  "possible_argv e script n =
     (if node_kind n \<noteq> ''command'' then []
      else case parse_plain_command_from_node script n of
        Some argv \<Rightarrow> [argv]
      | None \<Rightarrow> (case env_shlex e (utf8_text script n) of
                  None \<Rightarrow> []
                | Some argv \<Rightarrow> [dropWhile is_assignment_word argv]))"

definition possible_command_argvs :: "shell_env \<Rightarrow> string \<Rightarrow> string list list" where
  "possible_command_argvs e script =
     (case env_bash_tree e script of
        None \<Rightarrow> []
      | Some tree \<Rightarrow> concat (map (possible_argv e script) (popped_nodes [root_node tree])))"

section \<open>PowerShell\<close>

text \<open>
  The loop of \<^verbatim>\<open>parse_powershell_invocation\<close> over the arguments from the current index; an argument
  list that ends before a command is \<^verbatim>\<open>Empty\<close>.
\<close>

fun parse_powershell_args :: "bool \<Rightarrow> string list \<Rightarrow> powershell_invocation" where
  "parse_powershell_args no_profile [] = EmptyInvocation"
| "parse_powershell_args no_profile (arg # rest) =
     (let lower = to_ascii_lowercase arg in
      if lower \<in> {''-command'', ''/command'', ''-c''} then
        (case rest of
           [script] \<Rightarrow> if script = ''-'' then Opaque else InlineCommand script no_profile
         | _ \<Rightarrow> InvalidInvocation)
      else if starts_with ''-command:'' lower \<or> starts_with ''/command:'' lower then
        (if rest \<noteq> [] then InvalidInvocation
         else case split_once '':'' arg of
           None \<Rightarrow> InvalidInvocation
         | Some (_, script) \<Rightarrow> if script = ''-'' then Opaque else InlineCommand script no_profile)
      else if lower = ''-noprofile'' then parse_powershell_args True rest
      else if lower \<in> {''-nologo'', ''-noninteractive'', ''-mta'', ''-sta''} then
        parse_powershell_args no_profile rest
      else if lower \<in> {''-encodedcommand'', ''-ec'', ''-file'', ''/file'', ''-windowstyle'',
                       ''-executionpolicy'', ''-workingdirectory''} then Opaque
      else if starts_with ''-'' lower then Opaque
      else Bare)"

definition parse_powershell_invocation :: "string list \<Rightarrow> powershell_invocation" where
  "parse_powershell_invocation args = parse_powershell_args False args"

record extracted_powershell_command =
  ext_shell :: string
  ext_script :: string
  ext_script_index :: nat
  ext_script_offset :: nat
  ext_no_profile :: bool

fun extract_powershell_command_details :: "string list \<Rightarrow> extracted_powershell_command option" where
  "extract_powershell_command_details (shell # a # args) =
     (if detect_shell_type shell \<noteq> Some PowerShell then None
      else case parse_powershell_invocation (a # args) of
        InlineCommand script no_profile \<Rightarrow>
          (let script_index = length (shell # a # args) - 1 in
           Some \<lparr>ext_shell = shell, ext_script = script, ext_script_index = script_index,
             ext_script_offset = length ((shell # a # args) ! script_index) - length script,
             ext_no_profile = no_profile\<rparr>)
      | _ \<Rightarrow> None)"
| "extract_powershell_command_details _ = None"

definition extract_powershell_command :: "string list \<Rightarrow> (string \<times> string) option" where
  "extract_powershell_command command =
     map_option (\<lambda>x. (ext_shell x, ext_script x)) (extract_powershell_command_details command)"

definition extract_noprofile_powershell_command :: "string list \<Rightarrow> (string \<times> string) option" where
  "extract_noprofile_powershell_command command =
     Option.bind (extract_powershell_command_details command)
       (\<lambda>x. if ext_no_profile x then Some (ext_shell x, ext_script x) else None)"

definition is_trusted_powershell_host :: "shell_env \<Rightarrow> string \<Rightarrow> bool" where
  "is_trusted_powershell_host e executable \<longleftrightarrow> env_trusted_host e executable \<noteq> None"

definition extract_trusted_noprofile_powershell_command ::
    "shell_env \<Rightarrow> string list \<Rightarrow> (string \<times> string) option" where
  "extract_trusted_noprofile_powershell_command e command =
     Option.bind (extract_noprofile_powershell_command command)
       (\<lambda>(shell, script). if is_trusted_powershell_host e shell then Some (shell, script) else None)"

definition try_parse_powershell_ast_commands :: "shell_env \<Rightarrow> string \<Rightarrow> string \<Rightarrow> string list list option" where
  "try_parse_powershell_ast_commands e executable script =
     (case env_powershell e executable script of
        Analysis analysis \<Rightarrow> Some (analysis_commands analysis)
      | Unsupported \<Rightarrow> None
      | Failed \<Rightarrow> None
      | SyntaxError _ \<Rightarrow> None)"

definition parse_powershell_command_into_plain_commands :: "shell_env \<Rightarrow> string list \<Rightarrow> string list list option" where
  "parse_powershell_command_into_plain_commands e command =
     Option.bind (extract_powershell_command_details command)
       (\<lambda>x. try_parse_powershell_ast_commands e (ext_shell x) (ext_script x))"

definition parse_noprofile_powershell_command_into_plain_commands ::
    "shell_env \<Rightarrow> string list \<Rightarrow> string list list option" where
  "parse_noprofile_powershell_command_into_plain_commands e command =
     Option.bind (extract_noprofile_powershell_command command)
       (\<lambda>(shell, script). if \<not> is_trusted_powershell_host e shell then None
                          else try_parse_powershell_ast_commands e shell script)"

definition powershell_command_syntax_error :: "shell_env \<Rightarrow> string list \<Rightarrow> string option" where
  "powershell_command_syntax_error e command =
     (case command of
        [] \<Rightarrow> None
      | executable # args \<Rightarrow>
          (case parse_powershell_invocation args of
             InlineCommand script _ \<Rightarrow>
               (case env_powershell e executable script of
                  SyntaxError diagnostic \<Rightarrow> Some diagnostic
                | _ \<Rightarrow> None)
           | _ \<Rightarrow> None))"

end
