(* ===== verification/Shell_Results.thy ===== *)
theory Shell_Results
  imports Shell_Parse "HOL-Library.Multiset"
begin

text \<open>
  What the walk over a bash parse tree accepts: exactly the trees all of whose nodes are plain words,
  quotes and sequencing operators, with the commands in source order.
\<close>

section \<open>The walk\<close>

fun preorder :: "node \<Rightarrow> node list" where
  "preorder (Node k nm a b cs) = Node k nm a b cs # concat (map preorder cs)"

fun mirrored :: "node \<Rightarrow> node list" where
  "mirrored (Node k nm a b cs) = Node k nm a b cs # concat (map mirrored (rev cs))"

definition is_command_node :: "node \<Rightarrow> bool" where
  "is_command_node n \<longleftrightarrow> is_named n \<and> node_kind n = ''command''"

lemma mirrored_unfold: "mirrored n = n # concat (map mirrored (rev (children n)))"
  by (cases n) simp

lemma mset_concat_map: "mset (concat (map f xs)) = (\<Sum>x\<in>#mset xs. mset (f x))"
  by (induction xs) auto

lemma mset_mirrored: "mset (mirrored n) = mset (preorder n)"
proof (induction n)
  case (Node k nm a b cs)
  then show ?case
    by (auto simp: mset_concat_map intro!: arg_cong[of _ _ sum_mset] image_mset_cong)
qed

lemma word_only_walk_eq:
  "word_only_walk stack acc =
     (if list_all node_allowed (concat (map mirrored stack))
      then Some (acc @ filter is_command_node (concat (map mirrored stack))) else None)"
proof (induction stack acc rule: word_only_walk.induct)
  case (2 n stack acc)
  then show ?case
    by (cases "node_allowed n") (simp_all add: mirrored_unfold[of n] is_command_node_def[of n])
qed simp

lemma filter_key_mset_eq:
  assumes "mset xs = mset ys" "inj_on f (set ys)" "k \<in> set ys"
  shows "filter (\<lambda>x. f k = f x) xs = filter (\<lambda>x. f k = f x) ys"
proof -
  have eq: "filter (\<lambda>x. f k = f x) zs = replicate (count (mset ys) k) k" if "mset zs = mset ys" for zs
  proof -
    have "filter (\<lambda>x. f k = f x) zs = filter (\<lambda>x. k = x) zs"
      using assms(2,3) mset_eq_setD[OF that] by (intro filter_cong) (auto simp: inj_on_def)
    also have "\<dots> = replicate (count (mset zs) k) k"
      by (induction zs) auto
    finally show ?thesis using that by simp
  qed
  show ?thesis using eq[OF assms(1)] eq[of ys] by simp
qed

lemma sort_key_mset_eq:
  assumes "mset xs = mset ys" "inj_on f (set ys)"
  shows "sort_key f xs = sort_key f ys"
  using assms by (intro properties_for_sort_key) (auto intro!: filter_key_mset_eq[symmetric])

definition source_commands :: "bash_tree \<Rightarrow> node list" where
  "source_commands tree = sort_key start_byte (filter is_command_node (preorder (root_node tree)))"

section \<open>Properties\<close>

text \<open>
  C33: a shell script is taken apart only when its whole parse tree is plain. Parsing succeeds exactly
  when the tree has no syntax error, every node in it is an allowed kind or an allowed operator, and
  every command consists of literal words; the result is then the words of all the commands, in the
  order of the source. So no redirection, substitution, expansion or background operator anywhere in
  the script is ever hidden from the rules. (Different command nodes start at different bytes.)
\<close>

theorem plain_commands_exact:
  assumes "inj_on start_byte {n \<in> set (preorder (root_node tree)). is_command_node n}"
  shows "try_parse_word_only_commands_sequence tree src = Some commands \<longleftrightarrow>
           \<not> has_error tree
           \<and> list_all node_allowed (preorder (root_node tree))
           \<and> list_all2 (\<lambda>n words. parse_plain_command_from_node src n = Some words)
                (source_commands tree) commands"
proof -
  let ?m = "mirrored (root_node tree)" and ?p = "preorder (root_node tree)"
  have sets: "set ?m = set ?p" using mset_mirrored by (rule mset_eq_setD)
  have sorted: "sort_key start_byte (filter is_command_node ?m) = source_commands tree"
    unfolding source_commands_def using assms
    by (intro sort_key_mset_eq) (auto simp: mset_filter mset_mirrored)
  have those: "those (map f xs) = Some ys \<longleftrightarrow> list_all2 (\<lambda>x y. f x = Some y) xs ys"
    for f :: "node \<Rightarrow> string list option" and xs ys
    by (induction xs arbitrary: ys) (auto split: option.splits simp: list_all2_Cons1)
  show ?thesis
    using sorted sets those[of "parse_plain_command_from_node src" "source_commands tree" commands]
    by (auto simp: try_parse_word_only_commands_sequence_def list_all_iff Let_def
        try_parse_word_only_commands_with_operators_def word_only_walk_eq split: option.splits if_splits)
qed

text \<open>The script \<^verbatim>\<open>ls -a && pwd\<close> and the tree of the grammar for it.\<close>

definition example_script :: string where
  "example_script = ''ls -a && pwd''"

lemma command_nodes_inj:
  assumes "distinct (map start_byte (filter is_command_node ns))"
  shows "inj_on start_byte {n \<in> set ns. is_command_node n}"
  using assms by (auto simp: distinct_map)

definition example_tree :: bash_tree where
  "example_tree = \<lparr>root_node = Node ''program'' True 0 12 [Node ''list'' True 0 12
     [Node ''command'' True 0 5
        [Node ''command_name'' True 0 2 [Node ''word'' True 0 2 []], Node ''word'' True 3 5 []],
      Node ''&&'' False 6 8 [],
      Node ''command'' True 9 12 [Node ''command_name'' True 9 12 [Node ''word'' True 9 12 []]]]],
     has_error = False\<rparr>"

lemma example_tree_parses:
  "try_parse_word_only_commands_sequence example_tree example_script = Some [[''ls'', ''-a''], [''pwd'']]"
  by code_simp

lemma example_tree_starts:
  "inj_on start_byte {n \<in> set (preorder (root_node example_tree)). is_command_node n}"
  by (rule command_nodes_inj) code_simp

theorem plain_commands_exact_witness:
  "list_all node_allowed (preorder (root_node example_tree))
   \<and> list_all2 (\<lambda>n words. parse_plain_command_from_node example_script n = Some words)
       (source_commands example_tree) [[''ls'', ''-a''], [''pwd'']]"
  using plain_commands_exact[OF example_tree_starts, of example_script "[[''ls'', ''-a''], [''pwd'']]"]
    example_tree_parses by simp

end
