(* ===== verification/Command_Danger.thy ===== *)
theory Command_Danger
  imports Shell_Parse
begin

text \<open>
  \<^verbatim>\<open>command_safety/is_dangerous_command.rs\<close> and \<^verbatim>\<open>windows_dangerous_commands.rs\<close>: which commands must
  never run without approval. URL syntax and the file name of a path come from \<open>shell_env\<close>.
\<close>

section \<open>Executable names and git subcommands\<close>

definition EXECUTABLE_SUFFIXES :: "string list" where
  "EXECUTABLE_SUFFIXES = [''.exe'', ''.cmd'', ''.bat'', ''.com'']"

fun strip_first_suffix :: "string list \<Rightarrow> string \<Rightarrow> string" where
  "strip_first_suffix [] name = name"
| "strip_first_suffix (suf # sufs) name =
     (case strip_suffix suf name of Some stripped \<Rightarrow> stripped | None \<Rightarrow> strip_first_suffix sufs name)"

definition executable_name_lookup_key :: "shell_env \<Rightarrow> string \<Rightarrow> string option" where
  "executable_name_lookup_key e raw =
     map_option (\<lambda>name. strip_first_suffix EXECUTABLE_SUFFIXES (to_ascii_lowercase name)) (env_file_name e raw)"

definition is_git_global_option_with_value :: "string \<Rightarrow> bool" where
  "is_git_global_option_with_value arg \<longleftrightarrow>
     arg \<in> {''-C'', ''-c'', ''--config-env'', ''--exec-path'', ''--git-dir'', ''--namespace'',
            ''--super-prefix'', ''--work-tree''}"

definition is_git_global_option_with_inline_value :: "string \<Rightarrow> bool" where
  "is_git_global_option_with_inline_value arg \<longleftrightarrow>
     list_ex (\<lambda>p. starts_with p arg)
       [''--config-env='', ''--exec-path='', ''--git-dir='', ''--namespace='', ''--super-prefix='',
        ''--work-tree='']
     \<or> (starts_with ''-C'' arg \<or> starts_with ''-c'' arg) \<and> 2 < length arg"

text \<open>The loop over the arguments from position \<open>idx\<close>.\<close>

fun git_scan :: "string list \<Rightarrow> bool \<Rightarrow> nat \<Rightarrow> string list \<Rightarrow> (nat \<times> string) option" where
  "git_scan subcommands skip_next idx [] = None"
| "git_scan subcommands skip_next idx (arg # args) =
     (if skip_next then git_scan subcommands False (Suc idx) args
      else if is_git_global_option_with_inline_value arg then git_scan subcommands False (Suc idx) args
      else if is_git_global_option_with_value arg then git_scan subcommands True (Suc idx) args
      else if arg = ''--'' \<or> starts_with ''-'' arg then git_scan subcommands False (Suc idx) args
      else if arg \<in> set subcommands then Some (idx, arg)
      else None)"

definition find_git_subcommand :: "shell_env \<Rightarrow> string list \<Rightarrow> string list \<Rightarrow> (nat \<times> string) option" where
  "find_git_subcommand e command subcommands =
     (case command of
        [] \<Rightarrow> None
      | cmd0 # args \<Rightarrow>
          if executable_name_lookup_key e cmd0 \<noteq> Some ''git'' then None
          else git_scan subcommands False 1 args)"

section \<open>Forced removal, also behind sudo\<close>

fun rm_has_force_option :: "string list \<Rightarrow> bool" where
  "rm_has_force_option [] = False"
| "rm_has_force_option (arg # args) =
     (if arg = ''--'' then False
      else if arg = ''--force'' then True
      else if starts_with ''-'' arg \<and> \<not> starts_with ''--'' arg \<and> CHR ''f'' \<in> set (drop 1 arg) then True
      else rm_has_force_option args)"

definition is_environment_assignment :: "string \<Rightarrow> bool" where
  "is_environment_assignment arg =
     (case split_once ''='' arg of
        None \<Rightarrow> False
      | Some (name, _) \<Rightarrow>
          name \<noteq> []
          \<and> list_all (\<lambda>(i, ch). ch = CHR ''_'' \<or> is_ascii_alphabetic ch \<or> 0 < i \<and> is_ascii_digit ch)
              (enumerate 0 name))"

definition sudo_short_option_consumes_next :: "string \<Rightarrow> bool" where
  "sudo_short_option_consumes_next arg =
     (if \<not> starts_with ''-'' arg \<or> starts_with ''--'' arg then False
      else case dropWhile (\<lambda>flag. flag \<notin> set ''acCDghpRrTtu'') (drop 1 arg) of
        [] \<Rightarrow> False
      | _ # later \<Rightarrow> later = [])"

definition SUDO_OPTIONS_WITH_VALUE :: "string list" where
  "SUDO_OPTIONS_WITH_VALUE =
     [''--auth-type'', ''--chdir'', ''--chroot'', ''--close-from'', ''--command-timeout'', ''--group'',
      ''--host'', ''--login-class'', ''--prompt'', ''--role'', ''--type'', ''--user'']"

text \<open>The loop of \<^verbatim>\<open>sudo_subcommand\<close> over the arguments that are left.\<close>

function sudo_scan :: "bool \<Rightarrow> string list \<Rightarrow> string list option" where
  "sudo_scan options [] = None"
| "sudo_scan options (arg # rest) =
     (if options \<and> arg = ''--'' then sudo_scan False rest
      else if is_environment_assignment arg then sudo_scan options rest
      else if \<not> options \<or> arg = ''-'' \<or> \<not> starts_with ''-'' arg then Some (arg # rest)
      else if sudo_short_option_consumes_next arg \<or> arg \<in> set SUDO_OPTIONS_WITH_VALUE
      then sudo_scan options (drop 1 rest)
      else sudo_scan options rest)"
  by pat_completeness auto

termination sudo_scan
  by (relation "measure (\<lambda>(_, args). length args)") auto

definition sudo_subcommand :: "string list \<Rightarrow> string list option" where
  "sudo_subcommand command = sudo_scan True (drop 1 command)"

lemma sudo_scan_length: "sudo_scan options args = Some rest \<Longrightarrow> length rest \<le> length args"
  by (induction options args rule: sudo_scan.induct) (auto split: if_splits)

lemma sudo_subcommand_shorter:
  "sudo_subcommand command = Some rest \<Longrightarrow> command \<noteq> [] \<Longrightarrow> length rest < length command"
  by (cases command) (auto simp: sudo_subcommand_def dest: sudo_scan_length)

function is_dangerous_to_call_with_exec :: "shell_env \<Rightarrow> string list \<Rightarrow> bool" where
  "is_dangerous_to_call_with_exec e [] = False"
| "is_dangerous_to_call_with_exec e (executable # args) =
     (if executable_name_lookup_key e executable = Some ''rm'' then rm_has_force_option args
      else if executable_name_lookup_key e executable = Some ''sudo'' then
        (case sudo_subcommand (executable # args) of
           None \<Rightarrow> False
         | Some subcommand \<Rightarrow> is_dangerous_to_call_with_exec e subcommand)
      else False)"
  by pat_completeness auto

termination is_dangerous_to_call_with_exec
  by (relation "measure (\<lambda>(_, command). length command)") (auto dest: sudo_subcommand_shorter)

section \<open>URLs and windows programs\<close>

definition looks_like_url :: "shell_env \<Rightarrow> string \<Rightarrow> bool" where
  "looks_like_url e token =
     (let lowercase_token = to_ascii_lowercase token;
          urlish = (case find_str ''https://'' lowercase_token of
                      Some idx \<Rightarrow> drop idx token
                    | None \<Rightarrow> (case find_str ''http://'' lowercase_token of
                                Some idx \<Rightarrow> drop idx token
                              | None \<Rightarrow> token));
          candidate = (case env_url_capture e urlish of Some m \<Rightarrow> m | None \<Rightarrow> urlish)
      in env_url_scheme e candidate \<in> {Some ''http'', Some ''https''})"

definition args_have_url :: "shell_env \<Rightarrow> string list \<Rightarrow> bool" where
  "args_have_url e args \<longleftrightarrow> list_ex (looks_like_url e) args"

definition executable_basename :: "shell_env \<Rightarrow> string \<Rightarrow> string option" where
  "executable_basename e exe = map_option to_ascii_lowercase (env_file_name e exe)"

definition is_powershell_executable :: "shell_env \<Rightarrow> string \<Rightarrow> bool" where
  "is_powershell_executable e exe \<longleftrightarrow>
     executable_basename e exe \<in> Some ` {''powershell'', ''powershell.exe'', ''pwsh'', ''pwsh.exe''}"

definition is_browser_executable :: "string \<Rightarrow> bool" where
  "is_browser_executable name \<longleftrightarrow>
     name \<in> {''chrome'', ''chrome.exe'', ''msedge'', ''msedge.exe'', ''firefox'', ''firefox.exe'',
             ''iexplore'', ''iexplore.exe''}"

definition is_direct_gui_launch :: "shell_env \<Rightarrow> string list \<Rightarrow> bool" where
  "is_direct_gui_launch e command =
     (case command of
        [] \<Rightarrow> False
      | exe # rest \<Rightarrow>
          (case executable_basename e exe of
             None \<Rightarrow> False
           | Some base \<Rightarrow>
               base \<in> {''explorer'', ''explorer.exe''} \<and> args_have_url e rest
               \<or> base \<in> {''mshta'', ''mshta.exe''} \<and> args_have_url e rest
               \<or> base \<in> {''rundll32'', ''rundll32.exe''}
                  \<and> list_ex (\<lambda>t. contains_str ''url.dll,fileprotocolhandler'' (to_ascii_lowercase t)) rest
                  \<and> args_have_url e rest
               \<or> is_browser_executable base \<and> args_have_url e rest))"

section \<open>PowerShell\<close>

definition is_explicit_executable_spelling :: "string \<Rightarrow> bool" where
  "is_explicit_executable_spelling command \<longleftrightarrow>
     contains_any [CHR ''/'', CHR 0x5C] command
     \<or> list_ex (\<lambda>suf. ends_with suf command) [''.exe'', ''.com'', ''.cmd'', ''.bat'']"

text \<open>The parameter dashes: hyphen, en dash, em dash and horizontal bar, encoded.\<close>

definition POWERSHELL_DASHES :: "string list" where
  "POWERSHELL_DASHES =
     [''-'', [CHR 0xE2, CHR 0x80, CHR 0x93], [CHR 0xE2, CHR 0x80, CHR 0x94], [CHR 0xE2, CHR 0x80, CHR 0x95]]"

fun strip_any_prefix :: "string list \<Rightarrow> string \<Rightarrow> string option" where
  "strip_any_prefix [] s = None"
| "strip_any_prefix (p # ps) s = (case strip_prefix p s of Some r \<Rightarrow> Some r | None \<Rightarrow> strip_any_prefix ps s)"

definition is_powershell_force_parameter :: "string \<Rightarrow> bool" where
  "is_powershell_force_parameter token =
     (case strip_any_prefix POWERSHELL_DASHES token of
        None \<Rightarrow> False
      | Some rest \<Rightarrow>
          (let name = (case split_once '':'' rest of Some (name, _) \<Rightarrow> name | None \<Rightarrow> rest) in
           2 \<le> length name \<and> starts_with (to_ascii_lowercase name) ''force''))"

definition START_COMMANDS :: "string list" where
  "START_COMMANDS = [''start-process'', ''start'', ''saps'', ''invoke-item'', ''ii'']"

definition DELETE_CMDLETS :: "string list" where
  "DELETE_CMDLETS = [''remove-item'', ''ri'', ''rm'', ''del'', ''erase'', ''rd'', ''rmdir'']"

definition is_dangerous_powershell_words :: "shell_env \<Rightarrow> string list \<Rightarrow> bool" where
  "is_dangerous_powershell_words e words =
     (case words of
        [] \<Rightarrow> False
      | command0 # args \<Rightarrow>
          (let command = to_ascii_lowercase command0 in
           is_explicit_executable_spelling command \<and> is_dangerous_to_call_with_exec e words
           \<or> command \<in> set START_COMMANDS \<and> args_have_url e args
           \<or> command \<in> set DELETE_CMDLETS \<and> list_ex is_powershell_force_parameter args
           \<or> is_direct_gui_launch e words))"

definition is_operator :: "char \<Rightarrow> bool" where
  "is_operator c \<longleftrightarrow> c \<in> {CHR '';'', CHR ''|'', CHR ''&'', LF, CR}"

text \<open>The nonempty trimmed pieces of a segment between the given punctuation characters.\<close>

definition atoms_of :: "string \<Rightarrow> string \<Rightarrow> string list" where
  "atoms_of punctuation segment =
     filter (\<lambda>a. a \<noteq> []) (map trim (split_on (\<lambda>c. c \<in> set punctuation) segment))"

text \<open>
  Both scans below run over the tokens of a script, cut each token at the shell operators and restart
  at every piece but the first. \<open>scan_pieces\<close> is that loop for a step that returns \<^term>\<open>None\<close> when the
  answer is already true; \<open>restart\<close> is what happens at an operator.
\<close>

fun scan_pieces :: "('s \<Rightarrow> 's option) \<Rightarrow> ('s \<Rightarrow> string \<Rightarrow> 's option) \<Rightarrow> bool \<Rightarrow> 's \<Rightarrow> string list \<Rightarrow> 's option" where
  "scan_pieces restart step first s [] = Some s"
| "scan_pieces restart step first s (piece # pieces) =
     (case (if first then Some s else restart s) of
        None \<Rightarrow> None
      | Some s1 \<Rightarrow> (case step s1 piece of None \<Rightarrow> None | Some s2 \<Rightarrow> scan_pieces restart step False s2 pieces))"

fun scan_tokens :: "('s \<Rightarrow> 's option) \<Rightarrow> ('s \<Rightarrow> string \<Rightarrow> 's option) \<Rightarrow> 's \<Rightarrow> string list \<Rightarrow> 's option" where
  "scan_tokens restart step s [] = Some s"
| "scan_tokens restart step s (token # tokens) =
     (case scan_pieces restart step True s (split_on is_operator token) of
        None \<Rightarrow> None
      | Some s1 \<Rightarrow> scan_tokens restart step s1 tokens)"

fun delete_atoms :: "bool \<times> bool \<Rightarrow> string list \<Rightarrow> (bool \<times> bool) option" where
  "delete_atoms st [] = Some st"
| "delete_atoms (has_delete, has_force) (atom # as) =
     (let d = (has_delete \<or> list_ex (eq_ignore_ascii_case atom) DELETE_CMDLETS);
          f = (has_force \<or> is_powershell_force_parameter atom)
      in if d \<and> f then None else delete_atoms (d, f) as)"

definition has_force_delete_cmdlet :: "string list \<Rightarrow> bool" where
  "has_force_delete_cmdlet tokens \<longleftrightarrow>
     scan_tokens (\<lambda>_. Some (False, False)) (\<lambda>st piece. delete_atoms st (atoms_of ''{}()[],;'' piece))
       (False, False) tokens = None"

definition force_removes :: "shell_env \<Rightarrow> string list \<Rightarrow> bool" where
  "force_removes e segment \<longleftrightarrow>
     list_ex (\<lambda>index. is_explicit_executable_spelling (segment ! index)
                     \<and> is_dangerous_to_call_with_exec e (drop index segment)) [0..<length segment]"

definition has_force_remove_executable :: "shell_env \<Rightarrow> string list \<Rightarrow> bool" where
  "has_force_remove_executable e tokens =
     (if \<not> list_ex (\<lambda>t. contains_str ''rm'' t \<or> contains_str ''sudo'' t) tokens then False
      else case scan_tokens (\<lambda>segment. if force_removes e segment then None else Some [])
                  (\<lambda>segment piece. Some (segment @ atoms_of ''{}()[],'' piece)) [] tokens of
        None \<Rightarrow> True
      | Some segment \<Rightarrow> force_removes e segment)"

definition trim_char :: "char \<Rightarrow> string \<Rightarrow> string" where
  "trim_char c s = rev (dropWhile (\<lambda>d. d = c) (rev (dropWhile (\<lambda>d. d = c) s)))"

definition is_dangerous_powershell_script_tokens :: "shell_env \<Rightarrow> string list \<Rightarrow> bool" where
  "is_dangerous_powershell_script_tokens e words =
     (let tokens_lc = map (\<lambda>t. to_ascii_lowercase (trim_char DQ (trim_char (CHR 0x27) t))) words;
          has_url = args_have_url e words
      in has_url \<and> list_ex (\<lambda>t. t \<in> set START_COMMANDS \<or> contains_str ''start-process'' t
                              \<or> contains_str ''invoke-item'' t) tokens_lc
         \<or> has_url \<and> list_ex (\<lambda>t. contains_str ''shellexecute'' t \<or> contains_str ''shell.application'' t) tokens_lc
         \<or> is_direct_gui_launch e tokens_lc
         \<or> has_force_delete_cmdlet tokens_lc
         \<or> has_force_remove_executable e tokens_lc)"

definition needs_ast :: "string \<Rightarrow> bool" where
  "needs_ast script \<longleftrightarrow>
     contains_any [CHR 0x60, CHR 0x5C, CHR ''#''] script
     \<or> contains_str [CHR ''@'', CHR 0x27] script
     \<or> contains_str [CHR ''@'', DQ] script
     \<or> contains_str ''$('' script"

definition is_dangerous_powershell :: "shell_env \<Rightarrow> string list \<Rightarrow> bool" where
  "is_dangerous_powershell e command =
     (case command of
        [] \<Rightarrow> False
      | exe # rest \<Rightarrow>
          if \<not> is_powershell_executable e exe then False
          else case parse_powershell_invocation rest of
            InlineCommand script _ \<Rightarrow>
              if needs_ast script then
                (case try_parse_powershell_ast_commands e exe script of
                   None \<Rightarrow> True
                 | Some commands \<Rightarrow> list_ex (is_dangerous_powershell_words e) commands)
              else
                (case env_shlex e script of
                   None \<Rightarrow> True
                 | Some tokens \<Rightarrow> is_dangerous_powershell_script_tokens e tokens)
          | _ \<Rightarrow> True)"

section \<open>CMD\<close>

text \<open>
  \<^verbatim>\<open>split_cmd_script\<close> over the characters of a script (each one its encoded bytes), with the words of
  the command being read, the word being read, and whether a word has started or a quote is open.
\<close>

record cmd_state =
  cs_commands :: "string list list"
  cs_words :: "string list"
  cs_word :: string
  cs_started :: bool
  cs_quoted :: bool

definition cmd_end_word :: "cmd_state \<Rightarrow> cmd_state" where
  "cmd_end_word st =
     (if cs_started st
      then st\<lparr>cs_words := cs_words st @ [cs_word st], cs_word := [], cs_started := False\<rparr> else st)"

definition cmd_end_command :: "cmd_state \<Rightarrow> cmd_state" where
  "cmd_end_command st =
     (let st1 = cmd_end_word st in
      if cs_words st1 \<noteq> [] then st1\<lparr>cs_commands := cs_commands st1 @ [cs_words st1], cs_words := []\<rparr> else st1)"

definition cmd_push :: "string \<Rightarrow> cmd_state \<Rightarrow> cmd_state" where
  "cmd_push ch st = st\<lparr>cs_word := cs_word st @ ch, cs_started := True\<rparr>"

definition cmd_toggle :: "cmd_state \<Rightarrow> cmd_state" where
  "cmd_toggle st = st\<lparr>cs_quoted := \<not> cs_quoted st, cs_started := True\<rparr>"

definition is_cmd_operator :: "string \<Rightarrow> bool" where
  "is_cmd_operator ch \<longleftrightarrow> ch \<in> {''&'', ''|'', [CR], [LF]}"

definition is_cmd_delimiter :: "string \<Rightarrow> bool" where
  "is_cmd_delimiter ch \<longleftrightarrow> is_whitespace ch \<or> ch \<in> {'','', '';'', ''=''}"

definition skip_same :: "string \<Rightarrow> string list \<Rightarrow> string list" where
  "skip_same ch chars = (case chars of [] \<Rightarrow> [] | c # cs \<Rightarrow> if c = ch then cs else chars)"

lemma length_skip_same: "length (skip_same ch chars) \<le> length chars"
  by (auto simp: skip_same_def split: list.split)

function cmd_chars :: "cmd_state \<Rightarrow> string list \<Rightarrow> string list list option" where
  "cmd_chars st [] = (if cs_quoted st then None else Some (cs_commands (cmd_end_command st)))"
| "cmd_chars st (ch # chars) =
     (if ch = [DQ] then cmd_chars (cmd_toggle st) chars
      else if ch = [CHR 0x5E] \<and> \<not> cs_quoted st then
        (case chars of
           [] \<Rightarrow> None
         | escaped # chars' \<Rightarrow> cmd_chars (cmd_push escaped st) chars')
      else if is_cmd_operator ch \<and> \<not> cs_quoted st then cmd_chars (cmd_end_command st) (skip_same ch chars)
      else if is_cmd_delimiter ch \<and> \<not> cs_quoted st then cmd_chars (cmd_end_word st) chars
      else cmd_chars (cmd_push ch st) chars)"
  by pat_completeness auto

termination cmd_chars
  by (relation "measure (\<lambda>(_, chars). length chars)") (auto simp: length_skip_same le_imp_less_Suc)

definition cmd_start :: cmd_state where
  "cmd_start = \<lparr>cs_commands = [], cs_words = [], cs_word = [], cs_started = False, cs_quoted = False\<rparr>"

definition split_cmd_script :: "string \<Rightarrow> string list list option" where
  "split_cmd_script script = cmd_chars cmd_start (utf8_chars script)"

definition has_cmd_switch :: "string list \<Rightarrow> char \<Rightarrow> bool" where
  "has_cmd_switch args switch \<longleftrightarrow>
     list_ex (\<lambda>piece. case piece of [] \<Rightarrow> False | ch # _ \<Rightarrow> ascii_lower ch = ascii_lower switch)
       (concat (map (split_on (\<lambda>c. c = CHR ''/'')) (filter (starts_with ''/'') args)))"

text \<open>The options before the command body; \<^term>\<open>None\<close> for an unknown token.\<close>

fun cmd_body :: "string list \<Rightarrow> string list option" where
  "cmd_body [] = Some []"
| "cmd_body (arg # args) =
     (let lower = to_ascii_lowercase arg in
      if lower \<in> {''/c'', ''/r'', ''/k'', ''-c''} then Some args
      else if starts_with ''/'' lower then cmd_body args
      else None)"

definition dangerous_cmd_segment :: "shell_env \<Rightarrow> string list \<Rightarrow> bool" where
  "dangerous_cmd_segment e segment =
     (case segment of
        [] \<Rightarrow> False
      | cmd # _ \<Rightarrow>
          eq_ignore_ascii_case cmd ''start'' \<and> args_have_url e segment
          \<or> (eq_ignore_ascii_case cmd ''del'' \<or> eq_ignore_ascii_case cmd ''erase'')
             \<and> has_cmd_switch segment (CHR ''f'')
          \<or> (eq_ignore_ascii_case cmd ''rd'' \<or> eq_ignore_ascii_case cmd ''rmdir'')
             \<and> has_cmd_switch segment (CHR ''s'') \<and> has_cmd_switch segment (CHR ''q''))"

definition is_dangerous_cmd :: "shell_env \<Rightarrow> string list \<Rightarrow> bool" where
  "is_dangerous_cmd e command =
     (case command of
        [] \<Rightarrow> False
      | exe # rest \<Rightarrow>
          if executable_basename e exe \<notin> {Some ''cmd'', Some ''cmd.exe''} then False
          else case cmd_body rest of
            None \<Rightarrow> False
          | Some remaining \<Rightarrow>
              if remaining = [] then False
              else case split_cmd_script (join '' '' remaining) of
                None \<Rightarrow> True
              | Some commands \<Rightarrow> list_ex (dangerous_cmd_segment e) commands)"

section \<open>Entry points\<close>

definition is_dangerous_command_windows :: "shell_env \<Rightarrow> string list \<Rightarrow> bool" where
  "is_dangerous_command_windows e command \<longleftrightarrow>
     is_dangerous_powershell e command \<or> is_dangerous_cmd e command \<or> is_direct_gui_launch e command"

definition is_dangerous_direct_argv_windows :: "shell_env \<Rightarrow> string list \<Rightarrow> bool" where
  "is_dangerous_direct_argv_windows e command \<longleftrightarrow>
     (case command of
        [] \<Rightarrow> False
      | exe # _ \<Rightarrow> is_powershell_executable e exe \<or> executable_basename e exe \<in> {Some ''cmd'', Some ''cmd.exe''})
     \<or> is_direct_gui_launch e command"

definition command_might_be_dangerous :: "shell_env \<Rightarrow> string list \<Rightarrow> bool" where
  "command_might_be_dangerous e command \<longleftrightarrow>
     is_dangerous_command_windows e command
     \<or> is_dangerous_to_call_with_exec e command
     \<or> (case parse_shell_lc_plain_commands e command of
          None \<Rightarrow> False
        | Some all_commands \<Rightarrow> list_ex (is_dangerous_to_call_with_exec e) all_commands)"

definition direct_argv_might_be_dangerous :: "shell_env \<Rightarrow> string list \<Rightarrow> bool" where
  "direct_argv_might_be_dangerous e command \<longleftrightarrow>
     is_dangerous_direct_argv_windows e command \<or> is_dangerous_to_call_with_exec e command"

end
