(* ===== verification/Native_Lookup.thy ===== *)
theory Native_Lookup
  imports Shell_Parse
begin

text \<open>
  The proof of identity of an executable in \<^verbatim>\<open>shell-command/src/powershell.rs\<close>: a name is trusted only
  when this launch's working directory and environment select the same canonical \<^verbatim>\<open>.exe\<close> as the host
  does on its own. Paths are their texts; the path library and the file system are the functions of
  the record \<open>lookup_env\<close>. The environment of a launch is the list of its entries.
\<close>

record lookup_env =
  lk_is_absolute :: "string \<Rightarrow> bool"
  lk_local_disk :: "string \<Rightarrow> bool"
  lk_file_name :: "string \<Rightarrow> string option"
  lk_file_stem :: "string \<Rightarrow> string option"
  lk_extension :: "string \<Rightarrow> string option"
  lk_parent :: "string \<Rightarrow> string option"
  lk_join :: "string \<Rightarrow> string \<Rightarrow> string"
  lk_with_extension :: "string \<Rightarrow> string \<Rightarrow> string"
  lk_split_paths :: "string \<Rightarrow> string list"
  lk_is_file :: "string \<Rightarrow> bool"
  lk_canonicalize :: "string \<Rightarrow> string option"
  lk_host_path :: "string option"
  lk_current_exe :: "string option"

type_synonym environment = "(string \<times> string) list"

section \<open>Finding an executable\<close>

fun env_value_ignore_ascii_case :: "environment \<Rightarrow> string \<Rightarrow> string option" where
  "env_value_ignore_ascii_case env name =
     (case filter (\<lambda>(key, _). eq_ignore_ascii_case key name) env of
        [(_, value)] \<Rightarrow> Some value
      | _ \<Rightarrow> None)"

definition same_windows_path :: "string \<Rightarrow> string \<Rightarrow> bool" where
  "same_windows_path left right \<longleftrightarrow> eq_ignore_ascii_case left right"

definition canonical_exe :: "lookup_env \<Rightarrow> string \<Rightarrow> string option" where
  "canonical_exe k path =
     (case lk_canonicalize k path of
        None \<Rightarrow> None
      | Some canonical \<Rightarrow>
          if lk_is_file k canonical
             \<and> (case lk_extension k canonical of None \<Rightarrow> False | Some x \<Rightarrow> eq_ignore_ascii_case x ''exe'')
          then Some canonical else None)"

fun search_path :: "lookup_env \<Rightarrow> string \<Rightarrow> string list \<Rightarrow> string option" where
  "search_path k executable_name [] = None"
| "search_path k executable_name (directory # directories) =
     (if directory = [] \<or> \<not> lk_is_absolute k directory then None
      else if lk_is_file k (lk_join k directory executable_name)
      then canonical_exe k (lk_join k directory executable_name)
      else search_path k executable_name directories)"

definition direct_exe_name :: "lookup_env \<Rightarrow> string \<Rightarrow> string option" where
  "direct_exe_name k command_name =
     (case lk_extension k command_name of
        None \<Rightarrow> Some (command_name @ ''.exe'')
      | Some x \<Rightarrow> if eq_ignore_ascii_case x ''exe'' then Some command_name else None)"

definition resolve_direct_exe :: "lookup_env \<Rightarrow> string \<Rightarrow> string \<Rightarrow> string option" where
  "resolve_direct_exe k command_name path =
     (if lk_is_absolute k command_name then
        (if lk_local_disk k command_name then canonical_exe k command_name else None)
      else if command_name = []
              \<or> contains_any [CHR ''/'', CHR 0x5C, CHR '':'', CHR ''*'', CHR ''?'', CHR ''['', CHR '']''] command_name
              \<or> command_name \<in> {''.'', ''..''} then None
      else case direct_exe_name k command_name of
        None \<Rightarrow> None
      | Some executable_name \<Rightarrow> search_path k executable_name (lk_split_paths k path))"

section \<open>Comparing with the trusted executable\<close>

definition accept_candidate :: "lookup_env \<Rightarrow> string \<Rightarrow> string \<Rightarrow> string option" where
  "accept_candidate k trusted candidate =
     (case canonical_exe k candidate of
        None \<Rightarrow> None
      | Some c \<Rightarrow> if same_windows_path c trusted then Some c else None)"

definition shadowed_in :: "lookup_env \<Rightarrow> string \<Rightarrow> string \<Rightarrow> string \<Rightarrow> bool" where
  "shadowed_in k stem trusted directory \<longleftrightarrow>
     (let candidate = lk_with_extension k (lk_join k directory stem) ''exe'' in
      lk_is_file k candidate
      \<and> (case canonical_exe k candidate of None \<Rightarrow> True | Some c \<Rightarrow> \<not> same_windows_path c trusted))"

text \<open>
  The extensions of \<^verbatim>\<open>PATHEXT\<close> in one directory: \<^term>\<open>None\<close> goes on to the next directory, \<^term>\<open>Some r\<close>
  returns \<open>r\<close>.
\<close>

fun try_extensions :: "lookup_env \<Rightarrow> string \<Rightarrow> string \<Rightarrow> string list \<Rightarrow> string option option" where
  "try_extensions k trusted candidate [] = None"
| "try_extensions k trusted candidate (x # xs) =
     (case strip_prefix ''.'' x of
        None \<Rightarrow> Some None
      | Some suf \<Rightarrow>
          if suf = [] \<or> \<not> list_all (\<lambda>ch. is_ascii_alphabetic ch \<or> is_ascii_digit ch) suf then Some None
          else if lk_is_file k (lk_with_extension k candidate suf)
          then Some (accept_candidate k trusted (lk_with_extension k candidate suf))
          else try_extensions k trusted candidate xs)"

fun search_launch :: "lookup_env \<Rightarrow> string \<Rightarrow> string \<Rightarrow> bool \<Rightarrow> string list \<Rightarrow> string list \<Rightarrow> string option" where
  "search_launch k trusted filename has_extension pathext [] = None"
| "search_launch k trusted filename has_extension pathext (directory # directories) =
     (if directory = [] \<or> \<not> lk_is_absolute k directory then None
      else let candidate = lk_join k directory filename in
        if lk_is_file k candidate then accept_candidate k trusted candidate
        else if has_extension then search_launch k trusted filename has_extension pathext directories
        else case try_extensions k trusted candidate pathext of
          Some answer \<Rightarrow> answer
        | None \<Rightarrow> search_launch k trusted filename has_extension pathext directories)"

definition relative_launch :: "lookup_env \<Rightarrow> string \<Rightarrow> string \<Rightarrow> string \<Rightarrow> environment \<Rightarrow> string \<Rightarrow> string \<Rightarrow> string option" where
  "relative_launch k executable filename cwd env path trusted =
     Option.bind (lk_file_stem k executable) (\<lambda>stem.
     Option.bind (Option.bind (lk_current_exe k) (lk_parent k)) (\<lambda>own_directory.
       if list_ex (shadowed_in k stem trusted) [cwd, own_directory] then None
       else Option.bind (env_value_ignore_ascii_case env ''PATHEXT'') (\<lambda>pathext.
         search_launch k trusted filename (lk_extension k executable \<noteq> None)
           (split_on (\<lambda>c. c = CHR '';'') pathext) (lk_split_paths k path))))"

definition native_executable_against_trusted ::
    "lookup_env \<Rightarrow> string \<Rightarrow> string \<Rightarrow> environment \<Rightarrow> string \<Rightarrow> string option" where
  "native_executable_against_trusted k executable cwd env trusted =
     Option.bind (lk_file_name k executable) (\<lambda>filename.
     Option.bind (if lk_is_absolute k executable then Some [] else env_value_ignore_ascii_case env ''PATH'') (\<lambda>path.
     Option.bind (resolve_direct_exe k executable path) (\<lambda>resolved.
       if \<not> same_windows_path trusted resolved \<or> \<not> lk_is_absolute k cwd then None
       else if \<not> lk_is_absolute k executable then relative_launch k executable filename cwd env path trusted
       else Some resolved)))"

definition trusted_native_executable :: "lookup_env \<Rightarrow> string \<Rightarrow> string \<Rightarrow> environment \<Rightarrow> string option" where
  "trusted_native_executable k executable cwd env =
     Option.bind (lk_file_name k executable) (\<lambda>filename.
     Option.bind (lk_host_path k) (\<lambda>host_path.
     Option.bind (resolve_direct_exe k filename host_path) (\<lambda>trusted.
       native_executable_against_trusted k executable cwd env trusted)))"

definition is_trusted_native_executable_in_state :: "lookup_env \<Rightarrow> string \<Rightarrow> string \<Rightarrow> environment \<Rightarrow> bool" where
  "is_trusted_native_executable_in_state k executable cwd env \<longleftrightarrow>
     trusted_native_executable k executable cwd env \<noteq> None"

definition is_trusted_powershell_executable_in_state ::
    "shell_env \<Rightarrow> lookup_env \<Rightarrow> string \<Rightarrow> string \<Rightarrow> environment \<Rightarrow> bool" where
  "is_trusted_powershell_executable_in_state e k executable cwd env =
     (case env_trusted_host e executable of
        None \<Rightarrow> False
      | Some trusted \<Rightarrow> native_executable_against_trusted k executable cwd env trusted \<noteq> None)"

section \<open>Lemmas\<close>

lemma same_windows_path_sym: "same_windows_path a b \<longleftrightarrow> same_windows_path b a"
  by (auto simp: same_windows_path_def eq_ignore_ascii_case_def)

lemma accept_candidate_Some:
  "accept_candidate k trusted candidate = Some p \<longleftrightarrow>
     canonical_exe k candidate = Some p \<and> same_windows_path trusted p"
  by (auto simp: accept_candidate_def same_windows_path_sym split: option.splits if_splits)

lemma try_extensions_Some:
  "try_extensions k trusted candidate xs = Some (Some p) \<Longrightarrow>
     same_windows_path trusted p \<and> (\<exists>q. lk_is_file k q \<and> canonical_exe k q = Some p)"
  by (induction xs) (auto split: option.splits if_splits simp: accept_candidate_Some)

lemma search_launch_Some:
  "search_launch k trusted filename has_extension pathext directories = Some p \<Longrightarrow>
     same_windows_path trusted p \<and> (\<exists>q. lk_is_file k q \<and> canonical_exe k q = Some p)"
  by (induction directories)
     (auto split: option.splits if_splits simp: accept_candidate_Some Let_def dest: try_extensions_Some)

lemma relative_launch_Some:
  assumes "relative_launch k executable filename cwd env path trusted = Some p"
  shows "same_windows_path trusted p \<and> (\<exists>q. canonical_exe k q = Some p)
         \<and> (\<exists>stem. lk_file_stem k executable = Some stem \<and> \<not> shadowed_in k stem trusted cwd)"
  using assms by (auto simp: relative_launch_def bind_eq_Some_conv split: if_splits dest: search_launch_Some)

lemma resolve_direct_exe_canonical:
  "resolve_direct_exe k command_name path = Some p \<Longrightarrow> \<exists>q. canonical_exe k q = Some p"
proof -
  have search: "search_path k n ds = Some p \<Longrightarrow> \<exists>q. canonical_exe k q = Some p" for n ds
    by (induction ds) (auto split: if_splits)
  assume "resolve_direct_exe k command_name path = Some p"
  then show ?thesis by (auto simp: resolve_direct_exe_def split: if_splits option.splits dest: search)
qed

lemma canonical_exe_Some:
  "canonical_exe k q = Some p \<Longrightarrow> lk_is_file k p \<and> (\<exists>x. lk_extension k p = Some x \<and> eq_ignore_ascii_case x ''exe'')"
  by (auto simp: canonical_exe_def split: option.splits if_splits)

section \<open>Properties\<close>

text \<open>
  C34: an executable is trusted only with its identity proven. When the lookup for a launch returns a
  path, that path is an existing \<^verbatim>\<open>.exe\<close> file in canonical form and is, up to ASCII case, the same
  file that the host's own search path selects for the name; the working directory is absolute, and
  an executable that is not given by an absolute path is not shadowed by another file of its name in
  the working directory.
\<close>

theorem trusted_executable_identity:
  assumes "trusted_native_executable k executable cwd env = Some p"
  shows "\<exists>filename host_path trusted.
           lk_file_name k executable = Some filename \<and> lk_host_path k = Some host_path
           \<and> resolve_direct_exe k filename host_path = Some trusted
           \<and> same_windows_path trusted p
           \<and> lk_is_file k p
           \<and> (\<exists>q x. lk_canonicalize k q = Some p \<and> lk_extension k p = Some x \<and> eq_ignore_ascii_case x ''exe'')
           \<and> lk_is_absolute k cwd
           \<and> (lk_is_absolute k executable
               \<or> (\<exists>stem. lk_file_stem k executable = Some stem \<and> \<not> shadowed_in k stem trusted cwd))"
proof -
  from assms obtain filename host_path trusted where names: "lk_file_name k executable = Some filename"
      "lk_host_path k = Some host_path" "resolve_direct_exe k filename host_path = Some trusted"
    and native: "native_executable_against_trusted k executable cwd env trusted = Some p"
    by (auto simp: trusted_native_executable_def bind_eq_Some_conv)
  have facts: "same_windows_path trusted p" "lk_is_absolute k cwd" "\<exists>q. canonical_exe k q = Some p"
      "lk_is_absolute k executable
        \<or> (\<exists>stem. lk_file_stem k executable = Some stem \<and> \<not> shadowed_in k stem trusted cwd)"
    using native by (auto simp: native_executable_against_trusted_def bind_eq_Some_conv split: if_splits
        dest!: relative_launch_Some intro: resolve_direct_exe_canonical)
  from facts(3) obtain q where q: "canonical_exe k q = Some p" by blast
  then have "lk_canonicalize k q = Some p" by (auto simp: canonical_exe_def split: option.splits if_splits)
  with q names facts show ?thesis by (blast dest: canonical_exe_Some)
qed

text \<open>A machine with one program, \<^verbatim>\<open>C:/bin/rg.exe\<close>, on the search path of the host and of the launch.\<close>

definition example_program :: string where
  "example_program = ''C:/bin/rg.exe''"

definition example_lookup :: lookup_env where
  "example_lookup =
     \<lparr>lk_is_absolute = starts_with ''C:/'', lk_local_disk = starts_with ''C:'',
      lk_file_name = (\<lambda>p. Some (last_component p)),
      lk_file_stem = (\<lambda>p. Some (case strip_suffix ''.exe'' (last_component p) of Some r \<Rightarrow> r | None \<Rightarrow> last_component p)),
      lk_extension = (\<lambda>p. if ends_with ''.exe'' p then Some ''exe'' else None),
      lk_parent = (\<lambda>_. Some ''C:/app''), lk_join = (\<lambda>a b. a @ ''/'' @ b),
      lk_with_extension = (\<lambda>p x. p @ ''.'' @ x), lk_split_paths = (\<lambda>p. [p]),
      lk_is_file = (\<lambda>p. eq_ignore_ascii_case p example_program),
      lk_canonicalize = (\<lambda>p. if eq_ignore_ascii_case p example_program then Some example_program else None),
      lk_host_path = Some ''C:/bin'', lk_current_exe = Some ''C:/app/kd4.exe''\<rparr>"

definition example_launch :: environment where
  "example_launch = [(''Path'', ''C:/bin''), (''PATHEXT'', ''.COM;.EXE'')]"

lemma example_lookup_rg: "trusted_native_executable example_lookup ''rg'' ''C:/work'' example_launch = Some example_program"
  by code_simp

theorem trusted_executable_identity_witness:
  "\<exists>trusted. resolve_direct_exe example_lookup ''rg'' ''C:/bin'' = Some trusted
             \<and> same_windows_path trusted example_program"
proof -
  have "lk_file_name example_lookup ''rg'' = Some ''rg''" "lk_host_path example_lookup = Some ''C:/bin''"
    by code_simp+
  with trusted_executable_identity[OF example_lookup_rg] show ?thesis by auto
qed

end
