(* ===== verification/Command_Safe.thy ===== *)
theory Command_Safe
  imports Command_Danger Native_Lookup
begin

text \<open>
  \<^verbatim>\<open>command_safety/is_safe_command.rs\<close> and \<^verbatim>\<open>windows_safe_commands.rs\<close>: which commands are known to be
  read-only and may run without approval.
\<close>

section \<open>Single tools\<close>

definition is_bare_executable :: "string \<Rightarrow> bool" where
  "is_bare_executable executable \<longleftrightarrow>
     executable \<noteq> [] \<and> \<not> contains_any [CHR ''/'', CHR 0x5C, CHR '':''] executable"

definition version_flags :: "string \<Rightarrow> string list" where
  "version_flags executable =
     (if executable = ''cargo'' then [''--version'', ''-V'']
      else if executable = ''rustc'' then [''--version'', ''-V'', ''-vV'']
      else if executable \<in> {''node'', ''npm'', ''pnpm'', ''yarn''} then [''--version'', ''-v'']
      else if executable \<in> {''python'', ''python3'', ''py''} then [''--version'', ''-V'']
      else if executable \<in> {''rg'', ''fd'', ''jq'', ''yq'', ''delta'', ''ast-grep'', ''sg'', ''just'', ''rustfmt'',
                            ''cargo-clippy'', ''taplo'', ''dprint'', ''hyperfine'', ''tokei''} then [''--version'']
      else [])"

definition is_exact_version_probe :: "shell_env \<Rightarrow> string list \<Rightarrow> bool" where
  "is_exact_version_probe e command =
     (case command of
        [executable, flag] \<Rightarrow>
          is_bare_executable executable
          \<and> (case executable_name_lookup_key e executable of
               None \<Rightarrow> False
             | Some name \<Rightarrow> flag \<in> set (version_flags name))
      | _ \<Rightarrow> False)"

definition is_valid_sed_n_arg :: "string option \<Rightarrow> bool" where
  "is_valid_sed_n_arg arg =
     (case arg of
        None \<Rightarrow> False
      | Some s \<Rightarrow>
          (case strip_suffix ''p'' s of
             None \<Rightarrow> False
           | Some core \<Rightarrow>
               (case split_on (\<lambda>c. c = CHR '','') core of
                  [num] \<Rightarrow> num \<noteq> [] \<and> list_all is_ascii_digit num
                | [a, b] \<Rightarrow> a \<noteq> [] \<and> b \<noteq> [] \<and> list_all is_ascii_digit a \<and> list_all is_ascii_digit b
                | _ \<Rightarrow> False)))"

definition arg_at :: "string list \<Rightarrow> nat \<Rightarrow> string option" where
  "arg_at command i = (if i < length command then Some (command ! i) else None)"

definition is_safe_sed :: "string list \<Rightarrow> bool" where
  "is_safe_sed command \<longleftrightarrow>
     length command \<le> 4 \<and> arg_at command 1 = Some ''-n'' \<and> is_valid_sed_n_arg (arg_at command 2)
     \<and> (case arg_at command 3 of None \<Rightarrow> True | Some arg \<Rightarrow> \<not> starts_with ''-'' arg \<or> arg = ''-'')"

definition is_safe_base64 :: "string list \<Rightarrow> bool" where
  "is_safe_base64 command \<longleftrightarrow>
     \<not> list_ex (\<lambda>arg. arg \<in> {''-o'', ''--output''} \<or> starts_with ''--output='' arg
                      \<or> starts_with ''-o'' arg \<and> arg \<noteq> ''-o'') (drop 1 command)"

definition UNSAFE_FIND_OPTIONS :: "string list" where
  "UNSAFE_FIND_OPTIONS =
     [''-exec'', ''-execdir'', ''-ok'', ''-okdir'', ''-delete'', ''-fls'', ''-fprint'', ''-fprint0'', ''-fprintf'']"

definition is_safe_find :: "string list \<Rightarrow> bool" where
  "is_safe_find command \<longleftrightarrow> \<not> list_ex (\<lambda>arg. arg \<in> set UNSAFE_FIND_OPTIONS) command"

section \<open>Ripgrep\<close>

definition RG_UNSAFE_LONG :: "string list" where
  "RG_UNSAFE_LONG = [''pre'', ''hostname-bin'', ''search-zip'']"

definition RG_LONG_WITH_VALUE :: "string list" where
  "RG_LONG_WITH_VALUE =
     [''after-context'', ''before-context'', ''context'', ''context-separator'', ''encoding'', ''engine'',
      ''field-context-separator'', ''field-match-separator'', ''file'', ''glob'', ''iglob'', ''ignore-file'',
      ''max-columns'', ''max-count'', ''max-depth'', ''max-filesize'', ''path-separator'', ''pre-glob'',
      ''regexp'', ''replace'', ''sort'', ''sortr'', ''threads'', ''type'', ''type-not'', ''type-add'',
      ''type-clear'', ''colors'', ''color'', ''hyperlink-format'', ''dfa-size-limit'', ''regex-size-limit'']"

datatype flag_scan = Rejected | Takes_Next | Flags_Done

text \<open>The short flags of one argument; a flag with a value ends the scan and takes the next argument
  when nothing follows it.\<close>

fun rg_flags :: "string \<Rightarrow> flag_scan" where
  "rg_flags [] = Flags_Done"
| "rg_flags (flag # flags) =
     (if flag = CHR ''z'' then Rejected
      else if flag \<in> set ''ABCEMefgjmrtT'' then (if flags = [] then Takes_Next else Flags_Done)
      else rg_flags flags)"

definition rg_long :: "string \<Rightarrow> flag_scan" where
  "rg_long long =
     (let (name, inline) = (case split_once ''='' long of None \<Rightarrow> (long, False) | Some (name, _) \<Rightarrow> (name, True)) in
      if name \<in> set RG_UNSAFE_LONG then Rejected
      else if \<not> inline \<and> name \<in> set RG_LONG_WITH_VALUE then Takes_Next
      else Flags_Done)"

definition rg_argument :: "string \<Rightarrow> flag_scan" where
  "rg_argument arg =
     (case strip_prefix ''--'' arg of
        Some long \<Rightarrow> rg_long long
      | None \<Rightarrow> (case strip_prefix ''-'' arg of Some short \<Rightarrow> rg_flags short | None \<Rightarrow> Flags_Done))"

function rg_scan :: "string list \<Rightarrow> bool" where
  "rg_scan [] = True"
| "rg_scan (arg # args) =
     (if arg = ''--'' then True
      else case rg_argument arg of
        Rejected \<Rightarrow> False
      | Takes_Next \<Rightarrow> rg_scan (drop 1 args)
      | Flags_Done \<Rightarrow> rg_scan args)"
  by pat_completeness auto

termination rg_scan
  by (relation "measure length") auto

definition is_safe_ripgrep :: "string list \<Rightarrow> bool" where
  "is_safe_ripgrep words = rg_scan (drop 1 words)"

section \<open>Git\<close>

datatype git_option_pattern =
    Exact string
  | ShortWithInlineValue string
  | Prefix string
  | LongWithAbbreviation string

fun pattern_matches :: "git_option_pattern \<Rightarrow> string \<Rightarrow> bool" where
  "pattern_matches (Exact opt) arg \<longleftrightarrow> arg = opt"
| "pattern_matches (ShortWithInlineValue opt) arg \<longleftrightarrow> starts_with opt arg \<and> length opt < length arg"
| "pattern_matches (Prefix p) arg \<longleftrightarrow> starts_with p arg"
| "pattern_matches (LongWithAbbreviation opt) arg \<longleftrightarrow>
     (let name = (case split_once ''='' arg of None \<Rightarrow> arg | Some (name, _) \<Rightarrow> name) in
      starts_with ''--'' name \<and> 2 < length name \<and> starts_with name opt)"

definition UNSAFE_GIT_GLOBAL_OPTIONS :: "git_option_pattern list" where
  "UNSAFE_GIT_GLOBAL_OPTIONS =
     [Exact ''-C'', ShortWithInlineValue ''-C'', Exact ''-c'', ShortWithInlineValue ''-c'', Exact ''-p'',
      Exact ''--config-env'', Prefix ''--config-env='', Exact ''--exec-path'', Prefix ''--exec-path='',
      Exact ''--git-dir'', Prefix ''--git-dir='', Exact ''--namespace'', Prefix ''--namespace='',
      Exact ''--paginate'', Exact ''--super-prefix'', Prefix ''--super-prefix='', Exact ''--work-tree'',
      Prefix ''--work-tree='']"

definition UNSAFE_GIT_SUBCOMMAND_OPTIONS :: "git_option_pattern list" where
  "UNSAFE_GIT_SUBCOMMAND_OPTIONS =
     [LongWithAbbreviation ''--output'', LongWithAbbreviation ''--ext-diff'', LongWithAbbreviation ''--textconv'',
      LongWithAbbreviation ''--exec'']"

definition git_matches_option_pattern :: "string \<Rightarrow> git_option_pattern list \<Rightarrow> bool" where
  "git_matches_option_pattern arg patterns \<longleftrightarrow> list_ex (\<lambda>p. pattern_matches p arg) patterns"

fun git_has_unsafe_global_option :: "string list \<Rightarrow> bool" where
  "git_has_unsafe_global_option [] = False"
| "git_has_unsafe_global_option (arg # args) =
     (if arg = ''-ccore.fsmonitor=false'' then git_has_unsafe_global_option args
      else if arg = ''-c'' then
        (case args of
           [] \<Rightarrow> True
         | v # args' \<Rightarrow> v \<noteq> ''core.fsmonitor=false'' \<or> git_has_unsafe_global_option args')
      else git_matches_option_pattern arg UNSAFE_GIT_GLOBAL_OPTIONS \<or> git_has_unsafe_global_option args)"

definition git_subcommand_args_are_read_only :: "string list \<Rightarrow> bool" where
  "git_subcommand_args_are_read_only args \<longleftrightarrow>
     \<not> list_ex (\<lambda>arg. git_matches_option_pattern arg UNSAFE_GIT_SUBCOMMAND_OPTIONS) args"

definition git_status_disables_optional_locks :: "string list \<Rightarrow> bool" where
  "git_status_disables_optional_locks global_args \<longleftrightarrow> ''--no-optional-locks'' \<in> set global_args"

definition git_fsmonitor_disabled :: "string list \<Rightarrow> bool" where
  "git_fsmonitor_disabled global_args \<longleftrightarrow>
     ''-ccore.fsmonitor=false'' \<in> set global_args
     \<or> list_ex (\<lambda>(a, b). a = ''-c'' \<and> b = ''core.fsmonitor=false'') (zip global_args (drop 1 global_args))"

definition is_read_only_branch_flag :: "string \<Rightarrow> bool" where
  "is_read_only_branch_flag arg \<longleftrightarrow>
     arg \<in> {''--list'', ''-l'', ''--show-current'', ''-a'', ''--all'', ''-r'', ''--remotes'', ''-v'', ''-vv'',
            ''--verbose''}
     \<or> starts_with ''--format='' arg"

fun branch_flags :: "bool \<Rightarrow> string list \<Rightarrow> bool" where
  "branch_flags saw_read_only_flag [] = saw_read_only_flag"
| "branch_flags saw_read_only_flag (arg # args) =
     (if is_read_only_branch_flag arg then branch_flags True args else False)"

definition git_branch_is_read_only :: "string list \<Rightarrow> bool" where
  "git_branch_is_read_only branch_args = (if branch_args = [] then True else branch_flags False branch_args)"

definition is_safe_git_command :: "shell_env \<Rightarrow> string list \<Rightarrow> bool" where
  "is_safe_git_command e command =
     (case find_git_subcommand e command [''diff'', ''branch'', ''status''] of
        None \<Rightarrow> False
      | Some (subcommand_idx, subcommand) \<Rightarrow>
          (let global_args = take (subcommand_idx - 1) (drop 1 command);
               subcommand_args = drop (subcommand_idx + 1) command
           in if git_has_unsafe_global_option global_args then False
              else if subcommand = ''diff'' then
                (let options = takeWhile (\<lambda>arg. arg \<noteq> ''--'') subcommand_args in
                 git_subcommand_args_are_read_only subcommand_args
                 \<and> git_fsmonitor_disabled global_args
                 \<and> ''--no-ext-diff'' \<in> set options
                 \<and> ''--no-textconv'' \<in> set options)
              else if subcommand = ''branch'' then
                git_subcommand_args_are_read_only subcommand_args \<and> git_branch_is_read_only subcommand_args
              else if subcommand = ''status'' then
                git_status_disables_optional_locks global_args \<and> git_fsmonitor_disabled global_args
              else False))"

section \<open>Commands\<close>

definition SAFE_COMMANDS :: "string list" where
  "SAFE_COMMANDS =
     [''cat'', ''cd'', ''cut'', ''echo'', ''expr'', ''false'', ''grep'', ''head'', ''id'', ''ls'', ''nl'', ''paste'',
      ''pwd'', ''rev'', ''seq'', ''stat'', ''tail'', ''tr'', ''true'', ''uname'', ''wc'', ''which'', ''whoami'']"

definition is_safe_to_call_with_exec :: "shell_env \<Rightarrow> string list \<Rightarrow> bool" where
  "is_safe_to_call_with_exec e command =
     (case command of
        [] \<Rightarrow> False
      | cmd0 # _ \<Rightarrow>
          if \<not> is_bare_executable cmd0 then False
          else if is_exact_version_probe e command then True
          else case executable_name_lookup_key e cmd0 of
            None \<Rightarrow> False
          | Some name \<Rightarrow>
              if name \<in> set SAFE_COMMANDS then True
              else if name = ''base64'' then is_safe_base64 command
              else if name = ''find'' then is_safe_find command
              else if name = ''rg'' then is_safe_ripgrep command
              else if name = ''git'' then is_safe_git_command e command
              else if name = ''sed'' then is_safe_sed command
              else False)"

definition is_paren :: "char \<Rightarrow> bool" where
  "is_paren c \<longleftrightarrow> c = CHR ''('' \<or> c = CHR '')''"

definition powershell_command_name :: "string \<Rightarrow> string" where
  "powershell_command_name word =
     to_ascii_lowercase (dropWhile (\<lambda>c. c = CHR ''-'') (rev (dropWhile is_paren (rev (dropWhile is_paren word)))))"

definition SAFE_POWERSHELL_COMMANDS :: "string list" where
  "SAFE_POWERSHELL_COMMANDS =
     [''echo'', ''write-output'', ''write-host'', ''dir'', ''ls'', ''get-childitem'', ''gci'', ''cat'', ''type'', ''gc'',
      ''get-content'', ''select-string'', ''sls'', ''findstr'', ''measure-object'', ''measure'', ''get-location'',
      ''gl'', ''pwd'', ''test-path'', ''tp'', ''resolve-path'', ''rvpa'', ''select-object'', ''select'', ''get-item'',
      ''get-itemproperty'', ''gp'']"

definition is_safe_powershell_words :: "shell_env \<Rightarrow> string list \<Rightarrow> bool" where
  "is_safe_powershell_words e words =
     (case words of
        [] \<Rightarrow> False
      | word # _ \<Rightarrow>
          if is_exact_version_probe e words then True
          else let command = powershell_command_name word in
            if command \<in> set SAFE_POWERSHELL_COMMANDS then True
            else if command = ''git'' then is_safe_git_command e words
            else if command = ''rg'' then is_safe_ripgrep words
            else False)"

definition try_parse_powershell_command_sequence :: "shell_env \<Rightarrow> string list \<Rightarrow> string list list option" where
  "try_parse_powershell_command_sequence e command =
     (case command of
        [] \<Rightarrow> None
      | exe # rest \<Rightarrow>
          (case parse_powershell_invocation rest of
             InlineCommand script no_profile \<Rightarrow>
               if \<not> no_profile then None
               else if \<not> is_trusted_powershell_host e exe then None
               else try_parse_powershell_ast_commands e exe script
           | _ \<Rightarrow> None))"

definition is_safe_command_windows :: "shell_env \<Rightarrow> string list \<Rightarrow> bool" where
  "is_safe_command_windows e command =
     (case try_parse_powershell_command_sequence e command of
        Some commands \<Rightarrow> list_all (is_safe_powershell_words e) commands
      | None \<Rightarrow> False)"

definition is_known_safe_command :: "shell_env \<Rightarrow> string list \<Rightarrow> bool" where
  "is_known_safe_command e command \<longleftrightarrow>
     is_safe_command_windows e command
     \<or> is_safe_to_call_with_exec e command
     \<or> (case parse_shell_lc_plain_commands e command of
          None \<Rightarrow> False
        | Some all_commands \<Rightarrow> all_commands \<noteq> [] \<and> list_all (is_safe_to_call_with_exec e) all_commands)"

section \<open>Commands in a launch state\<close>

definition proven_safe_direct_argv_in_state ::
    "shell_env \<Rightarrow> lookup_env \<Rightarrow> string list \<Rightarrow> string \<Rightarrow> environment \<Rightarrow> string list option" where
  "proven_safe_direct_argv_in_state e k command cwd env =
     (case command of
        [] \<Rightarrow> None
      | cmd0 # args \<Rightarrow>
          Option.bind (trusted_native_executable k cmd0 cwd env) (\<lambda>resolved.
          Option.bind (env_file_name e resolved) (\<lambda>filename.
            if \<not> is_safe_to_call_with_exec e (filename # args) then None else Some (resolved # args))))"

definition is_known_safe_direct_argv_in_state ::
    "shell_env \<Rightarrow> lookup_env \<Rightarrow> string list \<Rightarrow> string \<Rightarrow> environment \<Rightarrow> bool" where
  "is_known_safe_direct_argv_in_state e k command cwd env \<longleftrightarrow>
     proven_safe_direct_argv_in_state e k command cwd env \<noteq> None"

definition is_native_words :: "shell_env \<Rightarrow> string list \<Rightarrow> bool" where
  "is_native_words e command =
     (case command of
        [] \<Rightarrow> False
      | name # _ \<Rightarrow>
          \<not> is_bare_executable name
          \<or> executable_name_lookup_key e name \<in> {Some ''git'', Some ''rg'', Some ''findstr''}
          \<or> is_exact_version_probe e command)"

definition is_safe_powershell_words_in_state ::
    "shell_env \<Rightarrow> lookup_env \<Rightarrow> string list \<Rightarrow> string \<Rightarrow> environment \<Rightarrow> bool" where
  "is_safe_powershell_words_in_state e k command cwd env =
     (if is_native_words e command then
        is_known_safe_direct_argv_in_state e k command cwd env
        \<or> (case command of
             [] \<Rightarrow> False
           | name # _ \<Rightarrow> executable_name_lookup_key e name = Some ''findstr''
                         \<and> trusted_native_executable k name cwd env \<noteq> None)
      else is_safe_powershell_words e command)"

definition is_known_safe_command_in_state ::
    "shell_env \<Rightarrow> lookup_env \<Rightarrow> string list \<Rightarrow> string \<Rightarrow> environment \<Rightarrow> bool" where
  "is_known_safe_command_in_state e k command cwd env =
     (case parse_noprofile_powershell_command_into_plain_commands e command of
        Some commands \<Rightarrow>
          command \<noteq> [] \<and> is_trusted_powershell_executable_in_state e k (hd command) cwd env
          \<and> commands \<noteq> []
          \<and> list_all (\<lambda>words. is_safe_powershell_words_in_state e k words cwd env) commands
      | None \<Rightarrow>
          (case parse_shell_lc_plain_commands e command of
             Some commands \<Rightarrow>
               command \<noteq> [] \<and> trusted_native_executable k (hd command) cwd env \<noteq> None
               \<and> commands \<noteq> []
               \<and> list_all (\<lambda>words. is_known_safe_direct_argv_in_state e k words cwd env) commands
           | None \<Rightarrow> is_known_safe_direct_argv_in_state e k command cwd env))"

end
