(* ===== verification/Danger_Results.thy ===== *)
theory Danger_Results
  imports Command_Danger
begin

text \<open>
  What the danger heuristics recognise: a forced removal behind any chain of \<^verbatim>\<open>sudo\<close> invocations, and
  CMD scripts word by word as CMD reads them.
\<close>

section \<open>Forced removal as a grammar\<close>

definition is_force_option :: "string \<Rightarrow> bool" where
  "is_force_option arg \<longleftrightarrow>
     arg = ''--force'' \<or> starts_with ''-'' arg \<and> \<not> starts_with ''--'' arg \<and> CHR ''f'' \<in> set (drop 1 arg)"

lemma rm_has_force_option_iff:
  "rm_has_force_option args \<longleftrightarrow>
     (\<exists>before f after. args = before @ f # after \<and> ''--'' \<notin> set before \<and> is_force_option f)"
proof (induction args)
  case (Cons a args)
  let ?P = "\<lambda>args. \<exists>before f after. args = before @ f # after \<and> ''--'' \<notin> set before \<and> is_force_option f"
  have "?P (a # args) \<longleftrightarrow> is_force_option a \<or> a \<noteq> ''--'' \<and> ?P args"
  proof
    assume "?P (a # args)"
    then obtain before f after where *: "a # args = before @ f # after" "''--'' \<notin> set before" "is_force_option f"
      by blast
    then show "is_force_option a \<or> a \<noteq> ''--'' \<and> ?P args" by (cases before) auto
  next
    assume "is_force_option a \<or> a \<noteq> ''--'' \<and> ?P args"
    then consider "is_force_option a" | before f after where "a \<noteq> ''--''" "args = before @ f # after"
        "''--'' \<notin> set before" "is_force_option f" by blast
    then show "?P (a # args)"
    proof cases
      case 1
      then have "a # args = [] @ a # args \<and> ''--'' \<notin> set [] \<and> is_force_option a" by simp
      then show ?thesis by blast
    next
      case 2
      then have "a # args = (a # before) @ f # after \<and> ''--'' \<notin> set (a # before) \<and> is_force_option f" by simp
      then show ?thesis by blast
    qed
  qed
  with Cons.IH show ?case by (auto simp: is_force_option_def)
qed simp

text \<open>
  The words between \<^verbatim>\<open>sudo\<close> and the program it runs: environment assignments, options, options with
  a value, and \<^verbatim>\<open>--\<close>, after which only assignments may follow. The flag says whether options are
  still read.
\<close>

definition is_sudo_option :: "string \<Rightarrow> bool" where
  "is_sudo_option arg \<longleftrightarrow> starts_with ''-'' arg \<and> arg \<notin> {''-'', ''--''} \<and> \<not> is_environment_assignment arg"

definition takes_separate_value :: "string \<Rightarrow> bool" where
  "takes_separate_value arg \<longleftrightarrow> sudo_short_option_consumes_next arg \<or> arg \<in> set SUDO_OPTIONS_WITH_VALUE"

inductive sudo_words :: "bool \<Rightarrow> string list \<Rightarrow> bool \<Rightarrow> bool" where
  stop: "sudo_words options [] options"
| assignment: "is_environment_assignment a \<Longrightarrow> sudo_words options ws final \<Longrightarrow> sudo_words options (a # ws) final"
| flag: "is_sudo_option a \<Longrightarrow> \<not> takes_separate_value a \<Longrightarrow> sudo_words True ws final \<Longrightarrow> sudo_words True (a # ws) final"
| valued: "is_sudo_option a \<Longrightarrow> takes_separate_value a \<Longrightarrow> sudo_words True ws final \<Longrightarrow> sudo_words True (a # v # ws) final"
| no_more: "sudo_words False ws final \<Longrightarrow> sudo_words True (''--'' # ws) final"

fun names_program :: "bool \<Rightarrow> string list \<Rightarrow> bool" where
  "names_program options [] = False"
| "names_program options (program # _) \<longleftrightarrow>
     \<not> is_environment_assignment program
     \<and> \<not> (options \<and> program \<noteq> ''-'' \<and> starts_with ''-'' program)"

lemma dashes_not_assignment [simp]: "\<not> is_environment_assignment ''--''"
  by code_simp

lemma sudo_scan_Cons:
  "sudo_scan options (arg # rest) =
     (if options \<and> arg = ''--'' then sudo_scan False rest
      else if is_environment_assignment arg then sudo_scan options rest
      else if \<not> (options \<and> is_sudo_option arg) then Some (arg # rest)
      else if takes_separate_value arg then sudo_scan True (drop 1 rest)
      else sudo_scan True rest)"
  by (auto simp: is_sudo_option_def takes_separate_value_def)

declare sudo_scan.simps(2) [simp del]

lemma sudo_scan_sound:
  "sudo_scan options args = Some rest \<Longrightarrow>
     \<exists>ws final. args = ws @ rest \<and> sudo_words options ws final \<and> names_program final rest"
proof (induction "length args" arbitrary: options args rule: less_induct)
  case less
  then obtain arg args' where args: "args = arg # args'" by (cases args) auto
  note scan = less.prems[unfolded args sudo_scan_Cons]
  consider "options" "arg = ''--''" | "\<not> (options \<and> arg = ''--'')" "is_environment_assignment arg"
    | "\<not> (options \<and> arg = ''--'')" "\<not> is_environment_assignment arg" "\<not> (options \<and> is_sudo_option arg)"
    | "options" "is_sudo_option arg" "takes_separate_value arg"
    | "options" "is_sudo_option arg" "\<not> takes_separate_value arg"
    by blast
  then show ?case
  proof cases
    case 1
    then have "sudo_scan False args' = Some rest" using scan by simp
    from less.hyps[OF _ this] args 1 show ?thesis by simp (metis append_Cons no_more)
  next
    case 2
    then have "sudo_scan options args' = Some rest" using scan by auto
    from less.hyps[OF _ this] args 2 show ?thesis by simp (metis append_Cons assignment)
  next
    case 3
    then have "rest = arg # args'" "names_program options (arg # args')"
      using scan by (auto simp: is_sudo_option_def)
    then show ?thesis using args by (metis append_Nil stop)
  next
    case 4
    then have "sudo_scan True (drop 1 args') = Some rest" using scan by (auto simp: is_sudo_option_def)
    moreover from this obtain v later where later: "args' = v # later" by (cases args') auto
    ultimately have "sudo_scan True later = Some rest" by simp
    from less.hyps[OF _ this] args 4 later show ?thesis by simp (metis append_Cons valued)
  next
    case 5
    then have "sudo_scan True args' = Some rest" using scan by (auto simp: is_sudo_option_def)
    from less.hyps[OF _ this] args 5 show ?thesis by simp (metis append_Cons flag)
  qed
qed

lemma names_program_scan:
  "names_program options rest \<Longrightarrow> sudo_scan options rest = Some rest"
  by (cases rest) (auto simp: sudo_scan_Cons is_sudo_option_def)

lemma sudo_scan_complete:
  "sudo_words options ws final \<Longrightarrow> names_program final rest \<Longrightarrow> sudo_scan options (ws @ rest) = Some rest"
proof (induction rule: sudo_words.induct)
  case (assignment a options ws final)
  then show ?case by (cases "a = ''--''") (auto simp: sudo_scan_Cons)
qed (simp_all add: names_program_scan sudo_scan_Cons is_sudo_option_def)

inductive forced_rm :: "shell_env \<Rightarrow> string list \<Rightarrow> bool" for e where
  rm: "executable_name_lookup_key e exe = Some ''rm'' \<Longrightarrow> ''--'' \<notin> set before \<Longrightarrow> is_force_option f \<Longrightarrow>
       forced_rm e (exe # before @ f # after)"
| sudo: "executable_name_lookup_key e exe = Some ''sudo'' \<Longrightarrow> sudo_words True ws final \<Longrightarrow>
       names_program final rest \<Longrightarrow> forced_rm e rest \<Longrightarrow> forced_rm e (exe # ws @ rest)"

section \<open>Reading CMD scripts\<close>

text \<open>A string of whole encoded characters, as every Rust string is.\<close>

definition whole_chars :: "string \<Rightarrow> bool" where
  "whole_chars s \<longleftrightarrow> list_all (\<lambda>ch. length ch = utf8_width (hd ch)) (utf8_chars s)"

lemma utf8_chars_whole_append:
  "whole_chars w \<Longrightarrow> utf8_chars (w @ s) = utf8_chars w @ utf8_chars s"
proof (induction w rule: utf8_chars.induct)
  case (2 b bs)
  have "0 < utf8_width b" by (cases b) simp
  moreover have "Suc (min (length bs) (utf8_width b - 1)) = utf8_width b"
    using "2.prems" by (simp add: whole_chars_def)
  ultimately have fits: "utf8_width b - 1 \<le> length bs" by linarith
  moreover have "whole_chars (drop (utf8_width b - 1) bs)" using "2.prems" by (simp add: whole_chars_def)
  ultimately show ?case using "2.IH" by simp
qed simp

definition cmd_quote :: "string \<Rightarrow> string" where
  "cmd_quote w = [DQ] @ w @ [DQ]"

definition cmd_line :: "string list \<Rightarrow> string" where
  "cmd_line words = join '' '' (map cmd_quote words)"

definition cmd_script :: "string list list \<Rightarrow> string" where
  "cmd_script commands = join ''&'' (map cmd_line commands)"

definition quotable :: "string \<Rightarrow> bool" where
  "quotable w \<longleftrightarrow> whole_chars w \<and> DQ \<notin> set w"

lemma utf8_chars_quote [simp]: "utf8_chars (DQ # s) = [DQ] # utf8_chars s"
  by simp

lemma cmd_chars_inside:
  assumes "[DQ] \<notin> set chs" "cs_quoted st" "cs_started st"
  shows "cmd_chars st (chs @ rest) = cmd_chars (st\<lparr>cs_word := cs_word st @ concat chs\<rparr>) rest"
  using assms
proof (induction chs arbitrary: st)
  case (Cons ch chs)
  have "cmd_push ch st = st\<lparr>cs_word := cs_word st @ ch\<rparr>" using Cons.prems(3) by (simp add: cmd_push_def)
  then show ?case using Cons.prems Cons.IH[of "st\<lparr>cs_word := cs_word st @ ch\<rparr>"] by auto
qed simp

lemma quotable_chars:
  assumes "quotable w"
  shows "[DQ] \<notin> set (utf8_chars w)"
proof
  assume "[DQ] \<in> set (utf8_chars w)"
  then have "DQ \<in> set (concat (utf8_chars w))" unfolding set_concat by (rule UN_I) simp
  with assms show False by (simp add: quotable_def)
qed

lemma cmd_chars_word:
  assumes "quotable w"
  shows "cmd_chars \<lparr>cs_commands = C, cs_words = W, cs_word = [], cs_started = False, cs_quoted = False\<rparr>
           (utf8_chars (cmd_quote w @ s)) =
         cmd_chars \<lparr>cs_commands = C, cs_words = W, cs_word = w, cs_started = True, cs_quoted = False\<rparr> (utf8_chars s)"
proof -
  have "utf8_chars (cmd_quote w @ s) = [DQ] # utf8_chars w @ [DQ] # utf8_chars s"
    using assms by (simp add: cmd_quote_def quotable_def utf8_chars_whole_append)
  then show ?thesis using quotable_chars[OF assms] by (simp add: cmd_toggle_def cmd_chars_inside)
qed

lemma cmd_delimiters:
  "is_cmd_delimiter '' ''" "\<not> is_cmd_operator '' ''" "is_cmd_operator ''&''"
  by code_simp+

lemma cmd_chars_line:
  assumes "ws \<noteq> []" "list_all quotable ws"
  shows "cmd_chars \<lparr>cs_commands = C, cs_words = W, cs_word = [], cs_started = False, cs_quoted = False\<rparr>
           (utf8_chars (cmd_line ws @ s)) =
         cmd_chars \<lparr>cs_commands = C, cs_words = W @ butlast ws, cs_word = last ws, cs_started = True, cs_quoted = False\<rparr>
           (utf8_chars s)"
  using assms
proof (induction ws arbitrary: W)
  case (Cons w ws)
  show ?case
  proof (cases ws)
    case Nil
    with Cons.prems show ?thesis by (simp add: cmd_line_def cmd_chars_word)
  next
    case (Cons v vs)
    then have "cmd_line (w # ws) @ s = cmd_quote w @ '' '' @ cmd_line ws @ s" by (simp add: cmd_line_def)
    with Cons Cons.IH Cons.prems show ?thesis
      by (simp add: cmd_chars_word cmd_delimiters cmd_end_word_def)
  qed
qed simp

lemma cmd_line_head: "ws \<noteq> [] \<Longrightarrow> \<exists>r. cmd_line ws = DQ # r"
  by (cases ws rule: remdups_adj.cases) (auto simp: cmd_line_def cmd_quote_def)

lemma cmd_chars_script:
  assumes "list_all (\<lambda>ws. ws \<noteq> [] \<and> list_all quotable ws) commands"
  shows "cmd_chars \<lparr>cs_commands = C, cs_words = [], cs_word = [], cs_started = False, cs_quoted = False\<rparr>
           (utf8_chars (cmd_script commands)) = Some (C @ commands)"
  using assms
proof (induction commands arbitrary: C)
  case (Cons ws commands)
  have words: "butlast ws @ [last ws] = ws" using Cons.prems by simp
  show ?case
  proof (cases commands)
    case Nil
    with Cons.prems words cmd_chars_line[of ws C "[]" "[]"] show ?thesis
      by (simp add: cmd_script_def cmd_end_command_def cmd_end_word_def)
  next
    case (Cons v vs)
    then have script: "cmd_script (ws # commands) = cmd_line ws @ ''&'' @ cmd_script commands"
      by (simp add: cmd_script_def)
    have "\<exists>r. cmd_script commands = DQ # r"
      using Cons cmd_line_head[of v] Cons.prems by (cases vs) (auto simp: cmd_script_def)
    then have "skip_same ''&'' (utf8_chars (cmd_script commands)) = utf8_chars (cmd_script commands)"
      by (auto simp: skip_same_def)
    with script Cons.prems Cons.IH words show ?thesis
      by (simp add: cmd_chars_line cmd_delimiters cmd_end_command_def cmd_end_word_def)
  qed
qed (simp add: cmd_script_def cmd_end_command_def cmd_end_word_def)

section \<open>Properties\<close>

text \<open>
  C31: the scan for forced removals finds exactly the commands that end in a forced \<^verbatim>\<open>rm\<close>: directly, or
  behind any number of \<^verbatim>\<open>sudo\<close> invocations, each with its assignments, options, option values and
  \<^verbatim>\<open>--\<close>; the force option counts only before \<^verbatim>\<open>--\<close>. The loop over nested \<^verbatim>\<open>sudo\<close> always ends.
\<close>

theorem forced_removal_exact: "is_dangerous_to_call_with_exec e command \<longleftrightarrow> forced_rm e command"
proof
  show "is_dangerous_to_call_with_exec e command \<Longrightarrow> forced_rm e command"
  proof (induction e command rule: is_dangerous_to_call_with_exec.induct)
    case (2 e exe args)
    show ?case
    proof (cases "executable_name_lookup_key e exe = Some ''rm''")
      case True
      with "2.prems" have "rm_has_force_option args" by simp
      with True show ?thesis unfolding rm_has_force_option_iff by (auto intro: rm)
    next
      case False
      with "2.prems" obtain rest where key: "executable_name_lookup_key e exe = Some ''sudo''"
        and rest: "sudo_subcommand (exe # args) = Some rest" and danger: "is_dangerous_to_call_with_exec e rest"
        by (auto split: if_splits option.splits)
      from rest obtain ws final where "args = ws @ rest" "sudo_words True ws final" "names_program final rest"
        using sudo_scan_sound by (fastforce simp: sudo_subcommand_def)
      with key "2.IH"[OF False key rest danger] show ?thesis by (auto intro: sudo)
    qed
  qed simp
  show "forced_rm e command \<Longrightarrow> is_dangerous_to_call_with_exec e command"
  proof (induction rule: forced_rm.induct)
    case (rm exe before f after)
    then show ?case by (auto simp: rm_has_force_option_iff)
  next
    case (sudo exe ws final rest)
    then show ?case by (simp add: sudo_subcommand_def sudo_scan_complete)
  qed
qed

text \<open>
  C32: CMD scripts are read word by word. Commands of nonempty word lists, each word in double quotes,
  words separated by spaces and commands by \<^verbatim>\<open>&\<close>, are split back into exactly those commands and
  words, whatever characters other than the quote the words hold: operators, carets, delimiters and
  spaces inside quotes never end a word.
\<close>

theorem cmd_script_roundtrip:
  assumes "list_all (\<lambda>ws. ws \<noteq> [] \<and> list_all quotable ws) commands"
  shows "split_cmd_script (cmd_script commands) = Some commands"
  unfolding split_cmd_script_def cmd_start_def using cmd_chars_script[OF assms, of "[]"] by simp

theorem cmd_script_roundtrip_witness:
  "split_cmd_script (cmd_script [[''rd'', ''/s /q & x'', []], [''echo'', ''a^b'']])
     = Some [[''rd'', ''/s /q & x'', []], [''echo'', ''a^b'']]"
  by (rule cmd_script_roundtrip) code_simp

end
