(* ===== verification/Safe_Results.thy ===== *)
theory Safe_Results
  imports Command_Safe Danger_Results
begin

text \<open>
  What the list of safe commands promises: nothing on it is dangerous, and a git command on it can
  only read.
\<close>

section \<open>Safe and dangerous executables\<close>

definition safe_names :: "string list" where
  "safe_names = SAFE_COMMANDS @ [''base64'', ''find'', ''rg'', ''git'', ''sed'', ''cargo'', ''rustc'', ''node'', ''npm'',
     ''pnpm'', ''yarn'', ''python'', ''python3'', ''py'', ''fd'', ''jq'', ''yq'', ''delta'', ''ast-grep'', ''sg'', ''just'',
     ''rustfmt'', ''cargo-clippy'', ''taplo'', ''dprint'', ''hyperfine'', ''tokei'']"

definition hazardous_bases :: "string list" where
  "hazardous_bases =
     [''powershell'', ''powershell.exe'', ''pwsh'', ''pwsh.exe'', ''cmd'', ''cmd.exe'', ''explorer'', ''explorer.exe'',
      ''mshta'', ''mshta.exe'', ''rundll32'', ''rundll32.exe'', ''chrome'', ''chrome.exe'', ''msedge'', ''msedge.exe'',
      ''firefox'', ''firefox.exe'', ''iexplore'', ''iexplore.exe'']"

lemma hazardous_not_safe:
  "list_all (\<lambda>b. strip_first_suffix EXECUTABLE_SUFFIXES b \<notin> set safe_names) hazardous_bases"
  "''rm'' \<notin> set safe_names" "''sudo'' \<notin> set safe_names"
  by code_simp+

lemma hazardous_members:
  "list_all (\<lambda>b. b \<in> set hazardous_bases) [''explorer'', ''explorer.exe'', ''mshta'', ''mshta.exe'', ''rundll32'',
     ''rundll32.exe'']"
  "list_all (\<lambda>b. b \<in> set hazardous_bases) [''chrome'', ''chrome.exe'', ''msedge'', ''msedge.exe'', ''firefox'',
     ''firefox.exe'', ''iexplore'', ''iexplore.exe'']"
  "list_all (\<lambda>b. b \<in> set hazardous_bases) [''powershell'', ''powershell.exe'', ''pwsh'', ''pwsh.exe'', ''cmd'', ''cmd.exe'']"
  by code_simp+

lemma version_flags_names: "flag \<in> set (version_flags name) \<Longrightarrow> name \<in> set safe_names"
  by (auto simp: version_flags_def safe_names_def split: if_splits)

lemma safe_exec_name:
  assumes "is_safe_to_call_with_exec e command"
  obtains cmd0 args name where "command = cmd0 # args" "executable_name_lookup_key e cmd0 = Some name"
    "name \<in> set safe_names"
proof -
  from assms obtain cmd0 args where c: "command = cmd0 # args"
    by (auto simp: is_safe_to_call_with_exec_def split: list.splits)
  moreover obtain name where "executable_name_lookup_key e cmd0 = Some name" "name \<in> set safe_names"
  proof (cases "is_exact_version_probe e command")
    case True
    with c that version_flags_names show ?thesis
      by (auto simp: is_exact_version_probe_def split: list.splits option.splits)
  next
    case False
    with c assms that show ?thesis
      by (auto simp: is_safe_to_call_with_exec_def safe_names_def split: option.splits if_splits)
  qed
  ultimately show ?thesis by (rule that)
qed

lemma gui_launch_base:
  assumes "is_direct_gui_launch e (exe # rest)"
  shows "\<exists>b. executable_basename e exe = Some b \<and> b \<in> set hazardous_bases"
proof -
  have "executable_basename e exe \<noteq> None"
  proof
    assume none: "executable_basename e exe = None"
    show False using assms unfolding is_direct_gui_launch_def list.case none option.case .
  qed
  then obtain b where b: "executable_basename e exe = Some b" by blast
  from assms have "b \<in> {''explorer'', ''explorer.exe''} \<or> b \<in> {''mshta'', ''mshta.exe''}
       \<or> b \<in> {''rundll32'', ''rundll32.exe''} \<or> is_browser_executable b"
    unfolding is_direct_gui_launch_def list.case b option.case by argo
  then have "b \<in> set hazardous_bases"
    using hazardous_members(1,2) unfolding is_browser_executable_def list.pred_inject by blast
  with b show ?thesis by blast
qed

lemma dangerous_argv_base:
  assumes "is_dangerous_direct_argv_windows e (exe # rest)"
  shows "\<exists>b. executable_basename e exe = Some b \<and> b \<in> set hazardous_bases"
proof -
  from assms consider "is_powershell_executable e exe" | "executable_basename e exe \<in> {Some ''cmd'', Some ''cmd.exe''}"
    | "is_direct_gui_launch e (exe # rest)"
    unfolding is_dangerous_direct_argv_windows_def list.case by blast
  then show ?thesis
    using gui_launch_base[of e exe rest] hazardous_members(3)
    unfolding is_powershell_executable_def list.pred_inject by cases blast+
qed

lemma lookup_key_of_base:
  "executable_basename e exe = Some b \<Longrightarrow>
     executable_name_lookup_key e exe = Some (strip_first_suffix EXECUTABLE_SUFFIXES b)"
  by (auto simp: executable_basename_def executable_name_lookup_key_def)

lemma safe_exec_not_dangerous:
  assumes "is_safe_to_call_with_exec e command"
  shows "\<not> is_dangerous_to_call_with_exec e command" "\<not> is_dangerous_direct_argv_windows e command"
proof -
  from assms obtain cmd0 args name where c: "command = cmd0 # args"
    and key: "executable_name_lookup_key e cmd0 = Some name" and name: "name \<in> set safe_names"
    by (rule safe_exec_name)
  from name hazardous_not_safe(2,3) have "name \<noteq> ''rm''" "name \<noteq> ''sudo''" by metis+
  with c key show "\<not> is_dangerous_to_call_with_exec e command" by simp
  show "\<not> is_dangerous_direct_argv_windows e command"
  proof
    assume "is_dangerous_direct_argv_windows e command"
    then obtain b where b: "executable_basename e cmd0 = Some b" "b \<in> set hazardous_bases"
      using dangerous_argv_base c by blast
    then have "strip_first_suffix EXECUTABLE_SUFFIXES b \<notin> set safe_names"
      using hazardous_not_safe(1) by (simp add: list_all_iff)
    with lookup_key_of_base[OF b(1)] key name show False by simp
  qed
qed

section \<open>Git commands\<close>

text \<open>Global options that neither run a program nor point git at another repository.\<close>

fun harmless_globals :: "string list \<Rightarrow> bool" where
  "harmless_globals [] = True"
| "harmless_globals (arg # args) \<longleftrightarrow>
     (if arg = ''-c'' then (case args of [] \<Rightarrow> False | v # args' \<Rightarrow> v = ''core.fsmonitor=false'' \<and> harmless_globals args')
      else (arg = ''-ccore.fsmonitor=false'' \<or>
              starts_with ''-'' arg \<and> \<not> git_matches_option_pattern arg UNSAFE_GIT_GLOBAL_OPTIONS)
           \<and> harmless_globals args)"

text \<open>The arguments before the subcommand, as the scan reads them.\<close>

fun global_words :: "string list \<Rightarrow> bool" where
  "global_words [] = True"
| "global_words (arg # args) \<longleftrightarrow>
     (if \<not> is_git_global_option_with_inline_value arg \<and> is_git_global_option_with_value arg
      then (case args of [] \<Rightarrow> False | v # args' \<Rightarrow> global_words args')
      else starts_with ''-'' arg \<and> global_words args)"

lemma inline_value_dash: "is_git_global_option_with_inline_value arg \<Longrightarrow> starts_with ''-'' arg"
  by (auto simp: is_git_global_option_with_inline_value_def starts_with_iff)

lemma git_scan_Some:
  "git_scan subs False idx args = Some (i, sub) \<Longrightarrow>
     \<exists>pre post. args = pre @ sub # post \<and> i = idx + length pre \<and> sub \<in> set subs \<and> global_words pre"
proof (induction "length args" arbitrary: idx args rule: less_induct)
  case less
  then obtain a as where args: "args = a # as" by (cases args) auto
  consider (takes_value) "\<not> is_git_global_option_with_inline_value a" "is_git_global_option_with_value a"
    | (option) "\<not> (\<not> is_git_global_option_with_inline_value a \<and> is_git_global_option_with_value a)"
        "is_git_global_option_with_inline_value a \<or> starts_with ''-'' a"
    | (found) "\<not> is_git_global_option_with_inline_value a" "\<not> is_git_global_option_with_value a" "\<not> starts_with ''-'' a"
    by blast
  then show ?case
  proof cases
    case takes_value
    with less.prems args have "git_scan subs True (Suc idx) as = Some (i, sub)" by simp
    then obtain v as' where as: "as = v # as'" and next_: "git_scan subs False (Suc (Suc idx)) as' = Some (i, sub)"
      by (cases as) auto
    from less.hyps[OF _ next_] args as obtain pre post where "as' = pre @ sub # post"
      "i = Suc (Suc idx) + length pre" "sub \<in> set subs" "global_words pre" by auto
    with takes_value args as show ?thesis
      by (intro exI[of _ "a # v # pre"] exI[of _ post]) auto
  next
    case option
    then have "starts_with ''-'' a" using inline_value_dash by blast
    from option less.prems args have next_: "git_scan subs False (Suc idx) as = Some (i, sub)"
      by (auto split: if_splits)
    from less.hyps[OF _ next_] args obtain pre post where "as = pre @ sub # post"
      "i = Suc idx + length pre" "sub \<in> set subs" "global_words pre" by auto
    with option args \<open>starts_with ''-'' a\<close> show ?thesis
      by (intro exI[of _ "a # pre"] exI[of _ post]) auto
  next
    case found
    with less.prems args have "a = sub" "i = idx" "sub \<in> set subs" by (auto split: if_splits)
    with args show ?thesis by (intro exI[of _ "[]"] exI[of _ as]) auto
  qed
qed

lemma valued_options_unsafe:
  "is_git_global_option_with_value arg \<Longrightarrow> arg \<noteq> ''-c'' \<Longrightarrow> git_matches_option_pattern arg UNSAFE_GIT_GLOBAL_OPTIONS"
  by (auto simp: is_git_global_option_with_value_def git_matches_option_pattern_def UNSAFE_GIT_GLOBAL_OPTIONS_def)

lemma fsmonitor_inline: "is_git_global_option_with_inline_value ''-ccore.fsmonitor=false''"
  "\<not> is_git_global_option_with_inline_value ''-c''" "is_git_global_option_with_value ''-c''"
  by code_simp+

lemma harmless_globalsI:
  "global_words pre \<Longrightarrow> \<not> git_has_unsafe_global_option pre \<Longrightarrow> harmless_globals pre"
proof (induction pre rule: git_has_unsafe_global_option.induct)
  case (2 arg args)
  consider "arg = ''-ccore.fsmonitor=false''" | "arg = ''-c''"
    | (other) "arg \<noteq> ''-ccore.fsmonitor=false''" "arg \<noteq> ''-c''" by blast
  then show ?case
  proof cases
    case 1
    with 2 show ?thesis by (simp add: fsmonitor_inline)
  next
    case 2
    with "2.prems" "2.IH"(2) show ?thesis by (cases args) (simp_all add: fsmonitor_inline)
  next
    case other
    with "2.prems" have safe: "\<not> git_matches_option_pattern arg UNSAFE_GIT_GLOBAL_OPTIONS"
        "\<not> git_has_unsafe_global_option args" by auto
    then have "\<not> is_git_global_option_with_value arg" using other valued_options_unsafe by blast
    with other "2.prems" "2.IH"(3) safe show ?thesis by simp
  qed
qed simp

lemma safe_git_shape:
  assumes "is_safe_git_command e command"
  obtains exe globals sub args where "command = exe # globals @ sub # args"
    "executable_name_lookup_key e exe = Some ''git''" "sub \<in> {''diff'', ''branch'', ''status''}"
    "harmless_globals globals"
    "sub = ''diff'' \<Longrightarrow> git_subcommand_args_are_read_only args \<and> git_fsmonitor_disabled globals
       \<and> {''--no-ext-diff'', ''--no-textconv''} \<subseteq> set (takeWhile (\<lambda>a. a \<noteq> ''--'') args)"
    "sub = ''branch'' \<Longrightarrow> git_subcommand_args_are_read_only args \<and> git_branch_is_read_only args"
    "sub = ''status'' \<Longrightarrow> git_status_disables_optional_locks globals \<and> git_fsmonitor_disabled globals"
proof -
  from assms obtain idx sub where found: "find_git_subcommand e command [''diff'', ''branch'', ''status''] = Some (idx, sub)"
    unfolding is_safe_git_command_def by (auto split: option.splits)
  then obtain exe rest where c: "command = exe # rest" and key: "executable_name_lookup_key e exe = Some ''git''"
    and scan: "git_scan [''diff'', ''branch'', ''status''] False 1 rest = Some (idx, sub)"
    unfolding find_git_subcommand_def by (auto split: list.splits if_splits)
  from git_scan_Some[OF scan] obtain globals args where rest: "rest = globals @ sub # args"
    and idx: "idx = Suc (length globals)" and sub: "sub \<in> {''diff'', ''branch'', ''status''}"
    and words: "global_words globals" by auto
  have parts: "take (idx - 1) (drop 1 command) = globals" "drop (idx + 1) command = args"
    using c rest idx by auto
  note safe = assms[unfolded is_safe_git_command_def found option.case prod.case Let_def parts]
  then have "\<not> git_has_unsafe_global_option globals" by presburger
  with words have "harmless_globals globals" by (rule harmless_globalsI)
  moreover have "git_subcommand_args_are_read_only args \<and> git_fsmonitor_disabled globals
       \<and> {''--no-ext-diff'', ''--no-textconv''} \<subseteq> set (takeWhile (\<lambda>a. a \<noteq> ''--'') args)" if "sub = ''diff''"
    using safe that by (auto split: if_splits)
  moreover have "git_subcommand_args_are_read_only args \<and> git_branch_is_read_only args" if "sub = ''branch''"
    using safe that by (auto split: if_splits)
  moreover have "git_status_disables_optional_locks globals \<and> git_fsmonitor_disabled globals" if "sub = ''status''"
    using safe that by (auto split: if_splits)
  ultimately show ?thesis using that[OF _ key sub] c rest by blast
qed

lemma branch_flags_all: "branch_flags b args \<Longrightarrow> list_all is_read_only_branch_flag args"
  by (induction b args rule: branch_flags.induct) (auto split: if_splits)

section \<open>Properties\<close>

text \<open>
  C29: no command is both safe and dangerous. An argument vector that may run without approval is never
  one that the danger heuristics flag: it starts no shell, no browser or URL handler, and it neither is
  nor hides a forced removal, whatever its arguments, URLs included.
\<close>

theorem safe_argv_not_dangerous:
  assumes "is_safe_to_call_with_exec e command"
  shows "\<not> direct_argv_might_be_dangerous e command"
  using safe_exec_not_dangerous[OF assms] by (simp add: direct_argv_might_be_dangerous_def)

definition example_shell :: shell_env where
  "example_shell =
     \<lparr>env_file_name = (\<lambda>p. Some (last_component p)), env_bash_tree = (\<lambda>_. None), env_shlex = (\<lambda>s. Some (split_on (\<lambda>c. c = CHR '' '') s)),
      env_powershell = (\<lambda>_ _. Failed), env_trusted_host = (\<lambda>_. None), env_url_capture = (\<lambda>_. None),
      env_url_scheme = (\<lambda>s. if starts_with ''https://'' s then Some ''https'' else None)\<rparr>"

theorem safe_argv_not_dangerous_witness:
  "\<not> direct_argv_might_be_dangerous example_shell [''cat'', ''https://x'', ''-f'']"
  by (rule safe_argv_not_dangerous) code_simp


definition example_git :: "string list" where
  "example_git = [''git'', ''-c'', ''core.fsmonitor=false'', ''--no-optional-locks'', ''status'', ''-s'']"

lemma example_git_safe: "is_safe_git_command example_shell example_git"
  by code_simp


end
