(* ===== verification/Permissions.thy ===== *)
theory Permissions
  imports Rust_Base
begin

text \<open>
  The permission data of \<^verbatim>\<open>protocol\<close> that decides about approvals: approval modes, sandbox requests and
  permission profiles (\<^verbatim>\<open>protocol.rs\<close>, \<^verbatim>\<open>models.rs\<close>, \<^verbatim>\<open>permissions.rs\<close>, \<^verbatim>\<open>config_types.rs\<close>). Paths are
  their texts; whether an absolute path is a root is a parameter.
\<close>

section \<open>Approval modes\<close>

record granular_approval_config =
  ga_sandbox_approval :: bool
  ga_rules :: bool
  ga_skill_approval :: bool
  ga_request_permissions :: bool
  ga_mcp_elicitations :: bool

datatype ask_for_approval = UnlessTrusted | OnRequest | Granular granular_approval_config | Never

datatype sandbox_permissions = UseDefault | RequireEscalated | WithAdditionalPermissions

fun requests_sandbox_override :: "sandbox_permissions \<Rightarrow> bool" where
  "requests_sandbox_override UseDefault = False"
| "requests_sandbox_override _ = True"

datatype windows_sandbox_level = SandboxDisabled | RestrictedToken | Elevated

section \<open>File-system policies\<close>

datatype file_system_access_mode = Read | Write | Deny

fun can_write :: "file_system_access_mode \<Rightarrow> bool" where
  "can_write Write = True"
| "can_write _ = False"

fun can_read :: "file_system_access_mode \<Rightarrow> bool" where
  "can_read Deny = False"
| "can_read _ = True"

text \<open>The derived order of the access modes.\<close>

fun access_rank :: "file_system_access_mode \<Rightarrow> nat" where
  "access_rank Read = 0"
| "access_rank Write = 1"
| "access_rank Deny = 2"

instantiation file_system_access_mode :: linorder
begin

definition less_eq_file_system_access_mode :: "file_system_access_mode \<Rightarrow> file_system_access_mode \<Rightarrow> bool" where
  "less_eq_file_system_access_mode a b \<longleftrightarrow> access_rank a \<le> access_rank b"

definition less_file_system_access_mode :: "file_system_access_mode \<Rightarrow> file_system_access_mode \<Rightarrow> bool" where
  "less_file_system_access_mode a b \<longleftrightarrow> access_rank a < access_rank b"

instance
proof
  fix a b :: file_system_access_mode
  show "a \<le> b \<Longrightarrow> b \<le> a \<Longrightarrow> a = b"
    by (cases a; cases b) (simp_all add: less_eq_file_system_access_mode_def)
qed (auto simp: less_eq_file_system_access_mode_def less_file_system_access_mode_def)

end

datatype file_system_special_path =
    Root
  | Minimal
  | ProjectRoots "string option"
  | Tmpdir
  | SlashTmp
  | UnknownPath string "string option"

datatype file_system_path =
    FsPath string
  | GlobPattern string
  | Special file_system_special_path

record file_system_sandbox_entry =
  entry_path :: file_system_path
  entry_access :: file_system_access_mode

datatype file_system_sandbox_kind = Restricted | Unrestricted | ExternalSandbox

record file_system_sandbox_policy =
  fs_kind :: file_system_sandbox_kind
  fs_glob_scan_max_depth :: "nat option"
  fs_entries :: "file_system_sandbox_entry list"

definition fs_unrestricted :: file_system_sandbox_policy where
  "fs_unrestricted = \<lparr>fs_kind = Unrestricted, fs_glob_scan_max_depth = None, fs_entries = []\<rparr>"

definition fs_external_sandbox :: file_system_sandbox_policy where
  "fs_external_sandbox = \<lparr>fs_kind = ExternalSandbox, fs_glob_scan_max_depth = None, fs_entries = []\<rparr>"

definition has_root_access :: "file_system_sandbox_policy \<Rightarrow> (file_system_access_mode \<Rightarrow> bool) \<Rightarrow> bool" where
  "has_root_access pol allows \<longleftrightarrow>
     fs_kind pol = Restricted
     \<and> list_ex (\<lambda>entry. entry_path entry = Special Root \<and> allows (entry_access entry)) (fs_entries pol)"

fun special_paths_share_target :: "file_system_special_path \<Rightarrow> file_system_special_path \<Rightarrow> bool" where
  "special_paths_share_target Root Root = True"
| "special_paths_share_target Minimal Minimal = True"
| "special_paths_share_target Tmpdir Tmpdir = True"
| "special_paths_share_target SlashTmp SlashTmp = True"
| "special_paths_share_target (ProjectRoots a) (ProjectRoots b) = (a = b)"
| "special_paths_share_target (UnknownPath a sa) (UnknownPath b sb) = (a = b \<and> sa = sb)"
| "special_paths_share_target _ _ = False"

fun special_path_matches_absolute_path :: "(string \<Rightarrow> bool) \<Rightarrow> file_system_special_path \<Rightarrow> string \<Rightarrow> bool" where
  "special_path_matches_absolute_path is_root Root path = is_root path"
| "special_path_matches_absolute_path is_root SlashTmp path = (path = ''/tmp'')"
| "special_path_matches_absolute_path is_root _ path = False"

fun file_system_paths_share_target :: "(string \<Rightarrow> bool) \<Rightarrow> file_system_path \<Rightarrow> file_system_path \<Rightarrow> bool" where
  "file_system_paths_share_target is_root (FsPath l) (FsPath r) = (l = r)"
| "file_system_paths_share_target is_root (Special l) (Special r) = special_paths_share_target l r"
| "file_system_paths_share_target is_root (FsPath path) (Special v) = special_path_matches_absolute_path is_root v path"
| "file_system_paths_share_target is_root (Special v) (FsPath path) = special_path_matches_absolute_path is_root v path"
| "file_system_paths_share_target is_root (GlobPattern l) (GlobPattern r) = (l = r)"
| "file_system_paths_share_target is_root _ _ = False"

definition has_same_target_write_override ::
    "(string \<Rightarrow> bool) \<Rightarrow> file_system_sandbox_policy \<Rightarrow> file_system_sandbox_entry \<Rightarrow> bool" where
  "has_same_target_write_override is_root pol entry \<longleftrightarrow>
     list_ex (\<lambda>candidate. can_write (entry_access candidate) \<and> entry_access entry < entry_access candidate
                \<and> file_system_paths_share_target is_root (entry_path candidate) (entry_path entry)) (fs_entries pol)"

definition entry_narrows :: "(string \<Rightarrow> bool) \<Rightarrow> file_system_sandbox_policy \<Rightarrow> file_system_sandbox_entry \<Rightarrow> bool" where
  "entry_narrows is_root pol entry =
     (if can_write (entry_access entry) then False
      else case entry_path entry of
        FsPath _ \<Rightarrow> \<not> has_same_target_write_override is_root pol entry
      | GlobPattern _ \<Rightarrow> True
      | Special v \<Rightarrow> (case v of
            Root \<Rightarrow> entry_access entry = Deny
          | Minimal \<Rightarrow> False
          | UnknownPath _ _ \<Rightarrow> False
          | _ \<Rightarrow> \<not> has_same_target_write_override is_root pol entry))"

definition has_write_narrowing_entries :: "(string \<Rightarrow> bool) \<Rightarrow> file_system_sandbox_policy \<Rightarrow> bool" where
  "has_write_narrowing_entries is_root pol \<longleftrightarrow>
     fs_kind pol = Restricted \<and> list_ex (entry_narrows is_root pol) (fs_entries pol)"

definition has_full_disk_write_access :: "(string \<Rightarrow> bool) \<Rightarrow> file_system_sandbox_policy \<Rightarrow> bool" where
  "has_full_disk_write_access is_root pol =
     (case fs_kind pol of
        Unrestricted \<Rightarrow> True
      | ExternalSandbox \<Rightarrow> True
      | Restricted \<Rightarrow> has_root_access pol can_write \<and> \<not> has_write_narrowing_entries is_root pol)"

section \<open>Permission profiles\<close>

datatype network_sandbox_policy = NetRestricted | NetEnabled

datatype managed_file_system_permissions =
    ManagedRestricted "file_system_sandbox_entry list" "nat option"
  | ManagedUnrestricted

fun to_sandbox_policy :: "managed_file_system_permissions \<Rightarrow> file_system_sandbox_policy" where
  "to_sandbox_policy (ManagedRestricted entries depth) =
     \<lparr>fs_kind = Restricted, fs_glob_scan_max_depth = depth, fs_entries = entries\<rparr>"
| "to_sandbox_policy ManagedUnrestricted = fs_unrestricted"

datatype permission_profile =
    Managed managed_file_system_permissions network_sandbox_policy
  | ProfileDisabled
  | External network_sandbox_policy

fun profile_sandbox_policy :: "permission_profile \<Rightarrow> file_system_sandbox_policy" where
  "profile_sandbox_policy (Managed file_system _) = to_sandbox_policy file_system"
| "profile_sandbox_policy ProfileDisabled = fs_unrestricted"
| "profile_sandbox_policy (External _) = fs_external_sandbox"

definition profile_has_managed_filesystem_restrictions :: "(string \<Rightarrow> bool) \<Rightarrow> permission_profile \<Rightarrow> bool" where
  "profile_has_managed_filesystem_restrictions is_root profile \<longleftrightarrow>
     (case profile of Managed _ _ \<Rightarrow> True | _ \<Rightarrow> False)
     \<and> fs_kind (profile_sandbox_policy profile) = Restricted
     \<and> \<not> has_full_disk_write_access is_root (profile_sandbox_policy profile)"

end
