(* ===== verification/Exec_Approval.thy ===== *)
theory Exec_Approval
  imports Safe_Results Permissions Policy_Results Policy_Parser
begin

text \<open>
  \<^verbatim>\<open>core/src/exec_policy.rs\<close>: what a command needs before it runs. The policy is asked first, the safety
  and danger heuristics decide about commands that no rule matches, and the approval mode turns the
  decision into a requirement; accepted amendments add rules to the policy.

  The record \<open>approval_env\<close> holds the functions outside the repository: the policy host, the shell
  parsers, the lookup of executables, and the debug text of an argument vector. \<^const>\<open>None\<close> in place of a
  requirement is a panic.
\<close>

record approval_env =
  ap_host :: host
  ap_shell :: shell_env
  ap_lookup :: lookup_env
  ap_is_root :: "string \<Rightarrow> bool"
  ap_debug :: "string list \<Rightarrow> string"

type_synonym launch_context = "(string \<times> environment) option"

section \<open>Commands that no rule matches\<close>

datatype exec_policy_command_origin = Generic | DirectArgv | FromPowerShell

record unmatched_command_context =
  uc_approval_policy :: ask_for_approval
  uc_permission_profile :: permission_profile
  uc_windows_sandbox_level :: windows_sandbox_level
  uc_sandbox_permissions :: sandbox_permissions
  uc_used_complex_parsing :: bool
  uc_command_origin :: exec_policy_command_origin
  uc_execution_context :: launch_context

definition no_sandbox_backend :: "approval_env \<Rightarrow> windows_sandbox_level \<Rightarrow> permission_profile \<Rightarrow> bool" where
  "no_sandbox_backend a level profile \<longleftrightarrow>
     level = SandboxDisabled \<and> profile_has_managed_filesystem_restrictions (ap_is_root a) profile"

fun known_safe_in_state :: "approval_env \<Rightarrow> exec_policy_command_origin \<Rightarrow> string list \<Rightarrow> string \<Rightarrow> environment \<Rightarrow> bool" where
  "known_safe_in_state a Generic command cwd env =
     is_known_safe_command_in_state (ap_shell a) (ap_lookup a) command cwd env"
| "known_safe_in_state a DirectArgv command cwd env =
     is_known_safe_direct_argv_in_state (ap_shell a) (ap_lookup a) command cwd env"
| "known_safe_in_state a FromPowerShell command cwd env =
     is_safe_powershell_words_in_state (ap_shell a) (ap_lookup a) command cwd env"

definition proven_read_only :: "approval_env \<Rightarrow> unmatched_command_context \<Rightarrow> string list \<Rightarrow> bool" where
  "proven_read_only a ctx command \<longleftrightarrow>
     \<not> uc_used_complex_parsing ctx
     \<and> (uc_approval_policy ctx = UnlessTrusted
        \<or> no_sandbox_backend a (uc_windows_sandbox_level ctx) (uc_permission_profile ctx))
     \<and> (case uc_execution_context ctx of
          None \<Rightarrow> False
        | Some (cwd, env) \<Rightarrow> known_safe_in_state a (uc_command_origin ctx) command cwd env)"

fun flagged_dangerous :: "approval_env \<Rightarrow> exec_policy_command_origin \<Rightarrow> string list \<Rightarrow> bool" where
  "flagged_dangerous a Generic command = command_might_be_dangerous (ap_shell a) command"
| "flagged_dangerous a DirectArgv command = direct_argv_might_be_dangerous (ap_shell a) command"
| "flagged_dangerous a FromPowerShell command = is_dangerous_powershell_words (ap_shell a) command"

definition sandbox_explicitly_disabled :: "permission_profile \<Rightarrow> bool" where
  "sandbox_explicitly_disabled profile =
     (case profile of ProfileDisabled \<Rightarrow> True | External _ \<Rightarrow> True | Managed _ _ \<Rightarrow> False)"

text \<open>The decision of the on-request and granular modes, which both go by the sandbox.\<close>

definition sandboxed_decision :: "permission_profile \<Rightarrow> sandbox_permissions \<Rightarrow> decision" where
  "sandboxed_decision profile permissions =
     (case fs_kind (profile_sandbox_policy profile) of
        Unrestricted \<Rightarrow> Allow
      | ExternalSandbox \<Rightarrow> Allow
      | Restricted \<Rightarrow> if requests_sandbox_override permissions then Prompt else Allow)"

definition render_decision_for_unmatched_command ::
    "approval_env \<Rightarrow> unmatched_command_context \<Rightarrow> string list \<Rightarrow> decision" where
  "render_decision_for_unmatched_command a ctx command =
     (let profile = uc_permission_profile ctx in
      if proven_read_only a ctx command then Allow
      else if flagged_dangerous a (uc_command_origin ctx) command
              \<or> no_sandbox_backend a (uc_windows_sandbox_level ctx) profile then
        (case uc_approval_policy ctx of
           Never \<Rightarrow> if sandbox_explicitly_disabled profile then Allow else Forbidden
         | _ \<Rightarrow> Prompt)
      else
        (case uc_approval_policy ctx of
           Never \<Rightarrow> Allow
         | UnlessTrusted \<Rightarrow> Prompt
         | OnRequest \<Rightarrow> sandboxed_decision profile (uc_sandbox_permissions ctx)
         | Granular _ \<Rightarrow> sandboxed_decision profile (uc_sandbox_permissions ctx)))"

section \<open>From a request to the commands that are judged\<close>

record exec_policy_commands =
  ec_commands :: "string list list"
  ec_used_complex_parsing :: bool
  ec_command_origin :: exec_policy_command_origin

definition single_generic :: "bool \<Rightarrow> string list \<Rightarrow> exec_policy_commands" where
  "single_generic complex command =
     \<lparr>ec_commands = [command], ec_used_complex_parsing = complex, ec_command_origin = Generic\<rparr>"

definition commands_for_exec_policy :: "shell_env \<Rightarrow> string list \<Rightarrow> exec_policy_commands" where
  "commands_for_exec_policy e command =
     (case parse_shell_lc_plain_commands e command of
        Some (c # cs) \<Rightarrow> \<lparr>ec_commands = c # cs, ec_used_complex_parsing = False, ec_command_origin = Generic\<rparr>
      | _ \<Rightarrow>
          (case parse_noprofile_powershell_command_into_plain_commands e command of
             Some (c # cs) \<Rightarrow>
               \<lparr>ec_commands = c # cs, ec_used_complex_parsing = False, ec_command_origin = FromPowerShell\<rparr>
           | _ \<Rightarrow>
               (case parse_shell_lc_single_command_prefix e command of
                  Some single_command \<Rightarrow> single_generic True single_command
                | None \<Rightarrow> single_generic False command)))"

fun is_policy_match :: "rule_match \<Rightarrow> bool" where
  "is_policy_match (PrefixRuleMatch _ _ _ _) = True"
| "is_policy_match (HeuristicsRuleMatch _ _) = False"

definition PROMPT_CONFLICT_REASON :: string where
  "PROMPT_CONFLICT_REASON = ''approval required by policy, but AskForApproval is set to Never''"

definition REJECT_SANDBOX_APPROVAL_REASON :: string where
  "REJECT_SANDBOX_APPROVAL_REASON =
     ''approval required by policy, but AskForApproval::Granular.sandbox_approval is false''"

definition REJECT_RULES_APPROVAL_REASON :: string where
  "REJECT_RULES_APPROVAL_REASON =
     ''approval required by policy rule, but AskForApproval::Granular.rules is false''"

fun prompt_is_rejected_by_policy :: "ask_for_approval \<Rightarrow> bool \<Rightarrow> string option" where
  "prompt_is_rejected_by_policy Never prompt_is_rule = Some PROMPT_CONFLICT_REASON"
| "prompt_is_rejected_by_policy OnRequest prompt_is_rule = None"
| "prompt_is_rejected_by_policy UnlessTrusted prompt_is_rule = None"
| "prompt_is_rejected_by_policy (Granular config) prompt_is_rule =
     (if prompt_is_rule then (if \<not> ga_rules config then Some REJECT_RULES_APPROVAL_REASON else None)
      else if \<not> ga_sandbox_approval config then Some REJECT_SANDBOX_APPROVAL_REASON
      else None)"

section \<open>Amendments\<close>

type_synonym exec_policy_amendment = "string list"

fun find_heuristic :: "decision \<Rightarrow> rule_match list \<Rightarrow> exec_policy_amendment option" where
  "find_heuristic d [] = None"
| "find_heuristic d (HeuristicsRuleMatch command d' # ms) = (if d' = d then Some command else find_heuristic d ms)"
| "find_heuristic d (PrefixRuleMatch _ _ _ _ # ms) = find_heuristic d ms"

definition is_prompt_rule_match :: "rule_match \<Rightarrow> bool" where
  "is_prompt_rule_match m \<longleftrightarrow> is_policy_match m \<and> match_decision m = Prompt"

definition try_derive_execpolicy_amendment_for_prompt_rules :: "rule_match list \<Rightarrow> exec_policy_amendment option" where
  "try_derive_execpolicy_amendment_for_prompt_rules matched_rules =
     (if list_ex is_prompt_rule_match matched_rules then None else find_heuristic Prompt matched_rules)"

definition try_derive_execpolicy_amendment_for_allow_rules :: "rule_match list \<Rightarrow> exec_policy_amendment option" where
  "try_derive_execpolicy_amendment_for_allow_rules matched_rules =
     (if list_ex is_policy_match matched_rules then None else find_heuristic Allow matched_rules)"

definition BANNED_PREFIX_SUGGESTIONS :: "string list list" where
  "BANNED_PREFIX_SUGGESTIONS =
     [[''python3''], [''python3'', ''-''], [''python3'', ''-c''], [''python''], [''python'', ''-''],
      [''python'', ''-c''], [''py''], [''py'', ''-3''], [''pythonw''], [''pyw''], [''pypy''], [''pypy3''],
      [''git''], [''bash''], [''bash'', ''-lc''], [''sh''], [''sh'', ''-c''], [''sh'', ''-lc''], [''zsh''],
      [''zsh'', ''-lc''], [''/bin/zsh''], [''/bin/zsh'', ''-lc''], [''/bin/bash''],
      [''/bin/bash'', ''-lc''], [''pwsh''], [''pwsh'', ''-Command''], [''pwsh'', ''-c''], [''powershell''],
      [''powershell'', ''-Command''], [''powershell'', ''-c''], [''powershell.exe''],
      [''powershell.exe'', ''-Command''], [''powershell.exe'', ''-c''], [''env''], [''sudo''], [''node''],
      [''node'', ''-e''], [''perl''], [''perl'', ''-e''], [''ruby''], [''ruby'', ''-e''], [''php''],
      [''php'', ''-r''], [''lua''], [''lua'', ''-e''], [''osascript''], [''deno''], [''deno'', ''run''],
      [''deno'', ''eval''], [''bun''], [''bun'', ''run''], [''bun'', ''-e''], [''bun'', ''--eval''],
      [''uv''], [''uv'', ''run''], [''uv'', ''tool'', ''run''], [''uvx''], [''pipx''], [''pipx'', ''run''],
      [''julia''], [''julia'', ''-e''], [''Rscript''], [''Rscript'', ''-e''], [''go''], [''go'', ''run''],
      [''awk''], [''gawk''], [''mawk''], [''tclsh''], [''dotnet''], [''dotnet'', ''run''],
      [''dotnet'', ''exec''], [''cmd''], [''cmd'', ''/c''], [''cmd'', ''/C''], [''mshta''], [''rundll32''],
      [''regsvr32''], [''wscript''], [''cscript''], [''msbuild''], [''installutil''], [''wsl''],
      [''wsl'', ''-e''], [''wsl'', ''--exec'']]"

definition CMD_SWITCHES :: "string list" where
  "CMD_SWITCHES =
     [''/c'', ''/k'', ''/d'', ''/q'', ''/s'', ''/a'', ''/u'', ''/e:on'', ''/e:off'', ''/f:on'', ''/f:off'', ''/v:on'',
      ''/v:off'']"

definition prefix_program :: "string \<Rightarrow> string" where
  "prefix_program first =
     (let program = to_ascii_lowercase (last_component first) in
      case strip_suffix ''.exe'' program of Some p \<Rightarrow> p | None \<Rightarrow> program)"

definition banned_prefix :: "string \<Rightarrow> string list \<Rightarrow> string list \<Rightarrow> bool" where
  "banned_prefix program prefix_rule_words banned \<longleftrightarrow>
     length prefix_rule_words = length banned
     \<and> eq_ignore_ascii_case program (hd banned)
     \<and> list_all (\<lambda>(actual, b). if program \<in> {''pwsh'', ''powershell''} then eq_ignore_ascii_case actual b else actual = b)
         (zip (tl prefix_rule_words) (tl banned))"

definition prefix_rule_would_approve_all_commands ::
    "host \<Rightarrow> policy \<Rightarrow> string list \<Rightarrow> string list list \<Rightarrow> (string list \<Rightarrow> decision) \<Rightarrow> match_options \<Rightarrow> bool option" where
  "prefix_rule_would_approve_all_commands h p words commands fallback options =
     (case add_prefix_rule h words Allow p of
        Err _ \<Rightarrow> Some False
      | Ok p' \<Rightarrow>
          map_option (list_all (\<lambda>e. ev_decision e = Allow))
            (those (map (\<lambda>command. check_with_options h p' command fallback options) commands)))"

definition derive_requested_execpolicy_amendment_from_prefix_rule ::
    "host \<Rightarrow> string list option \<Rightarrow> rule_match list \<Rightarrow> policy \<Rightarrow> string list list \<Rightarrow> (string list \<Rightarrow> decision) \<Rightarrow>
     match_options \<Rightarrow> exec_policy_amendment option option" where
  "derive_requested_execpolicy_amendment_from_prefix_rule h requested matched_rules p commands fallback options =
     (case requested of
        None \<Rightarrow> Some None
      | Some [] \<Rightarrow> Some None
      | Some (first # rest) \<Rightarrow>
          (let program = prefix_program first in
           if program = ''cmd'' \<and> list_all (\<lambda>arg. to_ascii_lowercase arg \<in> set CMD_SWITCHES) rest then Some None
           else if list_ex (banned_prefix program (first # rest)) BANNED_PREFIX_SUGGESTIONS then Some None
           else if list_ex is_policy_match matched_rules then Some None
           else map_option (\<lambda>approves. if approves then Some (first # rest) else None)
                  (prefix_rule_would_approve_all_commands h p (first # rest) commands fallback options)))"

section \<open>Reasons\<close>

text \<open>\<^verbatim>\<open>max_by_key\<close> keeps the last of equal maxima.\<close>

fun max_by_key :: "('a \<Rightarrow> nat) \<Rightarrow> 'a list \<Rightarrow> 'a option" where
  "max_by_key key [] = None"
| "max_by_key key (x # xs) =
     (case max_by_key key xs of
        None \<Rightarrow> Some x
      | Some y \<Rightarrow> if key y < key x then Some x else Some y)"

fun rule_matches_with :: "decision \<Rightarrow> rule_match list \<Rightarrow> (string list \<times> string option) list" where
  "rule_matches_with d [] = []"
| "rule_matches_with d (PrefixRuleMatch matched d' _ j # ms) =
     (if d' = d then (matched, j) # rule_matches_with d ms else rule_matches_with d ms)"
| "rule_matches_with d (HeuristicsRuleMatch _ _ # ms) = rule_matches_with d ms"

definition render_shlex_command :: "approval_env \<Rightarrow> string list \<Rightarrow> string" where
  "render_shlex_command a args =
     (case host_shlex_join (ap_host a) args of
        Some s \<Rightarrow> s
      | None \<Rightarrow> ''argv '' @ ap_debug a args @ '' (cannot be represented as a shell command)'')"

definition backticks :: "string \<Rightarrow> string" where
  "backticks s = [CHR 0x60] @ s @ [CHR 0x60]"

definition derive_prompt_reason :: "approval_env \<Rightarrow> string list \<Rightarrow> evaluation \<Rightarrow> string option" where
  "derive_prompt_reason a command_args ev =
     (let command = render_shlex_command a command_args in
      case max_by_key (\<lambda>(matched, _). length matched) (rule_matches_with Prompt (ev_matched_rules ev)) of
        Some (_, Some justification) \<Rightarrow> Some (backticks command @ '' requires approval: '' @ justification)
      | Some (_, None) \<Rightarrow> Some (backticks command @ '' requires approval by policy'')
      | None \<Rightarrow> None)"

definition derive_forbidden_reason :: "approval_env \<Rightarrow> string list \<Rightarrow> evaluation \<Rightarrow> string" where
  "derive_forbidden_reason a command_args ev =
     (let command = render_shlex_command a command_args in
      case max_by_key (\<lambda>(matched, _). length matched) (rule_matches_with Forbidden (ev_matched_rules ev)) of
        Some (_, Some justification) \<Rightarrow> backticks command @ '' rejected: '' @ justification
      | Some (matched, None) \<Rightarrow>
          backticks command @ '' rejected: policy forbids commands starting with '' @ backticks (render_shlex_command a matched)
      | None \<Rightarrow> backticks command @ '' rejected: blocked by policy'')"

section \<open>Requirements\<close>

datatype exec_approval_requirement =
    Skip (bypass_sandbox: bool) (skip_amendment: "exec_policy_amendment option")
  | NeedsApproval (approval_reason: "string option") (approval_amendment: "exec_policy_amendment option")
  | ForbiddenRequirement string

record exec_approval_request =
  rq_command :: "string list"
  rq_command_for_safety :: "string list option"
  rq_execution_context :: launch_context
  rq_approval_policy :: ask_for_approval
  rq_permission_profile :: permission_profile
  rq_windows_sandbox_level :: windows_sandbox_level
  rq_sandbox_permissions :: sandbox_permissions
  rq_prefix_rule :: "string list option"

definition policy_command :: "exec_approval_request \<Rightarrow> bool \<Rightarrow> string list" where
  "policy_command req shell_wrapper_is_owned =
     (if shell_wrapper_is_owned
      then (case rq_command_for_safety req of Some c \<Rightarrow> c | None \<Rightarrow> rq_command req)
      else rq_command req)"

definition request_commands :: "approval_env \<Rightarrow> exec_approval_request \<Rightarrow> bool \<Rightarrow> exec_policy_commands" where
  "request_commands a req shell_wrapper_is_owned =
     (if shell_wrapper_is_owned
      then commands_for_exec_policy (ap_shell a) (policy_command req shell_wrapper_is_owned)
      else \<lparr>ec_commands = [policy_command req shell_wrapper_is_owned], ec_used_complex_parsing = False,
             ec_command_origin = DirectArgv\<rparr>)"

definition readonly_heuristics_needed :: "approval_env \<Rightarrow> exec_approval_request \<Rightarrow> bool" where
  "readonly_heuristics_needed a req \<longleftrightarrow>
     rq_approval_policy req = UnlessTrusted
     \<or> no_sandbox_backend a (rq_windows_sandbox_level req) (rq_permission_profile req)"

text \<open>The launch context counts only for a wrapper whose shell is proven to be the trusted one.\<close>

definition keeps_context :: "approval_env \<Rightarrow> exec_approval_request \<Rightarrow> bool \<Rightarrow> string \<times> environment \<Rightarrow> bool" where
  "keeps_context a req shell_wrapper_is_owned launch =
     (let (cwd, env) = launch;
          cmds = request_commands a req shell_wrapper_is_owned;
          pc = policy_command req shell_wrapper_is_owned
      in if \<not> readonly_heuristics_needed a req \<or> ec_used_complex_parsing cmds then True
         else if ec_command_origin cmds = FromPowerShell then
           pc \<noteq> [] \<and> is_trusted_powershell_executable_in_state (ap_shell a) (ap_lookup a) (hd pc) cwd env
         else if shell_wrapper_is_owned \<and> parse_shell_lc_plain_commands (ap_shell a) pc \<noteq> None then
           pc \<noteq> [] \<and> is_trusted_native_executable_in_state (ap_lookup a) (hd pc) cwd env
         else True)"

definition filtered_context :: "approval_env \<Rightarrow> exec_approval_request \<Rightarrow> bool \<Rightarrow> launch_context" where
  "filtered_context a req shell_wrapper_is_owned =
     (case rq_execution_context req of
        None \<Rightarrow> None
      | Some launch \<Rightarrow> if keeps_context a req shell_wrapper_is_owned launch then Some launch else None)"

definition unmatched_context :: "approval_env \<Rightarrow> exec_approval_request \<Rightarrow> bool \<Rightarrow> unmatched_command_context" where
  "unmatched_context a req shell_wrapper_is_owned =
     (let cmds = request_commands a req shell_wrapper_is_owned in
      \<lparr>uc_approval_policy = rq_approval_policy req, uc_permission_profile = rq_permission_profile req,
       uc_windows_sandbox_level = rq_windows_sandbox_level req,
       uc_sandbox_permissions = rq_sandbox_permissions req,
       uc_used_complex_parsing = ec_used_complex_parsing cmds,
       uc_command_origin = ec_command_origin cmds,
       uc_execution_context = filtered_context a req shell_wrapper_is_owned\<rparr>)"

definition exec_policy_fallback :: "approval_env \<Rightarrow> exec_approval_request \<Rightarrow> bool \<Rightarrow> string list \<Rightarrow> decision" where
  "exec_policy_fallback a req shell_wrapper_is_owned =
     render_decision_for_unmatched_command a (unmatched_context a req shell_wrapper_is_owned)"

definition is_allow_rule_match :: "rule_match \<Rightarrow> bool" where
  "is_allow_rule_match m \<longleftrightarrow> is_policy_match m \<and> match_decision m = Allow"

definition every_command_allowed_by_rule :: "host \<Rightarrow> policy \<Rightarrow> string list list \<Rightarrow> bool option" where
  "every_command_allowed_by_rule h p commands =
     map_option (list_all (list_ex is_allow_rule_match))
       (those (map (\<lambda>command. matches_for_command_with_options h p command None resolving) commands))"

definition requirement_for :: "approval_env \<Rightarrow> policy \<Rightarrow> exec_approval_request \<Rightarrow> string list \<Rightarrow> exec_policy_commands \<Rightarrow>
    exec_policy_amendment option \<Rightarrow> evaluation \<Rightarrow> exec_approval_requirement option" where
  "requirement_for a p req pc cmds requested_amendment ev =
     (let auto_amendment_allowed = \<not> ec_used_complex_parsing cmds in
      case ev_decision ev of
        Forbidden \<Rightarrow> Some (ForbiddenRequirement (derive_forbidden_reason a pc ev))
      | Prompt \<Rightarrow>
          (case prompt_is_rejected_by_policy (rq_approval_policy req) (list_ex is_prompt_rule_match (ev_matched_rules ev)) of
             Some reason \<Rightarrow> Some (ForbiddenRequirement reason)
           | None \<Rightarrow> Some (NeedsApproval (derive_prompt_reason a pc ev)
               (case requested_amendment of
                  Some am \<Rightarrow> Some am
                | None \<Rightarrow> if auto_amendment_allowed
                          then try_derive_execpolicy_amendment_for_prompt_rules (ev_matched_rules ev) else None)))
      | Allow \<Rightarrow>
          map_option (\<lambda>bypass. Skip bypass
              (if auto_amendment_allowed then try_derive_execpolicy_amendment_for_allow_rules (ev_matched_rules ev) else None))
            (every_command_allowed_by_rule (ap_host a) p (ec_commands cmds)))"

definition classify_exec_approval_requirement ::
    "approval_env \<Rightarrow> policy \<Rightarrow> exec_approval_request \<Rightarrow> bool \<Rightarrow> exec_approval_requirement option" where
  "classify_exec_approval_requirement a p req shell_wrapper_is_owned =
     (let pc = policy_command req shell_wrapper_is_owned;
          cmds = request_commands a req shell_wrapper_is_owned;
          fallback = exec_policy_fallback a req shell_wrapper_is_owned
      in Option.bind (check_multiple_with_options (ap_host a) p (ec_commands cmds) fallback resolving) (\<lambda>ev.
         Option.bind (if ec_used_complex_parsing cmds then Some None
                      else derive_requested_execpolicy_amendment_from_prefix_rule (ap_host a) (rq_prefix_rule req)
                             (ev_matched_rules ev) p (ec_commands cmds) fallback resolving) (\<lambda>requested_amendment.
           requirement_for a p req pc cmds requested_amendment ev)))"

fun default_exec_approval_requirement :: "ask_for_approval \<Rightarrow> file_system_sandbox_policy \<Rightarrow> exec_approval_requirement" where
  "default_exec_approval_requirement mode fs =
     (let needs_approval =
            (case mode of
               Never \<Rightarrow> False
             | OnRequest \<Rightarrow> fs_kind fs = Restricted
             | Granular _ \<Rightarrow> fs_kind fs = Restricted
             | UnlessTrusted \<Rightarrow> True)
      in if needs_approval \<and> (case mode of Granular config \<Rightarrow> \<not> ga_sandbox_approval config | _ \<Rightarrow> False)
         then ForbiddenRequirement ''approval policy disallowed sandbox approval prompt''
         else if needs_approval then NeedsApproval None None
         else Skip False None)"

section \<open>The policy manager\<close>

record exec_policy_manager =
  mgr_policy :: policy

datatype exec_policy_update_error = AppendRule string | JoinBlockingTask string | AddRule policy_error

text \<open>
  \<^verbatim>\<open>append_amendment_and_update\<close>, with the outcome of appending the rule to the policy file given. The
  update lock is held throughout, so updates happen one after the other.
\<close>

definition already_allowed :: "host \<Rightarrow> policy \<Rightarrow> exec_policy_amendment \<Rightarrow> bool option" where
  "already_allowed h p amendment =
     map_option (\<lambda>ev. ev_decision ev = Allow \<and> list_ex is_allow_rule_match (ev_matched_rules ev))
       (check_multiple_with_options h p [amendment] (\<lambda>_. Forbidden) resolving)"

definition append_amendment_and_update :: "host \<Rightarrow> (unit, exec_policy_update_error) result \<Rightarrow> exec_policy_amendment \<Rightarrow>
    exec_policy_manager \<Rightarrow> (exec_policy_manager \<times> (unit, exec_policy_update_error) result) option" where
  "append_amendment_and_update h appended amendment m =
     (case appended of
        Err err \<Rightarrow> Some (m, Err err)
      | Ok _ \<Rightarrow>
          map_option (\<lambda>allowed.
            if allowed then (m, Ok ())
            else case add_prefix_rule h amendment Allow (mgr_policy m) of
              Err err \<Rightarrow> (m, Err (AddRule err))
            | Ok p \<Rightarrow> (m\<lparr>mgr_policy := p\<rparr>, Ok ()))
            (already_allowed h (mgr_policy m) amendment))"

section \<open>Loading the policy\<close>

datatype exec_policy_error =
    UnsupportedNetworkRules
  | ReadDir string
  | ReadFile string
  | ParsePolicy string policy_error

datatype layer_source = UserLayer | ProjectLayer | OtherLayer

text \<open>A configuration layer with the outcome of listing its rules directory, if it has a folder.\<close>

record config_layer =
  layer_disabled :: bool
  layer_name :: layer_source
  layer_rules :: "(string list, exec_policy_error) result option"

definition layer_used :: "bool \<Rightarrow> config_layer \<Rightarrow> bool" where
  "layer_used ignore_rules layer \<longleftrightarrow>
     \<not> (layer_disabled layer \<and> layer_name layer \<noteq> UserLayer)
     \<and> \<not> (ignore_rules \<and> layer_name layer \<in> {UserLayer, ProjectLayer})"

fun policy_paths :: "bool \<Rightarrow> config_layer list \<Rightarrow> (string list, exec_policy_error) result" where
  "policy_paths ignore_rules [] = Ok []"
| "policy_paths ignore_rules (layer # layers) =
     (if \<not> layer_used ignore_rules layer then policy_paths ignore_rules layers
      else case layer_rules layer of
        None \<Rightarrow> policy_paths ignore_rules layers
      | Some listed \<Rightarrow> and_then listed (\<lambda>paths. and_then (policy_paths ignore_rules layers) (\<lambda>later. Ok (paths @ later))))"

fun parse_policy_paths :: "host \<Rightarrow> starlark_eval \<Rightarrow> (string \<Rightarrow> (string, string) result) \<Rightarrow> string list \<Rightarrow> policy_builder \<Rightarrow>
    (policy_builder, exec_policy_error) result" where
  "parse_policy_paths h starlark read [] b = Ok b"
| "parse_policy_paths h starlark read (path # paths) b =
     (case read path of
        Err _ \<Rightarrow> Err (ReadFile path)
      | Ok contents \<Rightarrow>
          (case policy_parse h starlark path contents b of
             Err err \<Rightarrow> Err (ParsePolicy path err)
           | Ok b' \<Rightarrow> parse_policy_paths h starlark read paths b'))"

definition load_exec_policy :: "host \<Rightarrow> starlark_eval \<Rightarrow> (string \<Rightarrow> (string, string) result) \<Rightarrow> bool \<Rightarrow> config_layer list \<Rightarrow>
    policy option \<Rightarrow> (policy, exec_policy_error) result" where
  "load_exec_policy h starlark read ignore_rules layers requirements =
     and_then (policy_paths ignore_rules layers) (\<lambda>paths.
     and_then (parse_policy_paths h starlark read paths builder_new) (\<lambda>b.
       let built = builder_build h b;
           p = (case requirements of Some overlay \<Rightarrow> merge_overlay h built overlay | None \<Rightarrow> built)
       in if pol_network_rules p \<noteq> [] then Err UnsupportedNetworkRules else Ok p))"

end
