(* ===== verification/Approval_Results.thy ===== *)
theory Approval_Results
  imports Exec_Approval
begin

text \<open>
  What an approval requirement means: commands run unasked only when every part of them is allowed, a
  dangerous command that no rule covers never runs unasked, and an accepted amendment makes progress.

  \<open>command_judge\<close> is what the approval code relies on in the policy engine: a group of commands is
  evaluated to the strictest decision on its members.
\<close>

section \<open>The contract of the policy engine\<close>

locale command_judge =
  fixes judge :: "string list \<Rightarrow> decision"
    and evaluate :: "string list list \<Rightarrow> evaluation option"
  assumes evaluate_max: "commands \<noteq> [] \<Longrightarrow> \<exists>ev. evaluate commands = Some ev \<and> ev_decision ev = Max (judge ` set commands)"
begin

lemma evaluated:
  assumes "commands \<noteq> []"
  obtains ev where "evaluate commands = Some ev"
  using evaluate_max[OF assms] by blast

lemma evaluate_le:
  assumes "evaluate commands = Some ev" "commands \<noteq> []"
  shows "ev_decision ev \<le> d \<longleftrightarrow> (\<forall>cmd\<in>set commands. judge cmd \<le> d)"
  using evaluate_max[OF assms(2)] assms by auto

lemma evaluate_Allow:
  assumes "evaluate commands = Some ev" "commands \<noteq> []"
  shows "ev_decision ev = Allow \<longleftrightarrow> (\<forall>cmd\<in>set commands. judge cmd = Allow)"
proof -
  have "d \<le> Allow \<longleftrightarrow> d = Allow" for d by (cases d) (simp_all add: less_eq_decision_def)
  with evaluate_le[OF assms, of Allow] show ?thesis by simp
qed

lemma evaluate_not_Forbidden:
  assumes "evaluate commands = Some ev" "commands \<noteq> []"
  shows "ev_decision ev \<noteq> Forbidden \<longleftrightarrow> (\<forall>cmd\<in>set commands. judge cmd \<noteq> Forbidden)"
proof -
  have "d \<le> Prompt \<longleftrightarrow> d \<noteq> Forbidden" for d by (cases d) (simp_all add: less_eq_decision_def)
  with evaluate_le[OF assms, of Prompt] show ?thesis by simp
qed

lemma evaluate_Prompt:
  assumes "evaluate commands = Some ev" "commands \<noteq> []"
  shows "ev_decision ev = Prompt \<longleftrightarrow>
    (\<forall>cmd\<in>set commands. judge cmd \<noteq> Forbidden) \<and> (\<exists>cmd\<in>set commands. judge cmd = Prompt)"
  using evaluate_Allow[OF assms] evaluate_not_Forbidden[OF assms] by (metis decision.exhaust decision.distinct)

end

interpretation rules: command_judge "strictest h p fallback options"
  "\<lambda>commands. check_multiple_with_options h p commands fallback options" for h p fallback options
  using check_multiple_Max by unfold_locales

section \<open>Evaluations\<close>

lemma request_commands_ne [simp]: "ec_commands (request_commands a req owned) \<noteq> []"
  by (auto simp: request_commands_def commands_for_exec_policy_def single_generic_def split: option.splits list.splits)

lemma those_map_Some: "(\<And>x. x \<in> set xs \<Longrightarrow> f x = Some (g x)) \<Longrightarrow> those (map f xs) = Some (map g xs)"
  by (induction xs) auto

lemma check_multiple_matches:
  assumes "check_multiple_with_options h p commands fallback options = Some ev"
  shows "ev_matched_rules ev = concat (map (command_matches h p fallback options) commands)"
proof -
  have "those (map (\<lambda>cmd. matches_for_command_with_options h p cmd (Some fallback) options) commands)
      = Some (map (command_matches h p fallback options) commands)"
    by (rule those_map_Some) (simp add: matches_for_command_eq command_matches_def)
  with assms show ?thesis by (auto simp: check_multiple_with_options_def from_matches_def split: if_splits)
qed

lemma policy_match_of [simp]: "is_policy_match (match_of cmd x)"
  by (cases x) simp

lemma every_command_allowed_eq:
  "every_command_allowed_by_rule h p commands =
     Some (list_all (\<lambda>cmd. \<exists>x\<in>set (applicable h p cmd resolving). rule_decision (fst x) = Allow) commands)"
proof -
  have "those (map (\<lambda>cmd. matches_for_command_with_options h p cmd None resolving) commands)
      = Some (map (\<lambda>cmd. map (match_of cmd) (applicable h p cmd resolving)) commands)"
    by (rule those_map_Some) (simp add: matches_for_command_eq)
  then show ?thesis
    by (simp add: every_command_allowed_by_rule_def list.pred_map o_def is_allow_rule_match_def list_ex_iff)
qed

lemma would_approve_eq:
  "prefix_rule_would_approve_all_commands h p words commands fallback options =
     Some (case add_prefix_rule h words Allow p of
             Err _ \<Rightarrow> False
           | Ok p' \<Rightarrow> list_all (\<lambda>cmd. strictest h p' fallback options cmd = Allow) commands)"
proof (cases "add_prefix_rule h words Allow p")
  case (Ok p')
  let ?g = "\<lambda>cmd. the (check_with_options h p' cmd fallback options)"
  have "those (map (\<lambda>cmd. check_with_options h p' cmd fallback options) commands) = Some (map ?g commands)"
    using check_strictest[of h p' _ fallback options] by (intro those_map_Some) (metis option.sel)
  moreover have "ev_decision (?g cmd) = strictest h p' fallback options cmd" for cmd
    using check_strictest[of h p' cmd fallback options] by auto
  ultimately show ?thesis using Ok
    by (simp add: prefix_rule_would_approve_all_commands_def list.pred_map o_def)
qed (simp add: prefix_rule_would_approve_all_commands_def)

lemma derive_requested_total:
  "\<exists>am. derive_requested_execpolicy_amendment_from_prefix_rule h requested ms p commands fallback options = Some am"
  by (auto simp: would_approve_eq derive_requested_execpolicy_amendment_from_prefix_rule_def Let_def split: option.splits list.splits)

definition request_decision :: "approval_env \<Rightarrow> policy \<Rightarrow> exec_approval_request \<Rightarrow> bool \<Rightarrow> string list \<Rightarrow> decision" where
  "request_decision a p req owned = strictest (ap_host a) p (exec_policy_fallback a req owned) resolving"

abbreviation judged_commands :: "approval_env \<Rightarrow> exec_approval_request \<Rightarrow> bool \<Rightarrow> string list list" where
  "judged_commands a req owned \<equiv> ec_commands (request_commands a req owned)"

lemma classify_eq:
  obtains ev am where
    "check_multiple_with_options (ap_host a) p (judged_commands a req owned) (exec_policy_fallback a req owned) resolving = Some ev"
    "(if ec_used_complex_parsing (request_commands a req owned) then Some None
      else derive_requested_execpolicy_amendment_from_prefix_rule (ap_host a) (rq_prefix_rule req)
             (ev_matched_rules ev) p (judged_commands a req owned) (exec_policy_fallback a req owned) resolving) = Some am"
    "classify_exec_approval_requirement a p req owned =
       requirement_for a p req (policy_command req owned) (request_commands a req owned) am ev"
proof -
  obtain ev where ev: "check_multiple_with_options (ap_host a) p (judged_commands a req owned)
      (exec_policy_fallback a req owned) resolving = Some ev"
    by (rule rules.evaluated[OF request_commands_ne])
  obtain am where am: "(if ec_used_complex_parsing (request_commands a req owned) then Some None
      else derive_requested_execpolicy_amendment_from_prefix_rule (ap_host a) (rq_prefix_rule req)
             (ev_matched_rules ev) p (judged_commands a req owned) (exec_policy_fallback a req owned) resolving) = Some am"
    using derive_requested_total by (cases "ec_used_complex_parsing (request_commands a req owned)") (auto, blast)
  show thesis
    by (rule that[OF ev am]) (simp add: classify_exec_approval_requirement_def Let_def ev am)
qed

lemma applicable_all_Allow:
  assumes "policy_inv h p" "strictest h p fallback options cmd = Allow"
  shows "(\<exists>x\<in>set (applicable h p cmd options). rule_decision (fst x) = Allow) \<longleftrightarrow> (\<exists>r. rule_applies h p options cmd r)"
proof -
  have "rule_decision r = Allow" if "rule_applies h p options cmd r" for r
    using strictest_bounds(2)[OF assms(1) that, of fallback] assms(2) by simp
  with applicable_iff[OF assms(1), of cmd options] show ?thesis by (metis (mono_tags, lifting) imageE imageI mem_Collect_eq)
qed

section \<open>Adding an allow rule\<close>

lemma rule_applies_added:
  assumes "add_prefix_rule h words Allow p = Ok p'"
  obtains s where "rule_decision s = Allow"
    "\<And>options cmd r. rule_applies h p' options cmd r \<Longrightarrow> rule_applies h p options cmd r \<or> r = s"
    "\<And>options. rule_applies h p' options words s"
    "\<And>options cmd r. rule_applies h p options cmd r \<Longrightarrow> rule_applies h p' options cmd r"
proof (rule add_prefix_rule_cases[OF assms])
  fix first rest
  let ?s = "simple_rule first rest Allow"
  assume p': "words = first # rest" "pol_rules_by_program p' = mm_insert first ?s (pol_rules_by_program p)"
    "pol_host_executables p' = pol_host_executables p"
  have same: "same_executable h p' = same_executable h p"
    by (intro ext) (simp only: same_executable_def executable_permitted_def p'(3))
  show thesis
  proof (rule that)
    show "rule_decision ?s = Allow" by (simp add: simple_rule_def)
    show "rule_applies h p options cmd r \<or> r = ?s" if "rule_applies h p' options cmd r" for options cmd r
      using that by (auto simp: rule_applies_def p'(2) same rules_in_insert)
    show "rule_applies h p' options words ?s" for options
      using simple_rule_matches[of first rest Allow "[]"] by (simp add: rule_applies_def p'(1,2) rules_in_insert)
    show "rule_applies h p' options cmd r" if "rule_applies h p options cmd r" for options cmd r
      using that by (auto simp: rule_applies_def p'(2) same rules_in_insert)
  qed
qed

lemma added_allow_not_stricter:
  assumes "policy_inv h p" "add_prefix_rule h words Allow p = Ok p'"
  shows "strictest h p' fallback options cmd \<le> strictest h p fallback options cmd"
proof (rule rule_applies_added[OF assms(2)])
  fix s
  assume s: "rule_decision s = Allow"
    "\<And>options cmd r. rule_applies h p' options cmd r \<Longrightarrow> rule_applies h p options cmd r \<or> r = s"
    "\<And>options cmd r. rule_applies h p options cmd r \<Longrightarrow> rule_applies h p' options cmd r"
  have inv: "policy_inv h p'" by (rule add_prefix_rule_inv[OF assms])
  show ?thesis
  proof (cases "\<exists>r. rule_applies h p' options cmd r")
    case True
    with strictest_bounds(1)[OF inv, of options cmd fallback] obtain r where
      "rule_applies h p' options cmd r" "strictest h p' fallback options cmd = rule_decision r" by auto
    with s strictest_bounds(2)[OF assms(1)] show ?thesis by (metis Allow_bot(1))
  next
    case False
    with s(3) have "\<not> (\<exists>r. rule_applies h p options cmd r)" by blast
    with False strictest_bounds(1)[OF inv, of options cmd fallback] strictest_bounds(1)[OF assms(1), of options cmd fallback]
    show ?thesis by simp
  qed
qed

lemma added_rule_allows:
  assumes "policy_inv h p" "add_prefix_rule h words Allow p = Ok p'" "\<not> (\<exists>r. rule_applies h p options words r)"
  shows "strictest h p' fallback options words = Allow"
proof (rule rule_applies_added[OF assms(2)])
  fix s
  assume s: "rule_decision s = Allow"
    "\<And>options cmd r. rule_applies h p' options cmd r \<Longrightarrow> rule_applies h p options cmd r \<or> r = s"
    "\<And>options. rule_applies h p' options words s"
  then have "\<exists>r. rule_applies h p' options words r" "\<And>r. rule_applies h p' options words r \<Longrightarrow> r = s"
    using assms(3) by blast+
  with strictest_bounds(1)[OF add_prefix_rule_inv[OF assms(1,2)], of options words fallback] s(1) show ?thesis by auto
qed

lemma no_rule_iff:
  "policy_inv h p \<Longrightarrow> applicable h p cmd options = [] \<longleftrightarrow> \<not> (\<exists>r. rule_applies h p options cmd r)"
  using applicable_iff[of h p cmd options] by (metis Collect_empty_eq image_is_empty set_empty)

lemma find_heuristic_Some: "find_heuristic d ms = Some c \<Longrightarrow> HeuristicsRuleMatch c d \<in> set ms"
  by (induction d ms rule: find_heuristic.induct) (auto split: if_splits)

lemma heuristic_match:
  "HeuristicsRuleMatch c d \<in> set (command_matches h p fallback options cmd) \<Longrightarrow>
     c = cmd \<and> d = fallback cmd \<and> applicable h p cmd options = []"
  by (auto simp: command_matches_def split: if_splits)

section \<open>What requirements mean\<close>

lemma requirement_meaning:
  assumes "policy_inv (ap_host a) p"
  shows "\<exists>r. classify_exec_approval_requirement a p req owned = Some r \<and>
    (case r of
       Skip bypass _ \<Rightarrow>
         (\<forall>cmd\<in>set (judged_commands a req owned). request_decision a p req owned cmd = Allow)
         \<and> (bypass \<longleftrightarrow> (\<forall>cmd\<in>set (judged_commands a req owned). \<exists>rule. rule_applies (ap_host a) p resolving cmd rule))
     | NeedsApproval _ _ \<Rightarrow>
         (\<forall>cmd\<in>set (judged_commands a req owned). request_decision a p req owned cmd \<noteq> Forbidden)
         \<and> (\<exists>cmd\<in>set (judged_commands a req owned). request_decision a p req owned cmd = Prompt)
         \<and> rq_approval_policy req \<noteq> Never
     | ForbiddenRequirement _ \<Rightarrow>
         (\<exists>cmd\<in>set (judged_commands a req owned). request_decision a p req owned cmd \<noteq> Allow))"
proof -
  obtain ev am where ev: "check_multiple_with_options (ap_host a) p (judged_commands a req owned)
        (exec_policy_fallback a req owned) resolving = Some ev"
    and eq: "classify_exec_approval_requirement a p req owned =
       requirement_for a p req (policy_command req owned) (request_commands a req owned) am ev"
    by (rule classify_eq)
  note judged = rules.evaluate_Allow[OF ev request_commands_ne] rules.evaluate_Prompt[OF ev request_commands_ne]
  show ?thesis
  proof (cases "ev_decision ev")
    case Allow
    then have all: "\<forall>cmd\<in>set (judged_commands a req owned). request_decision a p req owned cmd = Allow"
      using judged(1) by (simp add: request_decision_def)
    then have "list_all (\<lambda>cmd. \<exists>x\<in>set (applicable (ap_host a) p cmd resolving). rule_decision (fst x) = Allow)
        (judged_commands a req owned) \<longleftrightarrow>
        (\<forall>cmd\<in>set (judged_commands a req owned). \<exists>rule. rule_applies (ap_host a) p resolving cmd rule)"
      unfolding list_all_iff request_decision_def
      using applicable_all_Allow[OF assms, of "exec_policy_fallback a req owned" resolving] by (intro ball_cong) auto
    with Allow all show ?thesis by (simp add: eq requirement_for_def every_command_allowed_eq)
  next
    case Prompt
    with judged(2) have prompt: "(\<forall>cmd\<in>set (judged_commands a req owned). request_decision a p req owned cmd \<noteq> Forbidden)
        \<and> (\<exists>cmd\<in>set (judged_commands a req owned). request_decision a p req owned cmd = Prompt)"
      by (simp add: request_decision_def)
    moreover from prompt have "\<exists>cmd\<in>set (judged_commands a req owned). request_decision a p req owned cmd \<noteq> Allow"
      by force
    ultimately show ?thesis using Prompt by (auto simp: eq requirement_for_def split: option.splits)
  next
    case Forbidden
    with judged(1) have "\<exists>cmd\<in>set (judged_commands a req owned). request_decision a p req owned cmd \<noteq> Allow"
      by (auto simp: request_decision_def)
    with Forbidden show ?thesis by (simp add: eq requirement_for_def)
  qed
qed

lemma amendment_helps:
  assumes inv: "policy_inv (ap_host a) p"
    and ask: "classify_exec_approval_requirement a p req owned = Some (NeedsApproval reason (Some amendment))"
    and add: "add_prefix_rule (ap_host a) amendment Allow p = Ok p'"
  shows "\<exists>cmd\<in>set (judged_commands a req owned). request_decision a p req owned cmd = Prompt
          \<and> request_decision a p' req owned cmd = Allow"
proof -
  let ?h = "ap_host a" and ?cmds = "judged_commands a req owned" and ?fb = "exec_policy_fallback a req owned"
  obtain ev am where ev: "check_multiple_with_options ?h p ?cmds ?fb resolving = Some ev"
    and am: "(if ec_used_complex_parsing (request_commands a req owned) then Some None
      else derive_requested_execpolicy_amendment_from_prefix_rule ?h (rq_prefix_rule req)
             (ev_matched_rules ev) p ?cmds ?fb resolving) = Some am"
    and eq: "classify_exec_approval_requirement a p req owned =
       requirement_for a p req (policy_command req owned) (request_commands a req owned) am ev"
    by (rule classify_eq)
  from ask eq have prompt: "ev_decision ev = Prompt"
    and source: "am = Some amendment \<or>
        try_derive_execpolicy_amendment_for_prompt_rules (ev_matched_rules ev) = Some amendment"
    by (auto simp: requirement_for_def Let_def split: decision.splits option.splits if_splits)
  from source show ?thesis
  proof
    assume "am = Some amendment"
    with am add have "list_all (\<lambda>cmd. strictest ?h p' ?fb resolving cmd = Allow) ?cmds"
      by (auto simp: derive_requested_execpolicy_amendment_from_prefix_rule_def would_approve_eq Let_def
          split: if_splits option.splits list.splits)
    moreover obtain cmd where "cmd \<in> set ?cmds" "strictest ?h p ?fb resolving cmd = Prompt"
      using rules.evaluate_Prompt[OF ev request_commands_ne] prompt by blast
    ultimately show ?thesis by (auto simp: request_decision_def list_all_iff)
  next
    assume "try_derive_execpolicy_amendment_for_prompt_rules (ev_matched_rules ev) = Some amendment"
    then have "HeuristicsRuleMatch amendment Prompt \<in> set (ev_matched_rules ev)"
      by (auto simp: try_derive_execpolicy_amendment_for_prompt_rules_def dest: find_heuristic_Some split: if_splits)
    then obtain cmd where cmd: "cmd \<in> set ?cmds"
        "HeuristicsRuleMatch amendment Prompt \<in> set (command_matches ?h p ?fb resolving cmd)"
      unfolding check_multiple_matches[OF ev] by auto
    from heuristic_match[OF cmd(2)] have c: "amendment = cmd" "?fb cmd = Prompt" "applicable ?h p cmd resolving = []" by auto
    then have "strictest ?h p ?fb resolving cmd = Prompt" by (simp add: strictest_def)
    moreover have "strictest ?h p' ?fb resolving cmd = Allow"
      using added_rule_allows[OF inv add, of resolving ?fb] c no_rule_iff[OF inv, of cmd resolving] by simp
    ultimately show ?thesis using cmd(1) by (auto simp: request_decision_def)
  qed
qed

section \<open>Properties\<close>


text \<open>
  A machine for the witnesses: an empty policy, and requests for a command given as an argument
  vector, under a managed read-only sandbox.
\<close>

definition example_approval :: approval_env where
  "example_approval = \<lparr>ap_host = example_host, ap_shell = example_shell, ap_lookup = example_lookup,
     ap_is_root = (\<lambda>_. False), ap_debug = concat\<rparr>"

definition example_request :: "ask_for_approval \<Rightarrow> string list \<Rightarrow> exec_approval_request" where
  "example_request mode command = \<lparr>rq_command = command, rq_command_for_safety = None, rq_execution_context = None,
     rq_approval_policy = mode, rq_permission_profile = Managed (ManagedRestricted [] None) NetRestricted,
     rq_windows_sandbox_level = RestrictedToken, rq_sandbox_permissions = UseDefault, rq_prefix_rule = None\<rparr>"

lemma example_request_fields [simp]:
  "rq_execution_context (example_request mode command) = None"
  "rq_approval_policy (example_request mode command) = mode"
  "rq_permission_profile (example_request mode command) = Managed (ManagedRestricted [] None) NetRestricted"
  "rq_prefix_rule (example_request mode command) = None"
  by (simp_all add: example_request_def)

lemma example_commands [simp]:
  "request_commands example_approval (example_request mode command) False =
     \<lparr>ec_commands = [command], ec_used_complex_parsing = False, ec_command_origin = DirectArgv\<rparr>"
  by (simp add: request_commands_def policy_command_def example_request_def)

lemma example_approval_inv: "policy_inv (ap_host example_approval) (policy_empty example_host)"
  using policy_empty_inv[OF example_host_iterates] by (simp add: example_approval_def)

lemma example_no_rule: "\<not> rule_applies h (policy_empty example_host) options cmd r"
  by (simp add: rule_applies_def policy_empty_def policy_new_def from_shared_parts_def rules_in_def)

lemma example_not_read_only:
  "\<not> proven_read_only example_approval (unmatched_context example_approval (example_request mode command) False) command"
  by (simp add: proven_read_only_def unmatched_context_def filtered_context_def Let_def)


text \<open>
  C15: a dangerous command never runs unasked. When some command of a request matches no rule, is
  flagged by the danger heuristics and is not proven read-only in its launch state, the request is
  not skipped, unless the user both turned prompts off and disabled the sandbox; with prompts off it
  is refused.
\<close>

theorem dangerous_command_not_skipped:
  assumes "policy_inv (ap_host a) p" "cmd \<in> set (judged_commands a req owned)"
    and "\<not> (\<exists>rule. rule_applies (ap_host a) p resolving cmd rule)"
    and "flagged_dangerous a (ec_command_origin (request_commands a req owned)) cmd"
    and "\<not> proven_read_only a (unmatched_context a req owned) cmd"
    and "\<not> (rq_approval_policy req = Never \<and> sandbox_explicitly_disabled (rq_permission_profile req))"
  shows "\<exists>r. classify_exec_approval_requirement a p req owned = Some r
    \<and> (\<nexists>bypass amendment. r = Skip bypass amendment)
    \<and> (rq_approval_policy req = Never \<longrightarrow> (\<exists>reason. r = ForbiddenRequirement reason))"
proof -
  have "request_decision a p req owned cmd = exec_policy_fallback a req owned cmd"
    using no_rule_iff[OF assms(1), of cmd resolving] assms(3) by (simp add: request_decision_def strictest_def)
  also have "\<dots> \<noteq> Allow" using assms(4-6)
    by (auto simp: exec_policy_fallback_def render_decision_for_unmatched_command_def unmatched_context_def Let_def
        split: ask_for_approval.splits)
  finally have strict: "request_decision a p req owned cmd \<noteq> Allow" .
  from requirement_meaning[OF assms(1), of req owned] obtain r where
    r: "classify_exec_approval_requirement a p req owned = Some r" and meaning: "case r of
       Skip bypass _ \<Rightarrow>
         (\<forall>cmd\<in>set (judged_commands a req owned). request_decision a p req owned cmd = Allow)
         \<and> (bypass \<longleftrightarrow> (\<forall>cmd\<in>set (judged_commands a req owned). \<exists>rule. rule_applies (ap_host a) p resolving cmd rule))
     | NeedsApproval _ _ \<Rightarrow>
         (\<forall>cmd\<in>set (judged_commands a req owned). request_decision a p req owned cmd \<noteq> Forbidden)
         \<and> (\<exists>cmd\<in>set (judged_commands a req owned). request_decision a p req owned cmd = Prompt)
         \<and> rq_approval_policy req \<noteq> Never
     | ForbiddenRequirement _ \<Rightarrow>
         (\<exists>cmd\<in>set (judged_commands a req owned). request_decision a p req owned cmd \<noteq> Allow)"
    by blast
  from strict assms(2) r meaning show ?thesis by (cases r) auto
qed

lemma example_rm_dangerous: "flagged_dangerous example_approval DirectArgv [''sudo'', ''-u'', ''root'', ''rm'', ''-rf'', ''/'']"
proof -
  have "direct_argv_might_be_dangerous example_shell [''sudo'', ''-u'', ''root'', ''rm'', ''-rf'', ''/'']" by code_simp
  then show ?thesis by (simp add: example_approval_def)
qed

theorem dangerous_command_not_skipped_witness:
  "\<exists>reason. classify_exec_approval_requirement example_approval (policy_empty example_host)
     (example_request Never [''sudo'', ''-u'', ''root'', ''rm'', ''-rf'', ''/'']) False = Some (ForbiddenRequirement reason)"
  using dangerous_command_not_skipped[OF example_approval_inv, of "[''sudo'', ''-u'', ''root'', ''rm'', ''-rf'', ''/'']"
      "example_request Never [''sudo'', ''-u'', ''root'', ''rm'', ''-rf'', ''/'']" False]
    example_rm_dangerous example_no_rule example_not_read_only
  by (auto simp: sandbox_explicitly_disabled_def)

text \<open>
  C16: accepting a proposed amendment makes progress. When approval is asked with an amendment and the
  amendment is stored as a new rule, the policy stays well formed, no command is decided more strictly
  than before, and some command of the request that prompted is now allowed. So accepting amendments
  for the same request ends after at most as many steps as it has commands.
\<close>

theorem accepted_amendment_progress:
  assumes "policy_inv (ap_host a) (mgr_policy m)"
    and "classify_exec_approval_requirement a (mgr_policy m) req owned = Some (NeedsApproval reason (Some amendment))"
    and "already_allowed (ap_host a) (mgr_policy m) amendment = Some False"
    and "append_amendment_and_update (ap_host a) (Ok ()) amendment m = Some (m', Ok ())"
  shows "policy_inv (ap_host a) (mgr_policy m')
    \<and> (\<forall>cmd. request_decision a (mgr_policy m') req owned cmd \<le> request_decision a (mgr_policy m) req owned cmd)
    \<and> (\<exists>cmd\<in>set (judged_commands a req owned). request_decision a (mgr_policy m) req owned cmd = Prompt
          \<and> request_decision a (mgr_policy m') req owned cmd = Allow)"
proof -
  let ?h = "ap_host a" and ?p = "mgr_policy m" and ?p' = "mgr_policy m'"
  have add: "add_prefix_rule ?h amendment Allow ?p = Ok ?p'"
    using assms(3,4) by (auto simp: append_amendment_and_update_def split: result.splits)
  have "\<exists>cmd\<in>set (judged_commands a req owned). request_decision a ?p req owned cmd = Prompt
          \<and> request_decision a ?p' req owned cmd = Allow"
    by (rule amendment_helps[OF assms(1,2) add])
  then show ?thesis
    using add_prefix_rule_inv[OF assms(1) add] added_allow_not_stricter[OF assms(1) add]
    by (simp add: request_decision_def)
qed

lemma example_empty_applicable: "applicable example_host (policy_empty example_host) cmd options = []"
  using no_rule_iff[OF policy_empty_inv[OF example_host_iterates], of cmd options] example_no_rule by simp

lemma example_prompts:
  "exec_policy_fallback example_approval (example_request UnlessTrusted command) False command = Prompt"
  using example_not_read_only[of UnlessTrusted command]
  by (simp add: exec_policy_fallback_def render_decision_for_unmatched_command_def Let_def)
     (simp add: unmatched_context_def Let_def)

lemma example_asks:
  "\<exists>reason. classify_exec_approval_requirement example_approval (policy_empty example_host)
     (example_request UnlessTrusted [''make'']) False = Some (NeedsApproval reason (Some [''make'']))"
proof -
  have "check_multiple_with_options example_host (policy_empty example_host) [[''make'']]
      (exec_policy_fallback example_approval (example_request UnlessTrusted [''make'']) False) resolving =
    Some \<lparr>ev_decision = Prompt, ev_matched_rules = [HeuristicsRuleMatch [''make''] Prompt]\<rparr>"
    by (simp add: check_multiple_with_options_def matches_for_command_eq example_empty_applicable from_matches_def example_prompts)
  moreover have "ap_host example_approval = example_host" by (simp add: example_approval_def)
  ultimately show ?thesis
    by (simp add: classify_exec_approval_requirement_def requirement_for_def is_prompt_rule_match_def
        derive_requested_execpolicy_amendment_from_prefix_rule_def try_derive_execpolicy_amendment_for_prompt_rules_def)
qed

lemma example_make_added:
  "\<exists>p. add_prefix_rule example_host [''make''] Allow (policy_empty example_host) = Ok p"
proof -
  have "trim ''make'' \<noteq> []" by code_simp
  then show ?thesis by (simp add: add_prefix_rule_def validate_program_def Let_def)
qed

lemma example_not_yet_allowed: "already_allowed example_host (policy_empty example_host) [''make''] = Some False"
  by (simp add: already_allowed_def check_multiple_with_options_def matches_for_command_eq example_empty_applicable
      from_matches_def)

theorem accepted_amendment_progress_witness:
  "\<exists>m'. append_amendment_and_update example_host (Ok ()) [''make''] \<lparr>mgr_policy = policy_empty example_host\<rparr> = Some (m', Ok ())
     \<and> request_decision example_approval (mgr_policy m') (example_request UnlessTrusted [''make'']) False [''make''] = Allow"
proof -
  let ?m = "\<lparr>mgr_policy = policy_empty example_host\<rparr>" and ?r = "example_request UnlessTrusted [''make'']"
  have h: "ap_host example_approval = example_host" by (simp add: example_approval_def)
  obtain p where p: "append_amendment_and_update example_host (Ok ()) [''make''] ?m = Some (\<lparr>mgr_policy = p\<rparr>, Ok ())"
    using example_make_added by (auto simp: append_amendment_and_update_def example_not_yet_allowed)
  obtain reason where "classify_exec_approval_requirement example_approval (mgr_policy ?m) ?r False
      = Some (NeedsApproval reason (Some [''make'']))" using example_asks by auto
  from accepted_amendment_progress[OF _ this, of "\<lparr>mgr_policy = p\<rparr>"] p example_not_yet_allowed example_approval_inv
  show ?thesis by (auto simp: h)
qed

end
