(* ===== verification/Executor_Fs.thy ===== *)
theory Executor_Fs
  imports Exact_Edits
begin

text \<open>
  What patch application needs of the world around it: I/O errors, the file system behind
  \<^verbatim>\<open>ExecutorFileSystem\<close> (\<^verbatim>\<open>file-system/src/lib.rs\<close>), paths, and computations that read and change a
  state and may fail.

  \<^item> \<^verbatim>\<open>ExecutorFileSystem\<close> is a trait object, so its operations are the fields of the record
    \<open>executor_fs\<close>. The type \<open>'w\<close> of worlds is arbitrary, and every operation may change the world:
    other processes and failing devices are included. The sandbox context is part of the record.
  \<^item> A \<^verbatim>\<open>PathUri\<close> is its text; the operations of the path library are the record \<open>path_ops\<close>.
  \<^item> An \<^verbatim>\<open>async fn\<close> that returns a \<^verbatim>\<open>Result\<close> and works on \<^verbatim>\<open>&mut\<close> state is a \<open>computation\<close>: it returns the
    state it leaves behind also when it fails.
\<close>

section \<open>Errors and outcomes of the file system\<close>

datatype io_kind =
    NotFound | InvalidInput | InvalidData | Interrupted | WouldBlock | PermissionDenied | Unsupported
  | AlreadyExists | WriteZero
  | Other_Kind

record io_error =
  io_kind :: io_kind
  io_text :: string

datatype file_mutation_outcome =
    Committed | Unchanged | Conflict
  | RecoveryRequired string string

record file_metadata =
  md_is_directory :: bool
  md_is_file :: bool
  md_is_symlink :: bool

type_synonym uri = string

section \<open>Computations\<close>

type_synonym ('s, 'a, 'e) computation = "'s \<Rightarrow> ('a, 'e) result \<times> 's"

definition ret :: "'a \<Rightarrow> ('s, 'a, 'e) computation" where
  "ret a s = (Ok a, s)"

definition throw :: "'e \<Rightarrow> ('s, 'a, 'e) computation" where
  "throw e s = (Err e, s)"

definition bind :: "('s, 'a, 'e) computation \<Rightarrow> ('a \<Rightarrow> ('s, 'b, 'e) computation) \<Rightarrow> ('s, 'b, 'e) computation" where
  "bind m f s = (case m s of (Ok a, t) \<Rightarrow> f a t | (Err e, t) \<Rightarrow> (Err e, t))"

definition attempt :: "('s, 'a, 'e) computation \<Rightarrow> ('s, ('a, 'e) result, 'f) computation" where
  "attempt m s = (case m s of (r, t) \<Rightarrow> (Ok r, t))"

definition map_error :: "('e \<Rightarrow> 'f) \<Rightarrow> ('s, 'a, 'e) computation \<Rightarrow> ('s, 'a, 'f) computation" where
  "map_error f m s = (case m s of (r, t) \<Rightarrow> (map_err f r, t))"

definition gets :: "('s \<Rightarrow> 'a) \<Rightarrow> ('s, 'a, 'e) computation" where
  "gets f s = (Ok (f s), s)"

definition modify :: "('s \<Rightarrow> 's) \<Rightarrow> ('s, unit, 'e) computation" where
  "modify f s = (Ok (), f s)"

definition ensure :: "bool \<Rightarrow> 'e \<Rightarrow> ('s, unit, 'e) computation" where
  "ensure b e = (if b then ret () else throw e)"

definition of_result :: "('a, 'e) result \<Rightarrow> ('s, 'a, 'e) computation" where
  "of_result r s = (r, s)"

text \<open>\<^verbatim>\<open>for\<close> loops that thread a value.\<close>

fun loop :: "('b \<Rightarrow> 'x \<Rightarrow> ('s, 'b, 'e) computation) \<Rightarrow> 'b \<Rightarrow> 'x list \<Rightarrow> ('s, 'b, 'e) computation" where
  "loop body b [] = ret b"
| "loop body b (x # xs) = bind (body b x) (\<lambda>b. loop body b xs)"

section \<open>The file system and paths\<close>

record 'w executor_fs =
  fs_read_file :: "uri \<Rightarrow> ('w, string, io_error) computation"
  fs_get_metadata :: "uri \<Rightarrow> ('w, file_metadata, io_error) computation"
  fs_mutate_file_if_matches :: "uri \<Rightarrow> string option \<Rightarrow> string option \<Rightarrow>
    ('w, file_mutation_outcome, io_error) computation"
  fs_create_directory :: "uri \<Rightarrow> ('w, unit, io_error) computation"
  fs_canonicalize :: "uri \<Rightarrow> ('w, uri, io_error) computation"
  fs_directory_case_sensitive :: "uri \<Rightarrow> ('w, bool option, io_error) computation"
  fs_uses_host_native_paths :: bool

text \<open>
  \<^verbatim>\<open>String::from_utf8\<close> accepts the well-formed byte sequences of the Unicode standard. Its error also
  names the position of the first bad byte, which is left out here.
\<close>

definition in_bytes :: "char \<Rightarrow> nat \<Rightarrow> nat \<Rightarrow> bool" where
  "in_bytes c lo hi \<longleftrightarrow> lo \<le> (of_char c :: nat) \<and> (of_char c :: nat) \<le> hi"

fun valid_utf8 :: "string \<Rightarrow> bool" where
  "valid_utf8 [] \<longleftrightarrow> True"
| "valid_utf8 (a # s) \<longleftrightarrow>
     in_bytes a 0 0x7F \<and> valid_utf8 s
   \<or> (case s of
        b # s \<Rightarrow>
          in_bytes a 0xC2 0xDF \<and> in_bytes b 0x80 0xBF \<and> valid_utf8 s
        \<or> (case s of
             c # s \<Rightarrow>
               (in_bytes a 0xE0 0xE0 \<and> in_bytes b 0xA0 0xBF
                \<or> (in_bytes a 0xE1 0xEC \<or> in_bytes a 0xEE 0xEF) \<and> in_bytes b 0x80 0xBF
                \<or> in_bytes a 0xED 0xED \<and> in_bytes b 0x80 0x9F) \<and> in_bytes c 0x80 0xBF \<and> valid_utf8 s
             \<or> (case s of
                  d # s \<Rightarrow>
                    (in_bytes a 0xF0 0xF0 \<and> in_bytes b 0x90 0xBF
                     \<or> in_bytes a 0xF1 0xF3 \<and> in_bytes b 0x80 0xBF
                     \<or> in_bytes a 0xF4 0xF4 \<and> in_bytes b 0x80 0x8F)
                    \<and> in_bytes c 0x80 0xBF \<and> in_bytes d 0x80 0xBF \<and> valid_utf8 s
                | [] \<Rightarrow> False)
           | [] \<Rightarrow> False)
      | [] \<Rightarrow> False)"

definition read_file_text :: "('w, 'z) executor_fs_scheme \<Rightarrow> uri \<Rightarrow> ('w, string, io_error) computation" where
  "read_file_text fs path =
     bind (fs_read_file fs path) (\<lambda>bytes.
       if valid_utf8 bytes then ret bytes
       else throw \<lparr>io_kind = InvalidData, io_text = ''invalid utf-8 sequence''\<rparr>)"

text \<open>
  \<open>po_parents\<close> lists the parents of a path, nearest first (\<^verbatim>\<open>ancestors\<close> without the path itself), so
  \<^verbatim>\<open>parent()\<close> is its head.
\<close>

record path_ops =
  po_join :: "uri \<Rightarrow> string \<Rightarrow> (uri, string) result"
  po_parents :: "uri \<Rightarrow> uri list"
  po_basename :: "uri \<Rightarrow> string option"
  po_native :: "uri \<Rightarrow> string"
  po_path_buf :: "uri \<Rightarrow> string"
  po_windows :: "uri \<Rightarrow> bool"
  po_lowercase :: "string \<Rightarrow> string"
  po_extension :: "string \<Rightarrow> string option"

end
