(* ===== verification/Patch_Manifest.thy ===== *)
theory Patch_Manifest
  imports Executor_Fs
begin

text \<open>
  \<^verbatim>\<open>apply-patch/src/manifest.rs\<close>: for every endpoint of a patch, what was known of its bytes before and
  after, and how the operation on it ended. The manifest is filled while hunks are applied and rolled
  back; \<open>snapshot\<close> merges the entries of each path. The methods on \<^verbatim>\<open>&mut self\<close> return the manifest. A
  \<^verbatim>\<open>BTreeMap\<close> that is only looked up and filled is a map.
\<close>

section \<open>Data\<close>

datatype patch_byte_identity =
    Bytes_Unknown
  | Bytes_Absent
  | Bytes_Present string "nat option"

datatype patch_file_outcome =
    Out_Committed | Out_Unchanged | Out_Failed | Out_Unattempted | Out_Uncertain

record applied_patch_write_receipt =
  rc_sha256 :: string
  rc_bytes :: nat

record patch_manifest_entry =
  me_path :: string
  me_operation :: string
  me_hunk_ordinal :: nat
  me_hunk_ordinals :: "nat list"
  me_operations :: "string list"
  me_role :: "string option"
  me_before :: patch_byte_identity
  me_after :: patch_byte_identity
  me_outcome :: patch_file_outcome
  me_rolled_back :: bool

record patch_manifest =
  mf_entries :: "patch_manifest_entry list"
  mf_active_hunk :: "nat option"
  mf_rolling_back :: bool
  mf_final_identities :: "string \<rightharpoonup> patch_byte_identity"

definition default_manifest :: patch_manifest where
  "default_manifest = \<lparr>mf_entries = [], mf_active_hunk = None, mf_rolling_back = False, mf_final_identities = Map.empty\<rparr>"

definition from_receipt :: "applied_patch_write_receipt option \<Rightarrow> patch_byte_identity" where
  "from_receipt receipt =
     (case receipt of None \<Rightarrow> Bytes_Absent | Some r \<Rightarrow> Bytes_Present (rc_sha256 r) (Some (rc_bytes r)))"

definition from_content :: "(string \<Rightarrow> string) \<Rightarrow> string option \<Rightarrow> patch_byte_identity" where
  "from_content sha256 content =
     (case content of None \<Rightarrow> Bytes_Absent | Some c \<Rightarrow> Bytes_Present (sha256 c) (Some (length c)))"

section \<open>Paths of hunks\<close>

fun hunk_path :: "hunk \<Rightarrow> path" where
  "hunk_path (AddFile p contents) = p"
| "hunk_path (DeleteFile p) = p"
| "hunk_path (UpdateFile p (Some moved) chunks) = moved"
| "hunk_path (UpdateFile p None chunks) = p"

fun resolve_path :: "path_ops \<Rightarrow> uri \<Rightarrow> hunk \<Rightarrow> (uri, string) result" where
  "resolve_path po cwd (UpdateFile p moved chunks) = po_join po cwd p"
| "resolve_path po cwd h = po_join po cwd (hunk_path h)"

section \<open>A new manifest\<close>

fun hunk_operation :: "hunk \<Rightarrow> string" where
  "hunk_operation (AddFile p contents) = ''add''"
| "hunk_operation (DeleteFile p) = ''delete''"
| "hunk_operation (UpdateFile p (Some moved) chunks) = ''move''"
| "hunk_operation (UpdateFile p None chunks) = ''update''"

fun hunk_destination :: "hunk \<Rightarrow> path option" where
  "hunk_destination (UpdateFile p moved chunks) = moved"
| "hunk_destination h = None"

definition new_entry :: "nat \<Rightarrow> string \<Rightarrow> string \<Rightarrow> string option \<Rightarrow> patch_manifest_entry" where
  "new_entry index operation path role =
     \<lparr>me_path = path, me_operation = operation, me_hunk_ordinal = index + 1, me_hunk_ordinals = [index + 1],
      me_operations = [operation], me_role = role, me_before = Bytes_Unknown, me_after = Bytes_Unknown,
      me_outcome = Out_Unattempted, me_rolled_back = False\<rparr>"

definition hunk_entries :: "path_ops \<Rightarrow> uri \<Rightarrow> nat \<times> hunk \<Rightarrow> patch_manifest_entry list" where
  "hunk_entries po cwd = (\<lambda>(index, h).
     (let source = (case resolve_path po cwd h of Ok path \<Rightarrow> path | Err _ \<Rightarrow> hunk_path h);
          entry = new_entry index (hunk_operation h)
      in case hunk_destination h of
           Some dest \<Rightarrow>
             [entry (case po_join po cwd dest of Ok path \<Rightarrow> path | Err _ \<Rightarrow> dest) (Some ''destination''),
              entry source (Some ''source'')]
         | None \<Rightarrow> [entry source None]))"

definition manifest_new :: "path_ops \<Rightarrow> uri \<Rightarrow> hunk list \<Rightarrow> patch_manifest" where
  "manifest_new po cwd hunks =
     default_manifest\<lparr>mf_entries := concat (map (hunk_entries po cwd) (enumerate 0 hunks))\<rparr>"

definition begin_hunk :: "nat \<Rightarrow> patch_manifest \<Rightarrow> patch_manifest" where
  "begin_hunk index m = m\<lparr>mf_active_hunk := Some (index + 1)\<rparr>"

definition finish_hunk :: "patch_manifest \<Rightarrow> patch_manifest" where
  "finish_hunk m = m\<lparr>mf_active_hunk := None\<rparr>"

section \<open>Recording outcomes\<close>

text \<open>\<^verbatim>\<open>iter_mut().rev().find\<close> followed by an update of what was found.\<close>

fun update_first :: "('a \<Rightarrow> bool) \<Rightarrow> ('a \<Rightarrow> 'a) \<Rightarrow> 'a list \<Rightarrow> 'a list" where
  "update_first P f [] = []"
| "update_first P f (x # xs) = (if P x then f x # xs else x # update_first P f xs)"

definition update_last :: "('a \<Rightarrow> bool) \<Rightarrow> ('a \<Rightarrow> 'a) \<Rightarrow> 'a list \<Rightarrow> 'a list" where
  "update_last P f xs = rev (update_first P f (rev xs))"

definition is_target :: "patch_manifest \<Rightarrow> uri \<Rightarrow> patch_manifest_entry \<Rightarrow> bool" where
  "is_target m path e \<longleftrightarrow> me_path e = path
     \<and> (if mf_rolling_back m then \<not> me_rolled_back e \<and> me_outcome e = Out_Committed
        else Some (me_hunk_ordinal e) = mf_active_hunk m)"

definition uncertain :: "uri \<Rightarrow> patch_manifest \<Rightarrow> patch_manifest" where
  "uncertain path m =
     m\<lparr>mf_entries := update_last (is_target m path)
         (\<lambda>e. e\<lparr>me_outcome := Out_Uncertain, me_after := Bytes_Unknown\<rparr>) (mf_entries m),
       mf_final_identities := (mf_final_identities m)(path \<mapsto> Bytes_Unknown)\<rparr>"

definition confirm_no_write :: "(string \<Rightarrow> string) \<Rightarrow> uri \<Rightarrow> string option \<Rightarrow> patch_manifest \<Rightarrow> patch_manifest" where
  "confirm_no_write sha256 path expected m =
     m\<lparr>mf_entries := update_last
         (\<lambda>e. me_path e = path
            \<and> (if mf_rolling_back m then \<not> me_rolled_back e \<and> me_outcome e = Out_Uncertain
               else Some (me_hunk_ordinal e) = mf_active_hunk m))
         (\<lambda>e. if mf_rolling_back m
              then e\<lparr>me_after := from_content sha256 expected, me_outcome := Out_Committed\<rparr>
              else e\<lparr>me_after := from_content sha256 expected, me_before := from_content sha256 expected,
                     me_outcome := Out_Failed\<rparr>) (mf_entries m),
       mf_final_identities := (mf_final_identities m)(path \<mapsto> from_content sha256 expected)\<rparr>"

definition recorded_entry :: "(string \<Rightarrow> string) \<Rightarrow> bool \<Rightarrow> string option \<Rightarrow> applied_patch_write_receipt option \<Rightarrow>
    file_mutation_outcome \<Rightarrow> patch_manifest_entry \<Rightarrow> patch_manifest_entry" where
  "recorded_entry sha256 rolling_back expected replacement outcome e =
     (case outcome of
        Conflict \<Rightarrow> e\<lparr>me_outcome := (if rolling_back then Out_Uncertain else Out_Failed), me_after := Bytes_Unknown\<rparr>
      | RecoveryRequired retained message \<Rightarrow> e\<lparr>me_outcome := Out_Uncertain, me_after := Bytes_Unknown\<rparr>
      | done_or_same \<Rightarrow>
          (let before = (if rolling_back then me_before e else from_content sha256 expected);
               after = from_receipt replacement
           in e\<lparr>me_before := before, me_after := after,
                me_outcome := (if rolling_back \<and> before = after \<or> outcome = Unchanged
                               then Out_Unchanged else Out_Committed),
                me_rolled_back := me_rolled_back e \<or> rolling_back\<rparr>))"

definition record_outcome :: "(string \<Rightarrow> string) \<Rightarrow> uri \<Rightarrow> string option \<Rightarrow> applied_patch_write_receipt option \<Rightarrow>
    file_mutation_outcome \<Rightarrow> patch_manifest \<Rightarrow> patch_manifest" where
  "record_outcome sha256 path expected replacement outcome m =
     (case find (is_target m path) (rev (mf_entries m)) of
        None \<Rightarrow> m
      | Some e \<Rightarrow>
          m\<lparr>mf_entries := update_last (is_target m path)
              (recorded_entry sha256 (mf_rolling_back m) expected replacement outcome) (mf_entries m),
            mf_final_identities := (mf_final_identities m)(path \<mapsto>
              me_after (recorded_entry sha256 (mf_rolling_back m) expected replacement outcome e))\<rparr>)"

section \<open>Rejection\<close>

record patch_context_mismatch =
  mm_kind :: patch_context_mismatch_kind
  mm_hunk_ordinal :: nat
  mm_chunk_ordinal :: nat
  mm_canonical_path :: string
  mm_current_content_sha256 :: string
  mm_current_line_start :: nat
  mm_current_line_end :: nat
  mm_current_excerpt :: string
  mm_expected_excerpt :: string
  mm_expected_source_sha256 :: "string option"
  mm_candidate_locations :: "(nat \<times> nat) list"
  mm_message :: string
  mm_edits_result_of_hunk :: "nat option"

definition reject_entry :: "patch_context_mismatch \<Rightarrow> patch_manifest_entry \<Rightarrow> patch_manifest_entry" where
  "reject_entry mm e =
     (if me_hunk_ordinal e = mm_hunk_ordinal mm \<and> me_path e = mm_canonical_path mm then
        (if mm_edits_result_of_hunk mm = None
         then e\<lparr>me_outcome := Out_Failed, me_before := Bytes_Present (mm_current_content_sha256 mm) None,
                me_after := Bytes_Present (mm_current_content_sha256 mm) None\<rparr>
         else e\<lparr>me_outcome := Out_Failed\<rparr>)
      else e)"

definition reject :: "patch_context_mismatch list \<Rightarrow> patch_manifest \<Rightarrow> patch_manifest" where
  "reject mismatches m =
     (let entries = fold (\<lambda>mm. map (reject_entry mm)) mismatches (mf_entries m)
      in m\<lparr>mf_entries :=
        (case mf_active_hunk m of
           None \<Rightarrow> entries
         | Some h \<Rightarrow>
             if list_ex (\<lambda>e. me_hunk_ordinal e = h \<and> (me_outcome e = Out_Failed \<or> me_outcome e = Out_Uncertain)) entries
             then entries
             else update_first (\<lambda>e. me_hunk_ordinal e = h \<and> me_outcome e = Out_Unattempted)
                    (\<lambda>e. e\<lparr>me_outcome := Out_Failed\<rparr>) entries)\<rparr>)"

section \<open>The report\<close>

definition merge_entry :: "patch_manifest_entry \<Rightarrow> patch_manifest_entry \<Rightarrow> patch_manifest_entry" where
  "merge_entry entry file =
     file\<lparr>me_before := (if me_outcome file = Out_Unattempted then me_before entry else me_before file),
          me_hunk_ordinals := (if me_hunk_ordinal entry \<in> set (me_hunk_ordinals file) then me_hunk_ordinals file
                               else me_hunk_ordinals file @ [me_hunk_ordinal entry]),
          me_operations := (if me_operation entry \<in> set (me_operations file) then me_operations file
                            else me_operations file @ [me_operation entry]),
          me_operation := me_operation entry, me_role := me_role entry,
          me_rolled_back := me_rolled_back file \<or> me_rolled_back entry,
          me_after := (if me_outcome entry \<noteq> Out_Unattempted then me_after entry else me_after file),
          me_outcome := (if me_outcome entry \<noteq> Out_Unattempted then me_outcome entry else me_outcome file)\<rparr>"

definition add_entry :: "patch_manifest_entry \<Rightarrow> patch_manifest_entry list \<Rightarrow> patch_manifest_entry list" where
  "add_entry entry files =
     (if list_ex (\<lambda>file. me_path file = me_path entry) files
      then update_first (\<lambda>file. me_path file = me_path entry) (merge_entry entry) files
      else files @ [entry])"

definition finish_entry :: "patch_manifest \<Rightarrow> patch_manifest_entry \<Rightarrow> patch_manifest_entry" where
  "finish_entry m file =
     (let affected_or_uncertain = list_ex (\<lambda>e. me_path e = me_path file
            \<and> (me_outcome e = Out_Committed \<or> me_outcome e = Out_Uncertain)) (mf_entries m);
          file' = (case mf_final_identities m (me_path file) of
             None \<Rightarrow> file
           | Some after \<Rightarrow>
               file\<lparr>me_after := after,
                    me_outcome :=
                      (if after = Bytes_Unknown then (if affected_or_uncertain then Out_Uncertain else Out_Failed)
                       else if me_before file \<noteq> after then Out_Committed
                       else if me_outcome file = Out_Failed then Out_Failed
                       else Out_Unchanged)\<rparr>)
      in file'\<lparr>me_rolled_back := me_rolled_back file' \<and> me_before file' = me_after file' \<and> me_after file' \<noteq> Bytes_Unknown\<rparr>)"

definition snapshot :: "patch_manifest \<Rightarrow> patch_manifest_entry list" where
  "snapshot m = map (finish_entry m) (fold add_entry (mf_entries m) [])"

end
