(* ===== verification/Patch_Endpoints.thy ===== *)
theory Patch_Endpoints
  imports Patch_Manifest
begin

text \<open>
  The endpoints of a patch: errors of its application, the identity of a path that is about to be
  written and the rule that every endpoint is mutated once (\<^verbatim>\<open>apply-patch/src/invocation.rs\<close>), and the
  leases that exclude other patch processes (\<^verbatim>\<open>transaction.rs\<close>).

  \<open>apply_env\<close> holds the functions that are not modelled: the edit environment, the path library, the
  message and the excerpt of a mismatch report, the verdict of the JSON parser and the rendering of
  an error chain. \<open>apply_host\<close> extends the file system by what the process does outside it.
\<close>

section \<open>Errors\<close>

datatype apply_error =
    Parse_Error parse_error
  | Io_Error string io_error
  | Compute_Replacements string
  | Guard_Mismatch string
  | Multiple_Patch_Conflicts string "patch_context_mismatch list"
  | Context_Mismatch patch_context_mismatch
  | Path_Uri string
  | Panic

datatype error_cause =
    Cause_Apply apply_error
  | Cause_Io io_error
  | No_Write_Conflict uri
  | Recovery_Required uri string string
  | Cause_Text string

record any_error =
  er_contexts :: "string list"
  er_cause :: error_cause

definition cause :: "error_cause \<Rightarrow> any_error" where
  "cause c = \<lparr>er_contexts = [], er_cause = c\<rparr>"

definition with_context :: "string \<Rightarrow> any_error \<Rightarrow> any_error" where
  "with_context text e = e\<lparr>er_contexts := text # er_contexts e\<rparr>"

definition from_apply :: "apply_error \<Rightarrow> any_error" where
  "from_apply e = cause (Cause_Apply e)"

definition from_io :: "io_error \<Rightarrow> any_error" where
  "from_io e = cause (Cause_Io e)"

definition from_text :: "string \<Rightarrow> any_error" where
  "from_text text = cause (Cause_Text text)"

definition io_to_apply :: "io_error \<Rightarrow> apply_error" where
  "io_to_apply e = Io_Error ''I/O error'' e"

section \<open>The environment\<close>

record apply_env =
  en_edit :: edit_environment
  en_paths :: path_ops
  en_mismatch_report :: "string \<Rightarrow> update_file_chunk list \<Rightarrow> patch_context_mismatch_kind \<Rightarrow> nat \<Rightarrow>
    string \<times> (nat \<times> nat \<times> string) option"
  en_json_error :: "string \<Rightarrow> string option"
  en_chain_text :: "any_error \<Rightarrow> string"
  en_windows :: bool

record 'w apply_host = "'w executor_fs" +
  ah_symlink_metadata :: "uri \<Rightarrow> 'w \<Rightarrow> (bool \<times> bool \<times> bool) option \<times> 'w"
  ah_is_cancelled :: "'w \<Rightarrow> bool \<times> 'w"
  ah_stdout :: "string \<Rightarrow> ('w, unit, io_error) computation"
  ah_stderr :: "string \<Rightarrow> ('w, unit, io_error) computation"
  ah_lease_directory :: "('w, string, io_error) computation"
  ah_open_lease :: "string \<Rightarrow> string \<Rightarrow> ('w, unit, io_error) computation"
  ah_try_lock :: "string \<Rightarrow> string \<Rightarrow> bool \<Rightarrow> ('w, bool, io_error) computation"

abbreviation en_sha256 :: "apply_env \<Rightarrow> string \<Rightarrow> string" where
  "en_sha256 env \<equiv> env_sha256 (en_edit env)"

abbreviation native :: "apply_env \<Rightarrow> uri \<Rightarrow> string" where
  "native env \<equiv> po_native (en_paths env)"

section \<open>Endpoint identity\<close>

definition inspect_endpoint :: "apply_env \<Rightarrow> ('w, 'z) executor_fs_scheme \<Rightarrow> uri \<Rightarrow> uri \<Rightarrow> io_error \<Rightarrow>
    ('w, unit, apply_error) computation" where
  "inspect_endpoint env fs path candidate missing =
     bind (attempt (fs_get_metadata fs candidate)) (\<lambda>r.
       case r of
         Ok md \<Rightarrow>
           if md_is_symlink md
           then throw (Io_Error (''Refusing unresolved symlink mutation endpoint '' @ native env path) missing)
           else ret ()
       | Err e \<Rightarrow>
           if io_kind e = NotFound then ret ()
           else throw (Io_Error (''Failed to inspect mutation endpoint '' @ native env path) e))"

text \<open>The loop to the closest existing ancestor; the result lists the missing segments, outermost first.\<close>

fun resolve_endpoint :: "apply_env \<Rightarrow> ('w, 'z) executor_fs_scheme \<Rightarrow> uri \<Rightarrow> string list \<Rightarrow> uri list \<Rightarrow>
    ('w, uri \<times> string list, apply_error) computation" where
  "resolve_endpoint env fs path missing_segments [] =
     throw (Io_Error (''Failed to resolve mutation endpoint '' @ native env path)
       \<lparr>io_kind = NotFound, io_text = ''no existing ancestor for mutation endpoint''\<rparr>)"
| "resolve_endpoint env fs path missing_segments (candidate # parents) =
     bind (attempt (fs_canonicalize fs candidate)) (\<lambda>r.
       case r of
         Ok resolved \<Rightarrow> ret (resolved, missing_segments)
       | Err e \<Rightarrow>
           if io_kind e = NotFound then
             bind (inspect_endpoint env fs path candidate e) (\<lambda>_.
               case po_basename (en_paths env) candidate of
                 None \<Rightarrow> resolve_endpoint env fs path missing_segments []
               | Some segment \<Rightarrow> resolve_endpoint env fs path (segment # missing_segments) parents)
           else throw (Io_Error (''Failed to resolve mutation endpoint '' @ native env path) e))"

fun join_segments :: "apply_env \<Rightarrow> bool \<Rightarrow> bool \<Rightarrow> uri \<Rightarrow> string list \<Rightarrow> (uri, apply_error) result" where
  "join_segments env windows sensitive resolved [] = Ok resolved"
| "join_segments env windows sensitive resolved (segment # rest) =
     and_then (map_err Path_Uri (po_join (en_paths env) resolved
         (if windows \<and> \<not> sensitive then po_lowercase (en_paths env) segment else segment))) (\<lambda>resolved.
       join_segments env windows False resolved rest)"

definition mutation_endpoint_identity :: "apply_env \<Rightarrow> ('w, 'z) executor_fs_scheme \<Rightarrow> uri \<Rightarrow>
    ('w, string, apply_error) computation" where
  "mutation_endpoint_identity env fs path =
     bind (resolve_endpoint env fs path [] (path # po_parents (en_paths env) path)) (\<lambda>(resolved, missing_segments).
       (let windows = po_windows (en_paths env) resolved in
        bind (if windows \<and> missing_segments \<noteq> []
              then bind (attempt (fs_directory_case_sensitive fs resolved)) (\<lambda>r. ret (r = Ok (Some True)))
              else ret (\<not> windows)) (\<lambda>sensitive.
          of_result (join_segments env windows sensitive resolved missing_segments))))"

section \<open>Every endpoint once\<close>

record endpoint_use =
  eu_path :: uri
  eu_hunk :: nat
  eu_in_place :: bool
  eu_snapshot_guarded :: bool

fun is_in_place :: "hunk \<Rightarrow> bool" where
  "is_in_place (UpdateFile p None chunks) = True"
| "is_in_place h = False"

fun is_snapshot_guarded :: "hunk \<Rightarrow> bool" where
  "is_snapshot_guarded (UpdateFile p moved chunks) =
     list_ex (\<lambda>chunk. is_anchor_chunk chunk \<or> is_counted_chunk chunk) chunks"
| "is_snapshot_guarded h = False"

type_synonym endpoint_table = "(string \<rightharpoonup> endpoint_use) \<times> nat option list"

definition claim_endpoint :: "apply_env \<Rightarrow> ('w, 'z) executor_fs_scheme \<Rightarrow> nat \<Rightarrow> hunk \<Rightarrow> endpoint_table \<Rightarrow> uri \<Rightarrow>
    ('w, endpoint_table, apply_error) computation" where
  "claim_endpoint env fs hunk_index h = (\<lambda>(endpoints, previous_updates) path.
     bind (mutation_endpoint_identity env fs path) (\<lambda>identity.
       (let here = \<lparr>eu_path = path, eu_hunk = hunk_index + 1, eu_in_place = is_in_place h,
                    eu_snapshot_guarded = is_snapshot_guarded h\<rparr>;
            endpoints' = endpoints(identity \<mapsto> here)
        in case endpoints identity of
             None \<Rightarrow> ret (endpoints', previous_updates)
           | Some previous \<Rightarrow>
               if is_in_place h \<and> eu_in_place previous \<and> \<not> is_snapshot_guarded h \<and> \<not> eu_snapshot_guarded previous
               then ret (endpoints', previous_updates[hunk_index := Some (eu_hunk previous - 1)])
               else throw (Parse_Error (InvalidPatchError
                 ((if eu_hunk previous = hunk_index + 1
                   then ''move source and destination identify the same path; '' else []) @
                  ''path '' @ quoted (native env path) @ '' (hunk '' @ show_nat (hunk_index + 1) @
                  '') is mutated more than once in the same patch; it identifies the same endpoint as '' @
                  quoted (native env (eu_path previous)) @ '' (hunk '' @ show_nat (eu_hunk previous) @
                  ''). Combine edits into one Update File hunk, including edits to a move destination.''))))))"

definition join_destination :: "apply_env \<Rightarrow> uri \<Rightarrow> hunk \<Rightarrow> (uri option, apply_error) result" where
  "join_destination env cwd h =
     (case hunk_destination h of
        None \<Rightarrow> Ok None
      | Some dest \<Rightarrow> and_then (map_err Path_Uri (po_join (en_paths env) cwd dest)) (\<lambda>path. Ok (Some path)))"

definition hunk_source :: "apply_env \<Rightarrow> uri \<Rightarrow> hunk \<Rightarrow> (uri, apply_error) result" where
  "hunk_source env cwd h = map_err Path_Uri (resolve_path (en_paths env) cwd h)"

definition claim_hunk :: "apply_env \<Rightarrow> ('w, 'z) executor_fs_scheme \<Rightarrow> uri \<Rightarrow> endpoint_table \<Rightarrow> nat \<times> hunk \<Rightarrow>
    ('w, endpoint_table, apply_error) computation" where
  "claim_hunk env fs cwd table = (\<lambda>(hunk_index, h).
     bind (of_result (hunk_source env cwd h)) (\<lambda>source_path.
       bind (of_result (join_destination env cwd h)) (\<lambda>move_path.
         loop (claim_endpoint env fs hunk_index h) table
           (source_path # (case move_path of None \<Rightarrow> [] | Some path \<Rightarrow> [path])))))"

definition validate_mutation_endpoints :: "apply_env \<Rightarrow> ('w, 'z) executor_fs_scheme \<Rightarrow> uri \<Rightarrow> hunk list \<Rightarrow>
    ('w, nat option list, apply_error) computation" where
  "validate_mutation_endpoints env fs cwd hunks =
     bind (loop (claim_hunk env fs cwd) (Map.empty, replicate (length hunks) None) (enumerate 0 hunks))
       (\<lambda>(endpoints, previous_updates). ret previous_updates)"

section \<open>Leases\<close>

text \<open>A \<^verbatim>\<open>BTreeMap\<close> that is iterated is the sorted list of its entries.\<close>

fun bt_insert :: "'k::linorder \<Rightarrow> 'v \<Rightarrow> ('k \<times> 'v) list \<Rightarrow> ('k \<times> 'v) list" where
  "bt_insert k v [] = [(k, v)]"
| "bt_insert k v ((j, u) # xs) =
     (if k < j then (k, v) # (j, u) # xs else if k = j then (k, v) # xs else (j, u) # bt_insert k v xs)"

definition bt_or_insert :: "'k::linorder \<Rightarrow> 'v \<Rightarrow> ('k \<times> 'v) list \<Rightarrow> ('k \<times> 'v) list" where
  "bt_or_insert k v xs = (case map_of xs k of Some _ \<Rightarrow> xs | None \<Rightarrow> bt_insert k v xs)"

definition lease_key :: "apply_env \<Rightarrow> string \<Rightarrow> string" where
  "lease_key env identity = (if en_windows env then po_lowercase (en_paths env) identity else identity)"

definition lease_of :: "apply_env \<Rightarrow> ('w, 'z) executor_fs_scheme \<Rightarrow> uri \<Rightarrow> ('w, string, any_error) computation" where
  "lease_of env fs path =
     bind (map_error from_apply (mutation_endpoint_identity env fs path)) (\<lambda>identity. ret (lease_key env identity))"

definition join_any :: "apply_env \<Rightarrow> uri \<Rightarrow> string \<Rightarrow> (uri, any_error) result" where
  "join_any env cwd path = map_err from_text (po_join (en_paths env) cwd path)"

definition hunk_leases :: "apply_env \<Rightarrow> ('w, 'z) executor_fs_scheme \<Rightarrow> uri \<Rightarrow> (string \<times> bool) list \<Rightarrow> hunk \<Rightarrow>
    ('w, (string \<times> bool) list, any_error) computation" where
  "hunk_leases env fs cwd endpoints h =
     bind (of_result (map_err from_text (resolve_path (en_paths env) cwd h))) (\<lambda>source.
       bind (lease_of env fs source) (\<lambda>key.
         (let endpoints = bt_insert key True endpoints in
          case hunk_destination h of
            None \<Rightarrow> ret endpoints
          | Some dest \<Rightarrow>
              bind (of_result (join_any env cwd dest)) (\<lambda>destination.
                bind (lease_of env fs destination) (\<lambda>key. ret (bt_insert key True endpoints))))))"

definition guard_leases :: "apply_env \<Rightarrow> ('w, 'z) executor_fs_scheme \<Rightarrow> uri \<Rightarrow> (string \<times> bool) list \<Rightarrow>
    file_revision_guard \<Rightarrow> ('w, (string \<times> bool) list, any_error) computation" where
  "guard_leases env fs cwd endpoints guard =
     bind (of_result (join_any env cwd (guard_path guard))) (\<lambda>path.
       bind (lease_of env fs path) (\<lambda>key. ret (bt_or_insert key False endpoints)))"

definition identities :: "apply_env \<Rightarrow> ('w, 'z) executor_fs_scheme \<Rightarrow> uri \<Rightarrow> hunk list \<Rightarrow> file_revision_guard list \<Rightarrow>
    ('w, (string \<times> bool) list, any_error) computation" where
  "identities env fs cwd hunks guards =
     bind (loop (hunk_leases env fs cwd) [] hunks) (\<lambda>endpoints. loop (guard_leases env fs cwd) endpoints guards)"

definition lock_lease :: "apply_env \<Rightarrow> ('w, 'z) apply_host_scheme \<Rightarrow> string \<Rightarrow> string list \<Rightarrow> string \<times> bool \<Rightarrow>
    ('w, string list, io_error) computation" where
  "lock_lease env host directory locks = (\<lambda>(key, mutated).
     (let digest = en_sha256 env key in
      bind (ah_open_lease host directory digest) (\<lambda>_.
        bind (ah_try_lock host directory digest mutated) (\<lambda>locked.
          if locked then ret (locks @ [digest])
          else throw \<lparr>io_kind = WouldBlock, io_text =
            ''apply_patch: an endpoint is busy in another patch process. No files were changed by this attempt; retry after its owner finishes.''\<rparr>))))"

text \<open>A transaction is the list of lease files it holds; it holds them until it is dropped.\<close>

definition acquire :: "apply_env \<Rightarrow> ('w, 'z) apply_host_scheme \<Rightarrow> uri \<Rightarrow> hunk list \<Rightarrow> file_revision_guard list \<Rightarrow>
    ('w, string list option, any_error) computation" where
  "acquire env host cwd hunks guards =
     (if \<not> fs_uses_host_native_paths host then ret None
      else
        bind (identities env host cwd hunks guards) (\<lambda>endpoints.
          bind (map_error from_io (bind (ah_lease_directory host) (\<lambda>directory.
                  loop (lock_lease env host directory) [] endpoints))) (\<lambda>transaction.
            bind (identities env host cwd hunks guards) (\<lambda>endpoints'.
              bind (ensure (endpoints' = endpoints)
                (from_text ''patch endpoint aliases changed during admission; no files were changed'')) (\<lambda>_.
                ret (Some transaction))))))"

end
