(* ===== verification/Patch_Prepare.thy ===== *)
theory Patch_Prepare
  imports Patch_Endpoints
begin

text \<open>
  What \<^verbatim>\<open>apply-patch/src/lib.rs\<close> does before the first write: the revision guards, the contents every hunk
  will write, the contents it will displace, and the checks that a verified patch still means the same.

  The report of a mismatch is built from the kind and the chunk the matcher reports; its message and
  its excerpt of the file come from \<open>en_mismatch_report\<close>.
\<close>

section \<open>Mismatch reports\<close>

definition located_patch_mismatch :: "apply_env \<Rightarrow> uri \<Rightarrow> string \<Rightarrow> update_file_chunk list \<Rightarrow> nat \<Rightarrow>
    patch_context_mismatch_kind \<Rightarrow> nat \<Rightarrow> patch_context_mismatch" where
  "located_patch_mismatch env path original chunks hunk_ordinal kind chunk_ordinal =
     (let (message, excerpt) = en_mismatch_report env original chunks kind chunk_ordinal;
          (line_start, line_end, text) = (case excerpt of Some e \<Rightarrow> e | None \<Rightarrow> (0, 0, []));
          chunk = (if chunk_ordinal - 1 < length chunks then Some (chunks ! (chunk_ordinal - 1)) else None)
      in \<lparr>mm_kind = kind, mm_hunk_ordinal = hunk_ordinal, mm_chunk_ordinal = chunk_ordinal,
          mm_canonical_path = path, mm_current_content_sha256 = en_sha256 env original,
          mm_current_line_start = line_start, mm_current_line_end = line_end, mm_current_excerpt = text,
          mm_expected_excerpt =
            (case chunk of
               None \<Rightarrow> []
             | Some c \<Rightarrow>
                 if old_lines c = []
                 then bounded_expected_lines (case change_context c of
                        Some ctx \<Rightarrow> if starts_with RANGE_PREFIX ctx then [] else [ctx] | None \<Rightarrow> [])
                 else bounded_expected_lines (old_lines c)),
          mm_expected_source_sha256 =
            Option.bind (Option.bind (Option.bind chunk range_handle) (split_once '' sha256:'')) (\<lambda>(_, hash).
              case source_hash_parse hash of Ok (SourceHashRef h) \<Rightarrow> Some h | Err _ \<Rightarrow> None),
          mm_candidate_locations = (if line_start \<noteq> 0 then [(line_start, line_end)] else []),
          mm_message = message, mm_edits_result_of_hunk = None\<rparr>)"

definition mismatch_text :: "patch_context_mismatch \<Rightarrow> string" where
  "mismatch_text mm =
     (if mm_expected_excerpt mm = [] then [] else ''Expected excerpt (bounded):'' @ [LF] @ mm_expected_excerpt mm @ [LF]) @
     (case mm_expected_source_sha256 mm of None \<Rightarrow> [] | Some hash \<Rightarrow> ''Expected source sha256: '' @ hash @ [LF]) @
     (if mm_candidate_locations mm = [] then []
      else ''Nearby candidate locations (advisory only; no guessed application): '' @
        join '', '' (map (\<lambda>(s, e). show_nat s @ ''-'' @ show_nat e) (mm_candidate_locations mm)) @ [LF]) @
     ''PatchContextMismatch: '' @ mm_message mm @ [LF] @ ''File: '' @ mm_canonical_path mm @ [LF] @
     ''Hunk '' @ show_nat (mm_hunk_ordinal mm) @ '', chunk '' @ show_nat (mm_chunk_ordinal mm) @
     (if mm_current_line_start mm = 0
      then '' (sha256: '' @ mm_current_content_sha256 mm @
        ''). Current excerpt unavailable; read the target region before retrying.''
      else ''. Current lines '' @ show_nat (mm_current_line_start mm) @ ''-'' @ show_nat (mm_current_line_end mm) @
        '' (sha256: '' @ mm_current_content_sha256 mm @ ''):'' @ [LF] @ mm_current_excerpt mm)"

fun parse_error_text :: "parse_error \<Rightarrow> string" where
  "parse_error_text (InvalidPatchError message) = ''invalid patch: '' @ message"
| "parse_error_text (InvalidHunkError message line_number) =
     ''invalid hunk at line '' @ show_nat line_number @ '', '' @ message"

fun apply_error_text :: "apply_error \<Rightarrow> string" where
  "apply_error_text (Parse_Error e) = parse_error_text e"
| "apply_error_text (Io_Error ctx e) = ctx @ '': '' @ io_text e"
| "apply_error_text (Compute_Replacements message) = message"
| "apply_error_text (Guard_Mismatch message) = message"
| "apply_error_text (Multiple_Patch_Conflicts report mismatches) = report"
| "apply_error_text (Context_Mismatch mm) = mismatch_text mm"
| "apply_error_text (Path_Uri message) = message"
| "apply_error_text Panic = []"

fun located_error :: "apply_env \<Rightarrow> uri \<Rightarrow> string \<Rightarrow> update_file_chunk list \<Rightarrow> nat \<Rightarrow> apply_patch_error \<Rightarrow> apply_error" where
  "located_error env path original chunks hunk_ordinal (ComputeReplacements message) = Compute_Replacements message"
| "located_error env path original chunks hunk_ordinal (RevisionGuardMismatch message) = Guard_Mismatch message"
| "located_error env path original chunks hunk_ordinal (PatchContextMismatch kind chunk_ordinal) =
     Context_Mismatch (located_patch_mismatch env path original chunks hunk_ordinal kind chunk_ordinal)"
| "located_error env path original chunks hunk_ordinal Panicked = Panic"

text \<open>\<open>new_contents\<close> is \<^verbatim>\<open>new_contents_from_chunks\<close> for a hunk with an ordinal.\<close>

definition new_contents :: "apply_env \<Rightarrow> uri \<Rightarrow> string \<Rightarrow> update_file_chunk list \<Rightarrow> nat \<Rightarrow> (string, apply_error) result" where
  "new_contents env path original chunks hunk_ordinal =
     map_err (located_error env path original chunks hunk_ordinal)
       (new_contents_from_chunks (en_edit env) \<lparr>uri_text = path, native_text = native env path\<rparr> original chunks)"

section \<open>Revision guards\<close>

definition guard_state :: "apply_env \<Rightarrow> ('w, 'z) executor_fs_scheme \<Rightarrow> uri \<Rightarrow> source_hash_ref option \<Rightarrow>
    ('w, string option \<times> string, apply_error) computation" where
  "guard_state env fs path expected =
     (case expected of
        Some h \<Rightarrow>
          bind (attempt (fs_read_file fs path)) (\<lambda>r.
            case r of
              Ok bytes \<Rightarrow>
                (let hash = en_sha256 env bytes in
                 ret (Some hash, if \<not> source_hash_matches h hash \<and> valid_utf8 bytes
                                 then bounded_expected_lines (str_lines bytes) else []))
            | Err e \<Rightarrow>
                if io_kind e = NotFound then ret (None, [])
                else throw (Io_Error (''Failed to read revision guard '' @ native env path) e))
      | None \<Rightarrow>
          bind (attempt (fs_get_metadata fs path)) (\<lambda>r.
            case r of
              Ok _ \<Rightarrow> ret (Some ''present'', [])
            | Err e \<Rightarrow>
                if io_kind e = NotFound then ret (None, [])
                else throw (Io_Error (''Failed to inspect revision guard '' @ native env path) e)))"

definition guard_satisfied :: "source_hash_ref option \<Rightarrow> string option \<Rightarrow> bool" where
  "guard_satisfied expected current =
     (case (expected, current) of
        (Some h, Some hash) \<Rightarrow> source_hash_matches h hash
      | (None, None) \<Rightarrow> True
      | _ \<Rightarrow> False)"

definition check_guard :: "apply_env \<Rightarrow> ('w, 'z) executor_fs_scheme \<Rightarrow> uri \<Rightarrow> string list \<Rightarrow> file_revision_guard \<Rightarrow>
    ('w, string list, apply_error) computation" where
  "check_guard env fs cwd failures guard =
     bind (of_result (map_err Path_Uri (po_join (en_paths env) cwd (guard_path guard)))) (\<lambda>path.
       bind (guard_state env fs path (expected_sha256 guard)) (\<lambda>(current, current_excerpt).
         if guard_satisfied (expected_sha256 guard) current then ret failures
         else ret (failures @
           [''Revision guard failed for '' @ native env path @ '': expected '' @
            (case expected_sha256 guard of None \<Rightarrow> ''absent'' | Some (SourceHashRef h) \<Rightarrow> h) @ '', current '' @
            (case current of None \<Rightarrow> ''absent'' | Some hash \<Rightarrow> hash) @
            (if current_excerpt = [] then []
             else [LF] @ ''Current excerpt (bounded, from line 1; expected guard supplies a hash only):'' @ [LF] @
               current_excerpt)])))"

definition validate_revision_guards :: "apply_env \<Rightarrow> ('w, 'z) executor_fs_scheme \<Rightarrow> uri \<Rightarrow> file_revision_guard list \<Rightarrow>
    ('w, unit, apply_error) computation" where
  "validate_revision_guards env fs cwd guards =
     bind (loop (check_guard env fs cwd) [] guards) (\<lambda>failures.
       ensure (failures = []) (Guard_Mismatch (join [LF] failures @ [LF] @
         ''No files were changed. Re-read changed guard files and reconcile the patch before submitting fresh revisions.'')))"

section \<open>Repeated updates of one file\<close>

record applied_patch =
  ap_original_contents :: string
  ap_new_contents :: string

definition previous_update :: "nat option list \<Rightarrow> nat \<Rightarrow> nat option" where
  "previous_update previous_updates i = (if i < length previous_updates then previous_updates ! i else None)"

text \<open>
  The \<^verbatim>\<open>while let\<close> loop of \<^verbatim>\<open>first_update\<close>. Earlier updates have smaller indices, so as many rounds as
  the index has predecessors are enough.
\<close>

fun follow_updates :: "nat \<Rightarrow> nat option list \<Rightarrow> nat \<Rightarrow> nat" where
  "follow_updates 0 previous_updates i = i"
| "follow_updates (Suc n) previous_updates i =
     (case previous_update previous_updates i of None \<Rightarrow> i | Some j \<Rightarrow> follow_updates n previous_updates j)"

definition first_update :: "nat option list \<Rightarrow> nat \<Rightarrow> nat" where
  "first_update previous_updates i = follow_updates i previous_updates i"

definition invalid_json_candidate :: "apply_env \<Rightarrow> string \<Rightarrow> string \<Rightarrow> string \<Rightarrow> string option" where
  "invalid_json_candidate env path original new =
     (if (case po_extension (en_paths env) path of Some x \<Rightarrow> eq_ignore_ascii_case x ''json'' | None \<Rightarrow> False)
         \<and> en_json_error env original = None
      then en_json_error env new else None)"

definition update_json_regression :: "apply_env \<Rightarrow> string \<Rightarrow> nat \<Rightarrow> nat option list \<Rightarrow> applied_patch option list \<Rightarrow>
    applied_patch \<Rightarrow> string option" where
  "update_json_regression env path index previous_updates prepared update =
     (if Some index \<in> set previous_updates then None
      else
        (let first = first_update previous_updates index in
         if first = index then invalid_json_candidate env path (ap_original_contents update) (ap_new_contents update)
         else if first < length prepared
         then Option.bind (prepared ! first) (\<lambda>u.
                invalid_json_candidate env path (ap_original_contents u) (ap_new_contents update))
         else None))"

fun mark_chained_mismatch :: "nat option \<Rightarrow> apply_error \<Rightarrow> apply_error" where
  "mark_chained_mismatch (Some previous) (Context_Mismatch mm) =
     Context_Mismatch (mm\<lparr>mm_edits_result_of_hunk := Some (previous + 1),
       mm_message := mm_message mm @ [LF] @ ''This hunk edits the result of hunk '' @ show_nat (previous + 1) @
         '' for the same file; the current lines and hash describe that result.''\<rparr>)"
| "mark_chained_mismatch previous e = e"

section \<open>Preflight\<close>

definition read_update_source :: "apply_env \<Rightarrow> ('w, 'z) executor_fs_scheme \<Rightarrow> uri \<Rightarrow> ('w, string, apply_error) computation" where
  "read_update_source env fs path =
     map_error (Io_Error (''Failed to read file to update '' @ native env path)) (read_file_text fs path)"

text \<open>The later chunks of a failed update, each on its own; \<^term>\<open>Err Panic\<close> ends the enumeration.\<close>

fun later_failures :: "apply_env \<Rightarrow> uri \<Rightarrow> string \<Rightarrow> nat \<Rightarrow> nat option \<Rightarrow> string \<Rightarrow> (nat \<times> update_file_chunk) list \<Rightarrow>
    apply_error list \<Rightarrow> (apply_error list, apply_error) result" where
  "later_failures env path original ordinal previous first [] failures = Ok failures"
| "later_failures env path original ordinal previous first ((index, chunk) # rest) failures =
     (case new_contents env path original [chunk] (ordinal + 1) of
        Ok _ \<Rightarrow> later_failures env path original ordinal previous first rest failures
      | Err e \<Rightarrow>
          if e = Panic then Err Panic
          else if (case e of Context_Mismatch mm \<Rightarrow> 0 < index \<and> mm_kind mm = AmbiguousMatch | _ \<Rightarrow> False)
          then later_failures env path original ordinal previous first rest failures
          else
            (let e = (case e of Context_Mismatch mm \<Rightarrow> Context_Mismatch (mm\<lparr>mm_chunk_ordinal := index + 1\<rparr>) | _ \<Rightarrow> e);
                 e = mark_chained_mismatch previous e
             in later_failures env path original ordinal previous first rest
                  (if apply_error_text e \<noteq> first
                      \<and> \<not> list_ex (\<lambda>prior. apply_error_text prior = apply_error_text e) failures
                   then failures @ [e] else failures)))"

type_synonym preflight = "applied_patch option list \<times> apply_error list"

definition preflight_update :: "apply_env \<Rightarrow> uri \<Rightarrow> hunk \<Rightarrow> update_file_chunk list \<Rightarrow> nat \<Rightarrow> nat option list \<Rightarrow> string \<Rightarrow>
    preflight \<Rightarrow> (preflight, apply_error) result" where
  "preflight_update env path h chunks ordinal previous_updates original = (\<lambda>(prepared, failures).
     (case new_contents env path original chunks (ordinal + 1) of
        Ok new \<Rightarrow>
          (let update = \<lparr>ap_original_contents = original, ap_new_contents = new\<rparr> in
           case update_json_regression env (hunk_path h) ordinal previous_updates prepared update of
             Some e \<Rightarrow>
               Ok (prepared @ [None], failures @ [Compute_Replacements (hunk_path h @
                 '' was valid JSON before this patch; candidate is invalid: '' @ e @ ''. No files were changed.'')])
           | None \<Rightarrow> Ok (prepared @ [Some update], failures))
      | Err e \<Rightarrow>
          if e = Panic then Err Panic
          else
            (let previous = previous_update previous_updates ordinal;
                 e = mark_chained_mismatch previous e;
                 failed_chunks = (case e of Context_Mismatch mm \<Rightarrow> mm_chunk_ordinal mm | _ \<Rightarrow> 0)
             in and_then (later_failures env path original ordinal previous (apply_error_text e)
                    (drop failed_chunks (enumerate 0 chunks)) (failures @ [e])) (\<lambda>failures.
                  Ok (prepared @ [None], failures)))))"

definition preflight_hunk :: "apply_env \<Rightarrow> ('w, 'z) executor_fs_scheme \<Rightarrow> uri \<Rightarrow> nat option list \<Rightarrow> preflight \<Rightarrow>
    nat \<times> hunk \<Rightarrow> ('w, preflight, apply_error) computation" where
  "preflight_hunk env fs cwd previous_updates = (\<lambda>(prepared, failures) (ordinal, h).
     bind (of_result (hunk_source env cwd h)) (\<lambda>path.
       case h of
         UpdateFile p moved chunks \<Rightarrow>
           (case previous_update previous_updates ordinal of
              Some previous \<Rightarrow>
                (case (if previous < length prepared then prepared ! previous else None) of
                   Some u \<Rightarrow> of_result (preflight_update env path h chunks ordinal previous_updates
                               (ap_new_contents u) (prepared, failures))
                 | None \<Rightarrow> ret (prepared @ [None], failures))
            | None \<Rightarrow>
                bind (attempt (read_update_source env fs path)) (\<lambda>r.
                  case r of
                    Ok contents \<Rightarrow> of_result (preflight_update env path h chunks ordinal previous_updates
                                    contents (prepared, failures))
                  | Err e \<Rightarrow> ret (prepared @ [None], failures @ [e])))
       | DeleteFile p \<Rightarrow>
           bind (attempt (read_file_text fs path)) (\<lambda>r.
             case r of
               Ok contents \<Rightarrow>
                 ret (prepared @ [Some \<lparr>ap_original_contents = contents, ap_new_contents = []\<rparr>], failures)
             | Err e \<Rightarrow>
                 ret (prepared @ [None], failures @ [Io_Error (''Failed to delete file '' @ native env path) e]))
       | AddFile p contents \<Rightarrow>
           bind (attempt (fs_get_metadata fs path)) (\<lambda>r.
             ret (prepared @ [None], failures @ (case r of
               Ok _ \<Rightarrow> [Compute_Replacements (''Add File is create-only; '' @ native env path @
                 '' already exists. Use Update File with a current codex-range source hash. No files were changed.'')]
             | Err e \<Rightarrow>
                 if io_kind e = NotFound then []
                 else [Io_Error (''Failed to inspect addition '' @ native env path) e])))))"

definition preflight_failure :: "apply_error list \<Rightarrow> apply_error" where
  "preflight_failure failures =
     (case failures of
        [e] \<Rightarrow> e
      | _ \<Rightarrow>
          (let report = ''Patch preflight found '' @ show_nat (length failures) @
                 '' conflicts; no files were changed.'' @ [LF] @ join [LF, LF] (map apply_error_text failures);
               mismatches = List.map_filter (\<lambda>e. case e of Context_Mismatch mm \<Rightarrow> Some mm | _ \<Rightarrow> None) failures
           in if mismatches = [] then Compute_Replacements report else Multiple_Patch_Conflicts report mismatches))"

definition preflight_hunks :: "apply_env \<Rightarrow> ('w, 'z) executor_fs_scheme \<Rightarrow> uri \<Rightarrow> nat option list \<Rightarrow> hunk list \<Rightarrow>
    ('w, applied_patch option list, apply_error) computation" where
  "preflight_hunks env fs cwd previous_updates hunks =
     bind (loop (preflight_hunk env fs cwd previous_updates) ([], []) (enumerate 0 hunks)) (\<lambda>(prepared, failures).
       if failures = [] then ret prepared else throw (preflight_failure failures))"

section \<open>Destinations\<close>

type_synonym destinations = "(uri \<times> string option) list"

definition destination_path :: "apply_env \<Rightarrow> uri \<Rightarrow> hunk \<Rightarrow> (uri, apply_error) result option" where
  "destination_path env cwd h =
     (case h of
        AddFile p contents \<Rightarrow> Some (hunk_source env cwd h)
      | UpdateFile p (Some dest) chunks \<Rightarrow> Some (map_err Path_Uri (po_join (en_paths env) cwd dest))
      | _ \<Rightarrow> None)"

definition capture_destination :: "apply_env \<Rightarrow> ('w, 'z) executor_fs_scheme \<Rightarrow> uri \<Rightarrow> destinations \<Rightarrow> hunk \<Rightarrow>
    ('w, destinations, apply_error) computation" where
  "capture_destination env fs cwd destinations h =
     (case destination_path env cwd h of
        None \<Rightarrow> ret destinations
      | Some joined \<Rightarrow>
          bind (of_result joined) (\<lambda>path.
            bind (attempt (read_file_text fs path)) (\<lambda>r.
              case r of
                Ok content \<Rightarrow> ret (bt_insert path (Some content) destinations)
              | Err e \<Rightarrow>
                  if io_kind e = NotFound then ret (bt_insert path None destinations)
                  else throw (Io_Error (''Failed to read patch destination '' @ path) e))))"

definition capture_destination_preimages :: "apply_env \<Rightarrow> ('w, 'z) executor_fs_scheme \<Rightarrow> uri \<Rightarrow> hunk list \<Rightarrow>
    ('w, destinations, apply_error) computation" where
  "capture_destination_preimages env fs cwd hunks = loop (capture_destination env fs cwd) [] hunks"

section \<open>Verified patches\<close>

datatype apply_patch_file_change =
    File_Add string
  | File_Delete string
  | File_Update string "uri option" string

record apply_patch_action =
  act_changes :: "(uri \<times> apply_patch_file_change) list"
  act_destination_preimages :: destinations
  act_patch :: string
  act_cwd :: uri

fun is_update :: "hunk \<Rightarrow> bool" where
  "is_update (UpdateFile p moved chunks) = True"
| "is_update h = False"

definition last_updates :: "nat option list \<Rightarrow> hunk list \<Rightarrow> nat \<rightharpoonup> nat" where
  "last_updates previous_updates hunks =
     fold (\<lambda>(index, h) m. if is_update h then m(first_update previous_updates index \<mapsto> index) else m)
       (enumerate 0 hunks) Map.empty"

definition keeps_site :: "apply_env \<Rightarrow> uri \<Rightarrow> nat option list \<Rightarrow> applied_patch option list \<Rightarrow> apply_patch_action \<Rightarrow>
    hunk list \<Rightarrow> nat \<times> hunk \<Rightarrow> (unit, any_error) result" where
  "keeps_site env cwd previous_updates prepared action hunks = (\<lambda>(index, h).
     case h of
       UpdateFile p moved chunks \<Rightarrow>
         (let first = first_update previous_updates index;
              prep = (\<lambda>i. if i < length prepared then prepared ! i else None)
          in and_then (map_err from_text (resolve_path (en_paths env) cwd (hunks ! first))) (\<lambda>path.
               (let verified = (case map_of (act_changes action) path of
                                  Some (File_Update _ _ new) \<Rightarrow> Some new | _ \<Rightarrow> None);
                    current = Option.bind (last_updates previous_updates hunks first) (\<lambda>i. map_option ap_new_contents (prep i))
                in if verified \<noteq> None \<and> verified = current then Ok ()
                   else and_then (ok_or (from_text ''update was not prepared before writes'') (prep index)) (\<lambda>source.
                     case chunk_without_unique_site (ap_original_contents source) chunks of
                       None \<Rightarrow> Ok ()
                     | Some chunk \<Rightarrow> Err (from_text (native env path @ '' changed after verification, and chunk '' @
                         show_nat chunk @ '' of hunk '' @ show_nat (index + 1) @
                         '' no longer matches exactly one location; no files were changed. Re-read the current source and regenerate the patch.''))))))
     | _ \<Rightarrow> Ok ())"

definition ensure_rebased_updates_keep_their_sites :: "apply_env \<Rightarrow> uri \<Rightarrow> nat option list \<Rightarrow> applied_patch option list \<Rightarrow>
    apply_patch_action \<Rightarrow> hunk list \<Rightarrow> (unit, any_error) result" where
  "ensure_rebased_updates_keep_their_sites env cwd previous_updates prepared action hunks =
     foldl (\<lambda>r ih. and_then r (\<lambda>_. keeps_site env cwd previous_updates prepared action hunks ih)) (Ok ()) (enumerate 0 hunks)"

end
