(* ===== verification/Patch_Apply.thy ===== *)
theory Patch_Apply
  imports Patch_Prepare
begin

text \<open>
  Applying a patch to files (\<^verbatim>\<open>apply-patch/src/lib.rs\<close>): preparation, the writes, and the rollback of what
  was written when something fails. The state of a run is the world and the delta, which records the
  committed changes; a computation that fails leaves both behind.

  A panic of the matcher is the error \<open>Panic\<close>; it ends the run without rollback.
\<close>

section \<open>Deltas\<close>

datatype applied_patch_file_change =
    Change_Add string "string option"
  | Change_Delete string
  | Change_Update "string option" string "string option" string

record applied_patch_change =
  ch_path :: string
  ch_change :: applied_patch_file_change
  ch_write_receipt :: "applied_patch_write_receipt option"
  ch_path_uri :: uri
  ch_move_path_uri :: "uri option"

record applied_patch_delta =
  dl_changes :: "applied_patch_change list"
  dl_exact :: bool
  dl_endpoint_identities :: "string \<rightharpoonup> string"
  dl_preimage_modes :: "string \<rightharpoonup> string"
  dl_manifest :: patch_manifest

definition delta_new :: "applied_patch_change list \<Rightarrow> bool \<Rightarrow> applied_patch_delta" where
  "delta_new changes exact =
     \<lparr>dl_changes = changes, dl_exact = exact, dl_endpoint_identities = Map.empty,
      dl_preimage_modes = Map.empty, dl_manifest = default_manifest\<rparr>"

definition unattempted :: "apply_env \<Rightarrow> uri \<Rightarrow> hunk list \<Rightarrow> applied_patch_delta" where
  "unattempted env cwd hunks = (delta_new [] True)\<lparr>dl_manifest := manifest_new (en_paths env) cwd hunks\<rparr>"

fun change_line :: "applied_patch_change \<Rightarrow> string" where
  "change_line c =
     (case ch_change c of
        Change_Add _ _ \<Rightarrow> ''A '' @ ch_path c
      | Change_Delete _ \<Rightarrow> ''D '' @ ch_path c
      | Change_Update (Some dest) _ _ _ \<Rightarrow> ''M '' @ ch_path c @ '' -> '' @ dest
      | Change_Update None _ _ _ \<Rightarrow> ''M '' @ ch_path c) @ [LF]"

definition failure_summary :: "applied_patch_delta \<Rightarrow> string" where
  "failure_summary d =
     (if dl_changes d = [] \<and> dl_exact d then []
      else ''Patch failed after applying these changes:'' @ [LF] @ concat (map change_line (dl_changes d)) @
        (if dl_exact d then [] else ''Additional filesystem changes may not be listed.'' @ [LF]) @
        ''Inspect the current files before retrying the remaining changes; do not retry the whole patch.'' @ [LF])"

section \<open>Runs\<close>

record 'w patch_run =
  pr_world :: 'w
  pr_delta :: applied_patch_delta

type_synonym ('w, 'a) run = "('w patch_run, 'a, any_error) computation"

definition on_world :: "('w, 'a, 'e) computation \<Rightarrow> ('w patch_run, 'a, 'e) computation" where
  "on_world m s = (case m (pr_world s) of (r, w) \<Rightarrow> (r, s\<lparr>pr_world := w\<rparr>))"

definition change_delta :: "(applied_patch_delta \<Rightarrow> applied_patch_delta) \<Rightarrow> ('w patch_run, unit, 'e) computation" where
  "change_delta f = modify (\<lambda>s. s\<lparr>pr_delta := f (pr_delta s)\<rparr>)"

definition on_manifest :: "(patch_manifest \<Rightarrow> patch_manifest) \<Rightarrow> ('w patch_run, unit, 'e) computation" where
  "on_manifest f = change_delta (\<lambda>d. d\<lparr>dl_manifest := f (dl_manifest d)\<rparr>)"

definition and_exact :: "bool \<Rightarrow> ('w patch_run, unit, 'e) computation" where
  "and_exact b = change_delta (\<lambda>d. d\<lparr>dl_exact := dl_exact d \<and> b\<rparr>)"

definition push_change :: "applied_patch_change \<Rightarrow> ('w patch_run, unit, 'e) computation" where
  "push_change c = change_delta (\<lambda>d. d\<lparr>dl_changes := dl_changes d @ [c]\<rparr>)"

definition io_run :: "('w, 'a, io_error) computation \<Rightarrow> ('w, 'a) run" where
  "io_run m = map_error from_io (on_world m)"

definition apply_run :: "('w, 'a, apply_error) computation \<Rightarrow> ('w, 'a) run" where
  "apply_run m = map_error from_apply (on_world m)"

section \<open>Mutations and their reconciliation\<close>

definition ensure_not_directory :: "('w, 'z) executor_fs_scheme \<Rightarrow> uri \<Rightarrow> ('w, file_metadata, io_error) computation" where
  "ensure_not_directory fs path =
     bind (fs_get_metadata fs path) (\<lambda>md.
       if md_is_directory md then throw \<lparr>io_kind = InvalidInput, io_text = ''path is a directory''\<rparr> else ret md)"

definition remove_failure_was_side_effect_free :: "('w, 'z) executor_fs_scheme \<Rightarrow> uri \<Rightarrow> string option \<Rightarrow>
    ('w, bool, 'e) computation" where
  "remove_failure_was_side_effect_free fs path expected_content =
     (case expected_content of
        Some content \<Rightarrow> bind (attempt (read_file_text fs path)) (\<lambda>r. ret (r = Ok content))
      | None \<Rightarrow>
          bind (attempt (fs_get_metadata fs path)) (\<lambda>r.
            ret (case r of Ok _ \<Rightarrow> False | Err e \<Rightarrow> io_kind e = NotFound)))"

definition is_recovery_required :: "any_error \<Rightarrow> bool" where
  "is_recovery_required e = (case er_cause e of Recovery_Required _ _ _ \<Rightarrow> True | _ \<Rightarrow> False)"

definition is_no_write_conflict :: "any_error \<Rightarrow> bool" where
  "is_no_write_conflict e = (case er_cause e of No_Write_Conflict _ \<Rightarrow> True | _ \<Rightarrow> False)"

definition reconcile_failed_mutation :: "apply_env \<Rightarrow> ('w, 'z) executor_fs_scheme \<Rightarrow> any_error \<Rightarrow> uri \<Rightarrow>
    string option \<Rightarrow> ('w, unit) run" where
  "reconcile_failed_mutation env fs err path expected =
     bind (on_world (remove_failure_was_side_effect_free fs path expected)) (\<lambda>unchanged.
       bind (and_exact unchanged) (\<lambda>_.
         if unchanged \<and> \<not> is_recovery_required err
         then on_manifest (confirm_no_write (en_sha256 env) path expected)
         else ret ()))"

definition note_existing_path_delta_support :: "('w, 'z) executor_fs_scheme \<Rightarrow> uri \<Rightarrow> ('w, unit) run" where
  "note_existing_path_delta_support fs path =
     bind (on_world (attempt (fs_get_metadata fs path))) (\<lambda>r.
       and_exact (case r of
         Ok md \<Rightarrow> md_is_file md \<and> \<not> md_is_symlink md
       | Err e \<Rightarrow> io_kind e = NotFound))"

definition conditional_mutation :: "apply_env \<Rightarrow> ('w, 'z) executor_fs_scheme \<Rightarrow> uri \<Rightarrow> string option \<Rightarrow> string option \<Rightarrow>
    ('w, applied_patch_write_receipt option) run" where
  "conditional_mutation env fs path expected replacement =
     (let receipt = map_option (\<lambda>bytes. \<lparr>rc_sha256 = en_sha256 env bytes, rc_bytes = length bytes\<rparr>) replacement in
      bind (on_world (attempt (fs_mutate_file_if_matches fs path expected replacement))) (\<lambda>r.
        case r of
          Err e \<Rightarrow> bind (on_manifest (uncertain path)) (\<lambda>_. throw (from_io e))
        | Ok outcome \<Rightarrow>
            bind (on_manifest (record_outcome (en_sha256 env) path expected receipt outcome)) (\<lambda>_.
              case outcome of
                Committed \<Rightarrow> ret receipt
              | Unchanged \<Rightarrow> ret None
              | Conflict \<Rightarrow> throw (cause (No_Write_Conflict path))
              | RecoveryRequired retained message \<Rightarrow>
                  bind (and_exact False) (\<lambda>_. throw (cause (Recovery_Required path retained message))))))"

definition write_file_with_missing_parent_retry :: "apply_env \<Rightarrow> ('w, 'z) executor_fs_scheme \<Rightarrow> uri \<Rightarrow> string option \<Rightarrow>
    string \<Rightarrow> ('w, applied_patch_write_receipt option) run" where
  "write_file_with_missing_parent_retry env fs path expected contents =
     bind (attempt (conditional_mutation env fs path expected (Some contents))) (\<lambda>r.
       case r of
         Ok receipt \<Rightarrow> ret receipt
       | Err e \<Rightarrow>
           if (case er_cause e of Cause_Io io \<Rightarrow> io_kind io = NotFound | _ \<Rightarrow> False) then
             bind (case po_parents (en_paths env) path of
                     [] \<Rightarrow> ret ()
                   | parent # _ \<Rightarrow>
                       map_error (with_context (''Failed to create parent directories for '' @ native env path))
                         (io_run (fs_create_directory fs parent))) (\<lambda>_.
               map_error (with_context (''Failed to write file '' @ native env path))
                 (conditional_mutation env fs path expected (Some contents)))
           else throw (with_context (''Failed to write file '' @ native env path) e))"

text \<open>The macro \<^verbatim>\<open>try_write!\<close> and the same steps of the two removals.\<close>

definition try_write :: "apply_env \<Rightarrow> ('w, 'z) executor_fs_scheme \<Rightarrow> uri \<Rightarrow> string option \<Rightarrow> ('w, 'a) run \<Rightarrow> ('w, 'a) run" where
  "try_write env fs path before m =
     bind (attempt m) (\<lambda>r.
       case r of
         Ok v \<Rightarrow> ret v
       | Err e \<Rightarrow>
           bind (if is_no_write_conflict e then ret () else reconcile_failed_mutation env fs e path before) (\<lambda>_.
             throw e))"

section \<open>Writing one hunk\<close>

definition preimage_mode :: "apply_env \<Rightarrow> ('w, 'z) apply_host_scheme \<Rightarrow> uri \<Rightarrow> ('w, string option, 'e) computation" where
  "preimage_mode env host path =
     (if \<not> fs_uses_host_native_paths host then ret None
      else (\<lambda>w. case ah_symlink_metadata host path w of (md, w') \<Rightarrow>
        (Ok (case md of
           None \<Rightarrow> None
         | Some (is_file, is_symlink, executable) \<Rightarrow>
             if \<not> is_file \<or> is_symlink then None
             else if \<not> en_windows env \<and> executable then Some ''100755''
             else Some ''100644''), w')))"

definition note_mode :: "apply_env \<Rightarrow> ('w, 'z) apply_host_scheme \<Rightarrow> uri \<Rightarrow> ('w, unit) run" where
  "note_mode env host path =
     bind (on_world (preimage_mode env host path)) (\<lambda>r.
       change_delta (\<lambda>d. case r of
         None \<Rightarrow> d
       | Some mode \<Rightarrow>
           (let key = po_path_buf (en_paths env) path in
            case dl_preimage_modes d key of
              None \<Rightarrow> d\<lparr>dl_preimage_modes := (dl_preimage_modes d)(key \<mapsto> mode)\<rparr>
            | Some _ \<Rightarrow> d)))"

definition note_identity :: "apply_env \<Rightarrow> uri \<Rightarrow> string \<Rightarrow> applied_patch_delta \<Rightarrow> applied_patch_delta" where
  "note_identity env path identity d =
     d\<lparr>dl_endpoint_identities := (dl_endpoint_identities d)(po_path_buf (en_paths env) path \<mapsto> identity)\<rparr>"

definition cancelled :: "('w, 'z) apply_host_scheme \<Rightarrow> ('w, bool) run" where
  "cancelled host = on_world (\<lambda>w. case ah_is_cancelled host w of (b, w') \<Rightarrow> (Ok b, w'))"

definition interrupted :: "string \<Rightarrow> any_error" where
  "interrupted text = from_io \<lparr>io_kind = Interrupted, io_text = text\<rparr>"

definition plain_change :: "apply_env \<Rightarrow> uri \<Rightarrow> applied_patch_write_receipt option \<Rightarrow> applied_patch_file_change \<Rightarrow>
    applied_patch_change" where
  "plain_change env path receipt change =
     \<lparr>ch_path = po_path_buf (en_paths env) path, ch_change = change, ch_write_receipt = receipt,
      ch_path_uri = path, ch_move_path_uri = None\<rparr>"

definition destination_of :: "destinations \<Rightarrow> uri \<Rightarrow> string \<Rightarrow> (string option, any_error) result" where
  "destination_of destinations path missing = ok_or (from_text missing) (map_of destinations path)"

definition add_file :: "apply_env \<Rightarrow> ('w, 'z) apply_host_scheme \<Rightarrow> destinations \<Rightarrow> uri \<Rightarrow> string \<Rightarrow> ('w, unit) run" where
  "add_file env host destinations path contents =
     bind (of_result (destination_of destinations path ''addition destination was not prepared'')) (\<lambda>overwritten.
       bind (ensure (overwritten = None) (from_text (''Add File is create-only; '' @ native env path @
           '' already exists. Use Update File with a current codex-range source hash for a whole-file replacement.''))) (\<lambda>_.
         bind (try_write env host path overwritten
                 (write_file_with_missing_parent_retry env host path overwritten contents)) (\<lambda>receipt.
           bind (note_mode env host path) (\<lambda>_.
             push_change (plain_change env path receipt (Change_Add contents overwritten))))))"

definition delete_file :: "apply_env \<Rightarrow> ('w, 'z) apply_host_scheme \<Rightarrow> applied_patch option \<Rightarrow> uri \<Rightarrow> ('w, unit) run" where
  "delete_file env host prepared path =
     bind (map_error (with_context (''Failed to delete file '' @ native env path)) (io_run (ensure_not_directory host path))) (\<lambda>md.
       bind (and_exact (md_is_file md \<and> \<not> md_is_symlink md)) (\<lambda>_.
         bind (io_run (read_file_text host path)) (\<lambda>deleted_content.
           bind (ensure (map_option ap_original_contents prepared = Some deleted_content)
               (from_text (''source changed after patch preparation; refusing to delete '' @ native env path))) (\<lambda>_.
             bind (try_write env host path (Some deleted_content)
                 (map_error (with_context (''Failed to delete file '' @ native env path))
                   (conditional_mutation env host path (Some deleted_content) None))) (\<lambda>_.
               push_change (plain_change env path None (Change_Delete deleted_content)))))))"

definition derive_new_contents_from_chunks :: "apply_env \<Rightarrow> ('w, 'z) executor_fs_scheme \<Rightarrow> uri \<Rightarrow> update_file_chunk list \<Rightarrow>
    nat \<Rightarrow> ('w, applied_patch, apply_error) computation" where
  "derive_new_contents_from_chunks env fs path chunks hunk_ordinal =
     bind (read_update_source env fs path) (\<lambda>original.
       bind (of_result (new_contents env path original chunks hunk_ordinal)) (\<lambda>new.
         case invalid_json_candidate env (po_path_buf (en_paths env) path) original new of
           Some e \<Rightarrow> throw (Compute_Replacements (native env path @
             '' was valid JSON before this patch; candidate is invalid: '' @ e))
         | None \<Rightarrow> ret \<lparr>ap_original_contents = original, ap_new_contents = new\<rparr>))"

definition current_update :: "apply_env \<Rightarrow> ('w, 'z) apply_host_scheme \<Rightarrow> bool \<Rightarrow> nat \<Rightarrow> applied_patch option \<Rightarrow> uri \<Rightarrow>
    update_file_chunk list \<Rightarrow> ('w, applied_patch) run" where
  "current_update env host verified_sites hunk_index prepared path chunks =
     bind (of_result (ok_or (from_text (''update was not prepared before writes: '' @ native env path)) prepared)) (\<lambda>update.
       bind (io_run (read_file_text host path)) (\<lambda>contents.
         if contents = ap_original_contents update then ret update
         else
           bind (ensure (\<not> verified_sites) (from_text
               (''source changed after verified edit-site preparation; refusing to reselect an update in '' @ native env path))) (\<lambda>_.
             bind (apply_run (derive_new_contents_from_chunks env host path chunks (hunk_index + 1))) (\<lambda>update.
               bind (io_run (read_file_text host path)) (\<lambda>contents.
                 bind (ensure (contents = ap_original_contents update)
                     (from_text (''source changed after patch preparation: '' @ native env path))) (\<lambda>_.
                   ret update))))))"

definition write_update :: "apply_env \<Rightarrow> ('w, 'z) apply_host_scheme \<Rightarrow> uri \<Rightarrow> applied_patch \<Rightarrow> ('w, unit) run" where
  "write_update env host path update =
     bind (try_write env host path (Some (ap_original_contents update))
         (map_error (with_context (''Failed to write file '' @ native env path))
           (conditional_mutation env host path (Some (ap_original_contents update)) (Some (ap_new_contents update))))) (\<lambda>receipt.
       if receipt = None then ret ()
       else push_change (plain_change env path receipt
         (Change_Update None (ap_original_contents update) None (ap_new_contents update))))"

definition same_endpoint_error :: "apply_env \<Rightarrow> uri \<Rightarrow> any_error" where
  "same_endpoint_error env path = from_apply (Parse_Error (InvalidPatchError
     (''move source and destination identify the same path: '' @ native env path)))"

text \<open>The destination of a move is published first; its identity was just taken.\<close>

definition publish_move :: "apply_env \<Rightarrow> ('w, 'z) apply_host_scheme \<Rightarrow> destinations \<Rightarrow> uri \<Rightarrow> applied_patch \<Rightarrow>
    ('w, string option \<times> applied_patch_write_receipt option) run" where
  "publish_move env host destinations dest update =
     bind (note_existing_path_delta_support host dest) (\<lambda>_.
       bind (of_result (destination_of destinations dest ''move destination was not prepared'')) (\<lambda>overwritten.
         bind (try_write env host dest overwritten
             (write_file_with_missing_parent_retry env host dest overwritten (ap_new_contents update))) (\<lambda>receipt.
           bind (note_mode env host dest) (\<lambda>_.
             bind (if receipt = None then ret ()
                   else push_change (plain_change env dest receipt (Change_Add (ap_new_contents update) overwritten))) (\<lambda>_.
               ret (overwritten, receipt))))))"

definition remove_moved :: "apply_env \<Rightarrow> ('w, 'z) apply_host_scheme \<Rightarrow> uri \<Rightarrow> string \<Rightarrow> applied_patch \<Rightarrow> ('w, unit) run" where
  "remove_moved env host path source_identity update =
     bind (map_error (with_context (''Failed to remove original '' @ native env path)) (io_run (ensure_not_directory host path))) (\<lambda>_.
       bind (apply_run (mutation_endpoint_identity env host path)) (\<lambda>identity.
         bind (if identity = source_identity then
                 bind (io_run (read_file_text host path)) (\<lambda>contents. ret (contents = ap_original_contents update))
               else ret False) (\<lambda>same.
           bind (ensure same (from_text
               (''move source changed during destination publication; refusing to remove '' @ native env path))) (\<lambda>_.
             bind (try_write env host path (Some (ap_original_contents update))
                 (map_error (with_context (''Failed to remove original '' @ native env path))
                   (conditional_mutation env host path (Some (ap_original_contents update)) None))) (\<lambda>_.
               ret ())))))"

definition move_change :: "apply_env \<Rightarrow> uri \<Rightarrow> uri \<Rightarrow> applied_patch \<Rightarrow> string option \<Rightarrow> applied_patch_write_receipt option \<Rightarrow>
    applied_patch_change" where
  "move_change env path dest update overwritten receipt =
     \<lparr>ch_path = po_path_buf (en_paths env) path,
      ch_change = Change_Update (Some (po_path_buf (en_paths env) dest)) (ap_original_contents update) overwritten
        (ap_new_contents update),
      ch_write_receipt = receipt, ch_path_uri = path, ch_move_path_uri = Some dest\<rparr>"

definition write_move :: "apply_env \<Rightarrow> ('w, 'z) apply_host_scheme \<Rightarrow> uri \<Rightarrow> destinations \<Rightarrow> uri \<Rightarrow> string \<Rightarrow> applied_patch \<Rightarrow>
    ('w, unit) run" where
  "write_move env host cwd destinations path moved update =
     bind (of_result (join_any env cwd moved)) (\<lambda>dest.
       bind (note_mode env host dest) (\<lambda>_.
         bind (apply_run (mutation_endpoint_identity env host dest)) (\<lambda>destination_identity.
           bind (change_delta (note_identity env dest destination_identity)) (\<lambda>_.
             bind (apply_run (mutation_endpoint_identity env host path)) (\<lambda>source_identity.
               bind (apply_run (mutation_endpoint_identity env host dest)) (\<lambda>dest_identity.
                 bind (ensure (source_identity \<noteq> dest_identity) (same_endpoint_error env path)) (\<lambda>_.
                   bind (gets (\<lambda>s. length (dl_changes (pr_delta s)))) (\<lambda>dest_write_change_index.
                     bind (publish_move env host destinations dest update) (\<lambda>(overwritten, receipt).
                       bind (cancelled host) (\<lambda>stop.
                         bind (ensure (\<not> stop)
                             (interrupted ''Patch application cancelled after move destination publication'')) (\<lambda>_.
                           bind (remove_moved env host path source_identity update) (\<lambda>_.
                             change_delta (\<lambda>d.
                               (let moved = move_change env path dest update overwritten receipt in
                                d\<lparr>dl_changes :=
                                    (if dest_write_change_index < length (dl_changes d)
                                     then (dl_changes d)[dest_write_change_index := moved]
                                     else dl_changes d @ [moved])\<rparr>))))))))))))))"

definition write_hunk :: "apply_env \<Rightarrow> ('w, 'z) apply_host_scheme \<Rightarrow> uri \<Rightarrow> destinations \<Rightarrow> bool \<Rightarrow>
    applied_patch option list \<Rightarrow> nat \<Rightarrow> hunk \<Rightarrow> uri \<Rightarrow> ('w, unit) run" where
  "write_hunk env host cwd destinations verified_sites prepared hunk_index h path =
     (case h of
        AddFile p contents \<Rightarrow> add_file env host destinations path contents
      | DeleteFile p \<Rightarrow> delete_file env host (prepared ! hunk_index) path
      | UpdateFile p moved chunks \<Rightarrow>
          bind (note_existing_path_delta_support host path) (\<lambda>_.
            bind (current_update env host verified_sites hunk_index (prepared ! hunk_index) path chunks) (\<lambda>update.
              case moved of
                Some dest \<Rightarrow> write_move env host cwd destinations path dest update
              | None \<Rightarrow> write_update env host path update)))"

definition apply_hunk :: "apply_env \<Rightarrow> ('w, 'z) apply_host_scheme \<Rightarrow> uri \<Rightarrow> destinations \<Rightarrow> bool \<Rightarrow>
    applied_patch option list \<Rightarrow> unit \<Rightarrow> nat \<times> hunk \<Rightarrow> ('w, unit) run" where
  "apply_hunk env host cwd destinations verified_sites prepared _ = (\<lambda>(hunk_index, h).
     bind (cancelled host) (\<lambda>stop.
       bind (ensure (\<not> stop) (interrupted ''Patch application cancelled before the next hunk'')) (\<lambda>_.
         bind (of_result (map_err from_text (resolve_path (en_paths env) cwd h))) (\<lambda>path.
           bind (on_manifest (begin_hunk hunk_index)) (\<lambda>_.
             bind (note_mode env host path) (\<lambda>_.
               bind (apply_run (mutation_endpoint_identity env host path)) (\<lambda>identity.
                 bind (change_delta (\<lambda>d.
                     (let previous = dl_endpoint_identities d (po_path_buf (en_paths env) path);
                          d = note_identity env path identity d
                      in if previous \<noteq> None \<and> previous \<noteq> Some identity then d\<lparr>dl_exact := False\<rparr> else d))) (\<lambda>_.
                   bind (write_hunk env host cwd destinations verified_sites prepared hunk_index h path) (\<lambda>_.
                     on_manifest finish_hunk)))))))))"

section \<open>Writing all hunks\<close>

text \<open>The check of the read set: an update whose source changed is derived again, unless its site was verified.\<close>

definition recheck_hunk :: "apply_env \<Rightarrow> ('w, 'z) apply_host_scheme \<Rightarrow> uri \<Rightarrow> bool \<Rightarrow> nat option list \<Rightarrow>
    applied_patch option list \<Rightarrow> nat \<times> hunk \<Rightarrow> ('w, applied_patch option list) run" where
  "recheck_hunk env host cwd verified_sites previous_updates prepared = (\<lambda>(index, h).
     case prepared ! index of
       None \<Rightarrow> ret prepared
     | Some previous \<Rightarrow>
         bind (of_result (map_err from_text (resolve_path (en_paths env) cwd h))) (\<lambda>path.
           (let prior = previous_update previous_updates index in
            bind (case prior of
                    Some i \<Rightarrow>
                      of_result (ok_or (from_text (''update was not prepared before writes: '' @ native env path))
                        (map_option ap_new_contents (prepared ! i)))
                  | None \<Rightarrow> io_run (read_file_text host path)) (\<lambda>source.
              if source = ap_original_contents previous then ret prepared
              else
                bind (ensure (\<not> verified_sites) (from_text
                    (''source changed after verified edit-site preparation; refusing to reselect an update in '' @ native env path))) (\<lambda>_.
                  case h of
                    UpdateFile p moved chunks \<Rightarrow>
                      bind (of_result (map_err (from_apply \<circ> mark_chained_mismatch prior)
                             (new_contents env path source chunks (index + 1)))) (\<lambda>new.
                        (let update = \<lparr>ap_original_contents = source, ap_new_contents = new\<rparr> in
                         case update_json_regression env (hunk_path h) index previous_updates prepared update of
                           Some e \<Rightarrow> throw (from_apply (Compute_Replacements (native env path @
                             '' was valid JSON before this patch; candidate is invalid: '' @ e)))
                         | None \<Rightarrow> ret (prepared[index := Some update])))
                  | _ \<Rightarrow> throw (from_text (''source changed during patch preparation: '' @ native env path)))))))"

definition apply_hunks_to_files :: "apply_env \<Rightarrow> ('w, 'z) apply_host_scheme \<Rightarrow> uri \<Rightarrow> hunk list \<Rightarrow> file_revision_guard list \<Rightarrow>
    applied_patch option list \<Rightarrow> destinations \<Rightarrow> bool \<Rightarrow> ('w, unit) run" where
  "apply_hunks_to_files env host cwd hunks revision_guards prepared destinations verified_sites =
     bind (apply_run (validate_mutation_endpoints env host cwd hunks)) (\<lambda>previous_updates.
       bind (apply_run (capture_destination_preimages env host cwd hunks)) (\<lambda>captured.
         bind (ensure (captured = destinations)
             (from_text ''patch destination changed during preparation; no files were changed'')) (\<lambda>_.
           bind (loop (recheck_hunk env host cwd verified_sites previous_updates) prepared (enumerate 0 hunks)) (\<lambda>prepared.
             bind (apply_run (validate_revision_guards env host cwd revision_guards)) (\<lambda>_.
               loop (apply_hunk env host cwd destinations verified_sites prepared) () (enumerate 0 hunks))))))"

section \<open>Rollback\<close>

definition split_move :: "applied_patch_change \<Rightarrow> applied_patch_change list" where
  "split_move applied =
     (case (ch_change applied, ch_move_path_uri applied) of
        (Change_Update (Some destination) old overwritten new, Some destination_uri) \<Rightarrow>
          [\<lparr>ch_path = destination, ch_change = Change_Add new overwritten,
            ch_write_receipt = ch_write_receipt applied, ch_path_uri = destination_uri, ch_move_path_uri = None\<rparr>,
           \<lparr>ch_path = ch_path applied, ch_change = Change_Delete old, ch_write_receipt = None,
            ch_path_uri = ch_path_uri applied, ch_move_path_uri = None\<rparr>]
      | _ \<Rightarrow> [applied])"

definition is_unsplit_move :: "applied_patch_change \<Rightarrow> bool" where
  "is_unsplit_move applied =
     (case (ch_change applied, ch_move_path_uri applied) of
        (Change_Update (Some _) _ _ _, None) \<Rightarrow> True
      | _ \<Rightarrow> False)"

definition split_moves :: "applied_patch_delta \<Rightarrow> applied_patch_delta" where
  "split_moves d =
     d\<lparr>dl_changes := concat (map split_move (dl_changes d)),
       dl_exact := dl_exact d \<and> \<not> list_ex is_unsplit_move (dl_changes d)\<rparr>"

text \<open>What a change left at its path, and what was there before; \<^term>\<open>None\<close> for a move that is kept whole.\<close>

fun expected_and_original :: "applied_patch_file_change \<Rightarrow> (string option \<times> string option) option" where
  "expected_and_original (Change_Add content overwritten) = Some (Some content, overwritten)"
| "expected_and_original (Change_Delete content) = Some (None, Some content)"
| "expected_and_original (Change_Update (Some dest) old overwritten new) = None"
| "expected_and_original (Change_Update None old overwritten new) = Some (Some new, Some old)"

definition give_up :: "uri \<Rightarrow> ('w, unit) run" where
  "give_up path = bind (and_exact False) (\<lambda>_. on_manifest (uncertain path))"

definition regular_or_absent :: "('w, 'z) executor_fs_scheme \<Rightarrow> uri \<Rightarrow> ('w, bool, 'e) computation" where
  "regular_or_absent fs path =
     bind (attempt (fs_get_metadata fs path)) (\<lambda>r.
       ret (case r of
         Ok md \<Rightarrow> md_is_file md \<and> \<not> md_is_symlink md
       | Err e \<Rightarrow> io_kind e = NotFound))"

definition restorable :: "('w, 'z) executor_fs_scheme \<Rightarrow> uri \<Rightarrow> string option \<Rightarrow> ('w, bool, 'e) computation" where
  "restorable fs path expected =
     bind (regular_or_absent fs path) (\<lambda>regular.
       if regular then remove_failure_was_side_effect_free fs path expected else ret False)"

definition remove_change :: "nat \<Rightarrow> applied_patch_delta \<Rightarrow> applied_patch_delta" where
  "remove_change index d = d\<lparr>dl_changes := take index (dl_changes d) @ drop (Suc index) (dl_changes d)\<rparr>"

definition restore_change :: "apply_env \<Rightarrow> ('w, 'z) executor_fs_scheme \<Rightarrow> string list \<Rightarrow> nat \<Rightarrow> uri \<Rightarrow> string option \<Rightarrow>
    string option \<Rightarrow> ('w, string list) run" where
  "restore_change env fs errors index path expected original =
     bind (attempt (conditional_mutation env fs path expected original)) (\<lambda>r.
       case r of
         Ok _ \<Rightarrow> bind (change_delta (remove_change index)) (\<lambda>_. ret errors)
       | Err e \<Rightarrow>
           bind (reconcile_failed_mutation env fs e path expected) (\<lambda>_.
             ret (errors @ [en_chain_text env e])))"

definition rollback_change :: "apply_env \<Rightarrow> ('w, 'z) executor_fs_scheme \<Rightarrow> uri option \<Rightarrow> string list \<Rightarrow> nat \<Rightarrow>
    ('w, string list) run" where
  "rollback_change env fs recovery_path errors index =
     bind (gets (\<lambda>s. dl_changes (pr_delta s) ! index)) (\<lambda>applied.
       (let path = ch_path_uri applied in
        if recovery_path = Some path then bind (give_up path) (\<lambda>_. ret errors)
        else case expected_and_original (ch_change applied) of
               None \<Rightarrow> ret errors
             | Some (expected, original) \<Rightarrow>
                 bind (on_world (restorable fs path expected)) (\<lambda>restorable.
                   if \<not> restorable then bind (give_up path) (\<lambda>_. ret errors)
                   else restore_change env fs errors index path expected original)))"

definition rollback_committed_changes :: "apply_env \<Rightarrow> ('w, 'z) executor_fs_scheme \<Rightarrow> uri option \<Rightarrow> ('w, string list) run" where
  "rollback_committed_changes env fs recovery_path =
     bind (change_delta split_moves) (\<lambda>_.
       bind (gets (\<lambda>s. length (dl_changes (pr_delta s)))) (\<lambda>n.
         loop (rollback_change env fs recovery_path) [] (rev [0..<n])))"

section \<open>The whole operation\<close>

definition same_verified_destinations :: "apply_patch_action option \<Rightarrow> destinations \<Rightarrow> ('w, unit) run" where
  "same_verified_destinations verified destinations =
     (case verified of
        None \<Rightarrow> ret ()
      | Some action \<Rightarrow> ensure (destinations = act_destination_preimages action)
          (from_text ''patch destination changed after verification; no files were changed''))"

definition check_verified_delete :: "apply_env \<Rightarrow> ('w, 'z) apply_host_scheme \<Rightarrow> uri \<Rightarrow> hunk list \<Rightarrow> applied_patch option list \<Rightarrow>
    unit \<Rightarrow> uri \<times> apply_patch_file_change \<Rightarrow> ('w, unit) run" where
  "check_verified_delete env host cwd hunks prepared _ = (\<lambda>(path, change).
     case change of
       File_Delete content \<Rightarrow>
         bind (io_run (read_file_text host path)) (\<lambda>current.
           bind (ensure (current = content)
               (from_text (''delete source changed after verification; refusing to delete '' @ path))) (\<lambda>_.
             bind (of_result (ok_or (from_text ''verified delete is missing from patch'')
                 (find_index (\<lambda>h. resolve_path (en_paths env) cwd h = Ok path) hunks))) (\<lambda>index.
               ensure (map_option ap_original_contents (prepared ! index) = Some content)
                 (from_text (''delete source changed during preparation; refusing to delete '' @ path)))))
     | _ \<Rightarrow> ret ())"

definition check_verified :: "apply_env \<Rightarrow> ('w, 'z) apply_host_scheme \<Rightarrow> uri \<Rightarrow> hunk list \<Rightarrow> nat option list \<Rightarrow>
    applied_patch option list \<Rightarrow> apply_patch_action option \<Rightarrow> ('w, unit) run" where
  "check_verified env host cwd hunks previous_updates prepared verified =
     (case verified of
        None \<Rightarrow> ret ()
      | Some action \<Rightarrow>
          bind (loop (check_verified_delete env host cwd hunks prepared) () (act_changes action)) (\<lambda>_.
            of_result (ensure_rebased_updates_keep_their_sites env cwd previous_updates prepared action hunks)))"

definition attempt_hunks :: "apply_env \<Rightarrow> ('w, 'z) apply_host_scheme \<Rightarrow> uri \<Rightarrow> hunk list \<Rightarrow> file_revision_guard list \<Rightarrow>
    apply_patch_action option \<Rightarrow> ('w, unit) run" where
  "attempt_hunks env host cwd hunks revision_guards verified =
     bind (ensure (hunks \<noteq> []) (from_text ''No files were modified.'')) (\<lambda>_.
       bind (apply_run (validate_mutation_endpoints env host cwd hunks)) (\<lambda>previous_updates.
         bind (on_world (acquire env host cwd hunks revision_guards)) (\<lambda>transaction.
           bind (apply_run (validate_revision_guards env host cwd revision_guards)) (\<lambda>_.
             bind (apply_run (capture_destination_preimages env host cwd hunks)) (\<lambda>destinations.
               bind (same_verified_destinations verified destinations) (\<lambda>_.
                 bind (apply_run (preflight_hunks env host cwd previous_updates hunks)) (\<lambda>prepared.
                   bind (check_verified env host cwd hunks previous_updates prepared verified) (\<lambda>_.
                     apply_hunks_to_files env host cwd hunks revision_guards prepared destinations
                       (verified \<noteq> None \<or> revision_guards \<noteq> [])))))))))"

fun rejected_mismatches :: "any_error \<Rightarrow> patch_context_mismatch list" where
  "rejected_mismatches e =
     (case er_cause e of
        Cause_Apply (Context_Mismatch mm) \<Rightarrow> [mm]
      | Cause_Apply (Multiple_Patch_Conflicts report mismatches) \<Rightarrow> mismatches
      | _ \<Rightarrow> [])"

fun recovery_path :: "any_error \<Rightarrow> uri option" where
  "recovery_path e = (case er_cause e of Recovery_Required path _ _ \<Rightarrow> Some path | _ \<Rightarrow> None)"

fun final_error :: "string \<Rightarrow> any_error \<Rightarrow> apply_error" where
  "final_error msg e =
     (case er_cause e of
        Cause_Apply a \<Rightarrow> a
      | Cause_Io io \<Rightarrow> Io_Error msg io
      | _ \<Rightarrow> Io_Error msg \<lparr>io_kind = Other_Kind, io_text = msg\<rparr>)"

definition summary_line :: "hunk \<Rightarrow> string" where
  "summary_line h =
     (case h of
        AddFile p contents \<Rightarrow> ''A '' @ p
      | DeleteFile p \<Rightarrow> ''D '' @ p
      | UpdateFile p (Some dest) chunks \<Rightarrow> ''M '' @ p @ '' -> '' @ dest
      | UpdateFile p None chunks \<Rightarrow> ''M '' @ p) @ [LF]"

fun print_lines :: "('w, 'z) apply_host_scheme \<Rightarrow> string list \<Rightarrow> ('w, unit, io_error) computation" where
  "print_lines host [] = ret ()"
| "print_lines host (line # rest) = bind (ah_stdout host line) (\<lambda>_. print_lines host rest)"

definition print_summary :: "('w, 'z) apply_host_scheme \<Rightarrow> hunk list \<Rightarrow> ('w, unit, io_error) computation" where
  "print_summary host hunks =
     print_lines host ((''Success. Updated the following files:'' @ [LF]) # map summary_line hunks)"

definition report_success :: "('w, 'z) apply_host_scheme \<Rightarrow> hunk list \<Rightarrow> ('w patch_run, unit, apply_error) computation" where
  "report_success host hunks =
     bind (gets pr_delta) (\<lambda>d.
       bind (attempt (on_world
           (if dl_exact d \<and> dl_changes d = [] then ah_stdout host (''Success. unchanged: no file bytes were written.'' @ [LF])
            else print_summary host hunks))) (\<lambda>r.
         case r of
           Ok _ \<Rightarrow> ret ()
         | Err e \<Rightarrow>
             bind (attempt (on_world (ah_stderr host (io_text e @ [LF] @ failure_summary d)))) (\<lambda>_.
               throw (io_to_apply e))))"

definition report_failure :: "apply_env \<Rightarrow> ('w, 'z) apply_host_scheme \<Rightarrow> any_error \<Rightarrow> ('w patch_run, unit, apply_error) computation" where
  "report_failure env host e =
     bind (on_manifest (reject (rejected_mismatches e))) (\<lambda>_.
       bind (on_manifest (\<lambda>m. m\<lparr>mf_rolling_back := True\<rparr>)) (\<lambda>_.
         bind (attempt (rollback_committed_changes env host (recovery_path e))) (\<lambda>r.
           (let rollback_errors = (case r of Ok errors \<Rightarrow> errors | Err _ \<Rightarrow> []);
                e = (if rollback_errors = [] then e
                     else with_context (''rollback incomplete: '' @ join ''; '' rollback_errors) e);
                msg = en_chain_text env e
            in bind (on_manifest (\<lambda>m. m\<lparr>mf_rolling_back := False\<rparr>)) (\<lambda>_.
                 bind (map_error io_to_apply (on_world (ah_stderr host (msg @ [LF])))) (\<lambda>_.
                   bind (gets (failure_summary \<circ> pr_delta)) (\<lambda>summary.
                     bind (map_error io_to_apply (on_world (ah_stderr host summary))) (\<lambda>_.
                       throw (final_error msg e)))))))))"

text \<open>
  Both results carry the delta that the run ends with, as \<^verbatim>\<open>ApplyPatchFailure\<close> does for errors; the pair
  of the result and the final state holds them.
\<close>

definition apply_hunks_with_verified_action :: "apply_env \<Rightarrow> ('w, 'z) apply_host_scheme \<Rightarrow> uri \<Rightarrow> hunk list \<Rightarrow>
    file_revision_guard list \<Rightarrow> apply_patch_action option \<Rightarrow> 'w \<Rightarrow> (unit, apply_error) result \<times> 'w patch_run" where
  "apply_hunks_with_verified_action env host cwd hunks revision_guards verified w =
     (case attempt_hunks env host cwd hunks revision_guards verified
             \<lparr>pr_world = w, pr_delta = unattempted env cwd hunks\<rparr> of
        (Ok _, s) \<Rightarrow> report_success host hunks s
      | (Err e, s) \<Rightarrow>
          if er_cause e = Cause_Apply Panic then (Err Panic, s) else report_failure env host e s)"

definition parse_failure_line :: "parse_error \<Rightarrow> string" where
  "parse_failure_line e =
     (case e of
        InvalidPatchError message \<Rightarrow> ''Invalid patch: '' @ message
      | InvalidHunkError message line_number \<Rightarrow>
          ''Invalid patch hunk on line '' @ show_nat line_number @ '': '' @ message) @ [LF]"

definition without_delta :: "('w, unit, apply_error) computation \<Rightarrow> 'w \<Rightarrow> (unit, apply_error) result \<times> 'w patch_run" where
  "without_delta m w = (case m w of (r, w') \<Rightarrow> (r, \<lparr>pr_world = w', pr_delta = delta_new [] True\<rparr>))"

definition apply_patch_with_cancellation :: "apply_env \<Rightarrow> ('w, 'z) apply_host_scheme \<Rightarrow> uri \<Rightarrow> string \<Rightarrow> 'w \<Rightarrow>
    (unit, apply_error) result \<times> 'w patch_run" where
  "apply_patch_with_cancellation env host cwd patch w =
     (case parse_patch patch of
        Err e \<Rightarrow> without_delta (bind (map_error io_to_apply (ah_stderr host (parse_failure_line e)))
                   (\<lambda>_. throw (Parse_Error e))) w
      | Ok args \<Rightarrow>
          apply_hunks_with_verified_action env host cwd (args_hunks args) (args_revision_guards args) None w)"

definition apply_verified_patch_with_cancellation :: "apply_env \<Rightarrow> ('w, 'z) apply_host_scheme \<Rightarrow> apply_patch_action \<Rightarrow> 'w \<Rightarrow>
    (unit, apply_error) result \<times> 'w patch_run" where
  "apply_verified_patch_with_cancellation env host action w =
     (case parse_patch (act_patch action) of
        Err e \<Rightarrow> without_delta (throw (Parse_Error e)) w
      | Ok args \<Rightarrow>
          apply_hunks_with_verified_action env host (act_cwd action) (args_hunks args) (args_revision_guards args)
            (Some action) w)"

end
