(* ===== verification/Apply_Contract.thy ===== *)
theory Apply_Contract
  imports Patch_Apply
begin

text \<open>
  The contract that patch application relies on, and the reasoning that carries over it.

  \<^item> \<open>frame R m\<close>: the computation \<open>m\<close> moves the state along the relation \<open>R\<close>, whether it succeeds or
    fails. Preorders are framed by sequences, loops and handlers, so most steps need no proof of their own.
  \<^item> \<open>triple P m Q E\<close>: partial correctness with one postcondition for values and one for errors.
  \<^item> \<open>quiet_executor\<close>: an executor as the trait documents it, while nobody else writes to the files of
    the patch. \<open>contents\<close> gives the bytes at an endpoint, \<open>ep\<close> the endpoint that a path denotes (paths
    with the same endpoint are aliases), \<open>link\<close> the paths that are links themselves. The laws allow
    every operation to fail; a conditional mutation that fails may have damaged its own endpoint, but
    only if the expected bytes were there and no directory was missing.
\<close>

named_theorems framed \<open>computations that move along a preorder\<close>

section \<open>Frames\<close>

definition frame :: "('s \<Rightarrow> 's \<Rightarrow> bool) \<Rightarrow> ('s, 'a, 'e) computation \<Rightarrow> bool" where
  "frame R m \<longleftrightarrow> (\<forall>s r s'. m s = (r, s') \<longrightarrow> R s s')"

lemma frameD: "frame R m \<Longrightarrow> m s = (r, s') \<Longrightarrow> R s s'"
  by (simp add: frame_def)

locale preorder_frame =
  fixes R :: "'s \<Rightarrow> 's \<Rightarrow> bool"
  assumes refl: "R s s" and trans: "R s t \<Longrightarrow> R t u \<Longrightarrow> R s u"
begin

lemma ret: "frame R (ret a)"
  by (simp add: frame_def ret_def refl)

lemma throw: "frame R (throw e)"
  by (simp add: frame_def throw_def refl)

lemma of_result: "frame R (of_result r)"
  by (simp add: frame_def of_result_def refl)

lemma gets: "frame R (gets f)"
  by (simp add: frame_def gets_def refl)

lemma ensure: "frame R (ensure b e)"
  by (simp add: ensure_def ret throw)

lemma bind: "frame R m \<Longrightarrow> (\<And>a. frame R (f a)) \<Longrightarrow> frame R (bind m f)"
  unfolding frame_def bind_def by (force split: prod.splits result.splits intro: trans)

lemma attempt: "frame R m \<Longrightarrow> frame R (attempt m)"
  by (auto simp: frame_def attempt_def split: prod.splits)

lemma map_error: "frame R m \<Longrightarrow> frame R (map_error f m)"
  by (auto simp: frame_def map_error_def split: prod.splits)

lemma loop: "(\<And>b x. frame R (body b x)) \<Longrightarrow> frame R (loop body b xs)"
  by (induction xs arbitrary: b) (auto intro: ret bind)

lemma case_prod: "(\<And>a b. frame R (f a b)) \<Longrightarrow> frame R (case p of (a, b) \<Rightarrow> f a b)"
  by (cases p) simp

lemma case_result: "(\<And>a. frame R (f a)) \<Longrightarrow> (\<And>e. frame R (g e)) \<Longrightarrow> frame R (case r of Ok a \<Rightarrow> f a | Err e \<Rightarrow> g e)"
  by (cases r) simp_all

lemma case_option: "frame R f \<Longrightarrow> (\<And>a. frame R (g a)) \<Longrightarrow> frame R (case r of None \<Rightarrow> f | Some a \<Rightarrow> g a)"
  by (cases r) simp_all

lemma if_then: "(b \<Longrightarrow> frame R m) \<Longrightarrow> (\<not> b \<Longrightarrow> frame R n) \<Longrightarrow> frame R (if b then m else n)"
  by simp

lemmas rules = ret throw of_result gets ensure bind attempt map_error loop case_prod case_result case_option if_then

end

section \<open>Triples\<close>

definition triple :: "('s \<Rightarrow> bool) \<Rightarrow> ('s, 'a, 'e) computation \<Rightarrow> ('a \<Rightarrow> 's \<Rightarrow> bool) \<Rightarrow> ('e \<Rightarrow> 's \<Rightarrow> bool) \<Rightarrow> bool" where
  "triple P m Q E \<longleftrightarrow>
     (\<forall>s. P s \<longrightarrow> (case m s of (Ok a, t) \<Rightarrow> Q a t | (Err e, t) \<Rightarrow> E e t))"

lemma tripleD_Ok: "triple P m Q E \<Longrightarrow> P s \<Longrightarrow> m s = (Ok a, t) \<Longrightarrow> Q a t"
  by (fastforce simp: triple_def)

lemma tripleD_Err: "triple P m Q E \<Longrightarrow> P s \<Longrightarrow> m s = (Err e, t) \<Longrightarrow> E e t"
  by (fastforce simp: triple_def)

lemma tripleI:
  assumes "\<And>s a t. P s \<Longrightarrow> m s = (Ok a, t) \<Longrightarrow> Q a t" "\<And>s e t. P s \<Longrightarrow> m s = (Err e, t) \<Longrightarrow> E e t"
  shows "triple P m Q E"
  using assms by (auto simp: triple_def split: prod.splits result.splits)

lemma triple_conseq:
  assumes "triple P m Q E" "\<And>s. P' s \<Longrightarrow> P s" "\<And>a s. Q a s \<Longrightarrow> Q' a s" "\<And>e s. E e s \<Longrightarrow> E' e s"
  shows "triple P' m Q' E'"
  using tripleD_Ok[OF assms(1)] tripleD_Err[OF assms(1)] assms(2-4) by (intro tripleI) blast+

lemma triple_ret: "(\<And>s. P s \<Longrightarrow> Q a s) \<Longrightarrow> triple P (ret a) Q E"
  by (simp add: triple_def ret_def)

lemma triple_throw: "(\<And>s. P s \<Longrightarrow> E e s) \<Longrightarrow> triple P (throw e) Q E"
  by (simp add: triple_def throw_def)

lemma triple_of_result:
  "(\<And>a s. r = Ok a \<Longrightarrow> P s \<Longrightarrow> Q a s) \<Longrightarrow> (\<And>e s. P s \<Longrightarrow> E e s) \<Longrightarrow> triple P (of_result r) Q E"
  by (cases r) (simp_all add: triple_def of_result_def)

lemma triple_gets: "(\<And>s. P s \<Longrightarrow> Q (f s) s) \<Longrightarrow> triple P (gets f) Q E"
  by (simp add: triple_def gets_def)

lemma triple_modify: "(\<And>s. P s \<Longrightarrow> Q () (f s)) \<Longrightarrow> triple P (modify f) Q E"
  by (simp add: triple_def modify_def)

lemma triple_ensure: "(\<And>s. b \<Longrightarrow> P s \<Longrightarrow> Q () s) \<Longrightarrow> (\<And>s. P s \<Longrightarrow> E e s) \<Longrightarrow> triple P (ensure b e) Q E"
  by (simp add: ensure_def triple_ret triple_throw)

lemma triple_bind:
  assumes "triple P m Q E" "\<And>a. triple (Q a) (f a) R E"
  shows "triple P (bind m f) R E"
proof (rule tripleI)
  fix s a t assume s: "P s" "bind m f s = (Ok a, t)"
  then obtain b u where "m s = (Ok b, u)" "f b u = (Ok a, t)"
    by (auto simp: bind_def split: prod.splits result.splits)
  then show "R a t" using tripleD_Ok[OF assms(1) s(1)] tripleD_Ok[OF assms(2)] by blast
next
  fix s e t assume s: "P s" "bind m f s = (Err e, t)"
  then consider "m s = (Err e, t)" | b u where "m s = (Ok b, u)" "f b u = (Err e, t)"
    by (auto simp: bind_def split: prod.splits result.splits)
  then show "E e t"
    using tripleD_Err[OF assms(1) s(1)] tripleD_Ok[OF assms(1) s(1)] tripleD_Err[OF assms(2)] by cases blast+
qed

lemma triple_attempt:
  assumes "triple P m (\<lambda>a. Q (Ok a)) (\<lambda>e. Q (Err e))"
  shows "triple P (attempt m) Q E"
  using tripleD_Ok[OF assms] tripleD_Err[OF assms]
  by (intro tripleI) (auto simp: attempt_def split: prod.splits, metis result.exhaust)

lemma triple_map_error:
  assumes "triple P m Q (\<lambda>e. E (f e))"
  shows "triple P (map_error f m) Q E"
proof (rule tripleI)
  fix s a t assume "P s" "map_error f m s = (Ok a, t)"
  then show "Q a t" using tripleD_Ok[OF assms] by (auto simp: map_error_def split: prod.splits)
next
  fix s e t assume s: "P s" "map_error f m s = (Err e, t)"
  obtain r u where m: "m s = (r, u)" by fastforce
  with s show "E e t" using tripleD_Err[OF assms s(1)] by (cases r) (auto simp: map_error_def)
qed

lemma triple_loop:
  assumes "\<And>i b. i < length xs \<Longrightarrow> triple (I i b) (body b (xs ! i)) (I (Suc i)) E"
  shows "triple (I 0 b) (loop body b xs) (I (length xs)) E"
  using assms
proof (induction xs arbitrary: I b)
  case (Cons x xs)
  have "triple (I 0 b) (body b x) (I (Suc 0)) E" using Cons.prems[of 0 b] by simp
  moreover have "triple (I (Suc 0) c) (loop body c xs) (\<lambda>b. I (Suc (length xs)) b) E" for c
    using Cons.IH[of "\<lambda>i. I (Suc i)" c] Cons.prems[of "Suc i" for i] by force
  ultimately show ?case by (auto intro: triple_bind)
qed (simp add: triple_ret)

text \<open>A framed computation keeps what its preorder keeps.\<close>

lemma triple_frame:
  assumes "frame R m" "\<And>s t. P s \<Longrightarrow> R s t \<Longrightarrow> Q t"
  shows "triple P m (\<lambda>_. Q) (\<lambda>_. Q)"
  using assms by (auto simp: triple_def frame_def split: prod.splits result.splits)

section \<open>Steps that change no file\<close>

abbreviation silent :: "('w \<Rightarrow> 'c) \<Rightarrow> ('w, 'a, 'e) computation \<Rightarrow> bool" where
  "silent contents \<equiv> frame (\<lambda>w w'. contents w' = contents w)"

interpretation quiet: preorder_frame "\<lambda>w w'. contents w' = contents w" for contents :: "'w \<Rightarrow> 'c"
  by unfold_locales auto

text \<open>A calm step of a run writes no file, records no change and never makes an inexact delta exact.\<close>

definition calm_step :: "('w \<Rightarrow> 'c) \<Rightarrow> 'w patch_run \<Rightarrow> 'w patch_run \<Rightarrow> bool" where
  "calm_step contents s t \<longleftrightarrow> contents (pr_world t) = contents (pr_world s)
     \<and> dl_changes (pr_delta t) = dl_changes (pr_delta s) \<and> (dl_exact (pr_delta t) \<longrightarrow> dl_exact (pr_delta s))"

interpretation calm: preorder_frame "calm_step contents" for contents :: "'w \<Rightarrow> 'c"
  by unfold_locales (auto simp: calm_step_def)

lemma frame_on_world: "silent contents m \<Longrightarrow> frame (calm_step contents) (on_world m)"
  by (auto simp: frame_def on_world_def calm_step_def split: prod.splits)

lemma frame_io_run: "silent contents m \<Longrightarrow> frame (calm_step contents) (io_run m)"
  by (simp add: io_run_def calm.map_error frame_on_world)

lemma frame_apply_run: "silent contents m \<Longrightarrow> frame (calm_step contents) (apply_run m)"
  by (simp add: apply_run_def calm.map_error frame_on_world)

lemma frame_change_delta:
  assumes "\<And>d. dl_changes (f d) = dl_changes d \<and> (dl_exact (f d) \<longrightarrow> dl_exact d)"
  shows "frame (calm_step contents) (change_delta f)"
  using assms by (auto simp: frame_def change_delta_def modify_def calm_step_def)

lemma frame_on_manifest: "frame (calm_step contents) (on_manifest f)"
  unfolding on_manifest_def by (rule frame_change_delta) simp

lemma frame_and_exact: "frame (calm_step contents) (and_exact b)"
  unfolding and_exact_def by (rule frame_change_delta) simp

lemmas calm_steps = calm.rules frame_on_world frame_io_run frame_apply_run frame_on_manifest frame_and_exact

section \<open>The contract\<close>

locale quiet_executor =
  fixes env :: apply_env
    and host :: "('w, 'z) apply_host_scheme"
    and contents :: "'w \<Rightarrow> 'e \<Rightarrow> string option"
    and ep :: "uri \<Rightarrow> 'e"
    and link :: "uri \<Rightarrow> bool"
  assumes silent_read: "silent contents (fs_read_file host p)"
    and silent_metadata: "silent contents (fs_get_metadata host p)"
    and silent_create: "silent contents (fs_create_directory host p)"
    and silent_canonicalize: "silent contents (fs_canonicalize host p)"
    and silent_case: "silent contents (fs_directory_case_sensitive host p)"
    and silent_symlink_metadata: "ah_symlink_metadata host p w = (mode, w') \<Longrightarrow> contents w' = contents w"
    and silent_cancelled: "ah_is_cancelled host w = (stop, w') \<Longrightarrow> contents w' = contents w"
    and silent_stdout: "silent contents (ah_stdout host t)"
    and silent_stderr: "silent contents (ah_stderr host t)"
    and silent_lease_directory: "silent contents (ah_lease_directory host)"
    and silent_open_lease: "silent contents (ah_open_lease host d k)"
    and silent_try_lock: "silent contents (ah_try_lock host d k x)"
    and read_found: "fs_read_file host p w = (Ok c, w') \<Longrightarrow> contents w (ep p) = Some c"
    and metadata_link: "fs_get_metadata host p w = (Ok md, w') \<Longrightarrow> md_is_symlink md = link p"
    and metadata_missing: "fs_get_metadata host p w = (Err err, w') \<Longrightarrow> io_kind err = NotFound \<Longrightarrow>
          contents w (ep p) = None \<and> \<not> link p"
    and mutate_frame: "fs_mutate_file_if_matches host p e r w = (res, w') \<Longrightarrow> r = None \<longrightarrow> \<not> link p \<Longrightarrow> q \<noteq> ep p \<Longrightarrow>
          contents w' q = contents w q"
    and mutate_refuses: "fs_mutate_file_if_matches host p e r w = (res, w') \<Longrightarrow> r = None \<longrightarrow> \<not> link p \<Longrightarrow>
          contents w (ep p) \<noteq> e \<Longrightarrow> contents w' = contents w"
    and mutate_committed: "fs_mutate_file_if_matches host p e r w = (Ok Committed, w') \<Longrightarrow> r = None \<longrightarrow> \<not> link p \<Longrightarrow>
          contents w (ep p) = e \<and> contents w' (ep p) = r \<and> e \<noteq> r"
    and mutate_unchanged: "fs_mutate_file_if_matches host p e r w = (Ok Unchanged, w') \<Longrightarrow> r = None \<longrightarrow> \<not> link p \<Longrightarrow>
          contents w (ep p) = e \<and> e = r \<and> contents w' = contents w"
    and mutate_conflict: "fs_mutate_file_if_matches host p e r w = (Ok Conflict, w') \<Longrightarrow> r = None \<longrightarrow> \<not> link p \<Longrightarrow>
          contents w' = contents w"
    and mutate_missing: "fs_mutate_file_if_matches host p e r w = (Err err, w') \<Longrightarrow> io_kind err = NotFound \<Longrightarrow>
          contents w' = contents w"
    and identity_aliases: "mutation_endpoint_identity env host p w = (Ok a, w1) \<Longrightarrow>
          mutation_endpoint_identity env host p' w' = (Ok b, w2) \<Longrightarrow> contents w' = contents w \<Longrightarrow> ep p = ep p' \<Longrightarrow> a = b"
begin

lemmas silent_basic = silent_read silent_metadata silent_create silent_canonicalize silent_case silent_stdout
  silent_stderr silent_lease_directory silent_open_lease silent_try_lock

lemma silent_read_text: "silent contents (read_file_text host p)"
  unfolding read_file_text_def by (intro quiet.rules silent_basic)

lemma read_text_found: "read_file_text host p w = (Ok c, w') \<Longrightarrow> contents w (ep p) = Some c"
  by (auto simp: read_file_text_def bind_def ret_def throw_def dest!: read_found split: prod.splits result.splits if_splits)

lemma silent_inspect: "silent contents (inspect_endpoint env host p c e)"
  unfolding inspect_endpoint_def by (intro quiet.rules silent_basic)

lemma silent_resolve: "silent contents (resolve_endpoint env host p segs cands)"
proof (induction cands arbitrary: segs)
  case (Cons c cs)
  show ?case
    by (subst resolve_endpoint.simps(2))
       (intro quiet.rules silent_basic silent_inspect Cons.IH, subst resolve_endpoint.simps(1), rule quiet.throw)
qed (simp add: quiet.throw)

lemma silent_identity: "silent contents (mutation_endpoint_identity env host p)"
  unfolding mutation_endpoint_identity_def Let_def by (intro quiet.rules silent_basic silent_resolve)

lemma silent_claim: "silent contents (claim_endpoint env host i h table p)"
  by (cases table) (simp only: claim_endpoint_def Let_def prod.case, intro quiet.rules silent_identity)

lemma silent_claim_hunk: "silent contents (claim_hunk env host cwd table ih)"
  unfolding claim_hunk_def by (intro quiet.rules silent_claim)

lemma silent_validate: "silent contents (validate_mutation_endpoints env host cwd hunks)"
  unfolding validate_mutation_endpoints_def by (intro quiet.rules silent_claim_hunk)

lemma silent_lease_of: "silent contents (lease_of env host p)"
  unfolding lease_of_def by (intro quiet.rules silent_identity)

lemma silent_identities: "silent contents (identities env host cwd hunks guards)"
  unfolding identities_def hunk_leases_def guard_leases_def Let_def by (intro quiet.rules silent_lease_of)

lemma silent_acquire: "silent contents (acquire env host cwd hunks guards)"
  unfolding acquire_def lock_lease_def Let_def by (intro quiet.rules silent_basic silent_identities)

lemma silent_guards: "silent contents (validate_revision_guards env host cwd guards)"
  unfolding validate_revision_guards_def check_guard_def guard_state_def Let_def
  by (intro quiet.rules silent_basic)

lemma silent_capture: "silent contents (capture_destination_preimages env host cwd hunks)"
  unfolding capture_destination_preimages_def capture_destination_def by (intro quiet.rules silent_read_text)

lemma silent_update_source: "silent contents (read_update_source env host p)"
  unfolding read_update_source_def by (intro quiet.rules silent_read_text)

lemma silent_derive: "silent contents (derive_new_contents_from_chunks env host p chunks i)"
  unfolding derive_new_contents_from_chunks_def by (intro quiet.rules silent_update_source)

lemma silent_preflight_hunk: "silent contents (preflight_hunk env host cwd previous pf ih)"
  unfolding preflight_hunk_def
  by (cases "snd ih") (auto intro!: quiet.rules silent_basic silent_read_text silent_update_source split: prod.split)

lemma silent_preflight: "silent contents (preflight_hunks env host cwd previous hunks)"
  unfolding preflight_hunks_def by (intro quiet.rules silent_preflight_hunk)

lemma silent_side_effect_free: "silent contents (remove_failure_was_side_effect_free host p e)"
  unfolding remove_failure_was_side_effect_free_def by (intro quiet.rules silent_basic silent_read_text)

lemma silent_restorable: "silent contents (restorable host p e)"
  unfolding restorable_def regular_or_absent_def by (intro quiet.rules silent_basic silent_side_effect_free)

lemma silent_not_directory: "silent contents (ensure_not_directory host p)"
  unfolding ensure_not_directory_def by (intro quiet.rules silent_basic)

lemma silent_mode: "silent contents (preimage_mode env host p)"
  unfolding preimage_mode_def
  by (intro quiet.rules) (auto simp: frame_def dest: silent_symlink_metadata split: prod.splits)

lemma silent_stop: "silent contents (\<lambda>w. case ah_is_cancelled host w of (b, w') \<Rightarrow> (Ok b, w'))"
  by (auto simp: frame_def dest: silent_cancelled split: prod.splits)

lemma silent_summary: "silent contents (print_summary host hunks)"
proof -
  have "silent contents (print_lines host ls)" for ls
    by (induction ls) (auto intro: quiet.rules silent_basic)
  then show ?thesis unfolding print_summary_def .
qed

lemmas silent_steps = silent_basic silent_read_text silent_identity silent_validate silent_acquire silent_guards
  silent_capture silent_derive silent_preflight silent_side_effect_free silent_restorable silent_not_directory
  silent_mode silent_stop silent_summary

lemma calm_note_mode: "frame (calm_step contents) (note_mode env host p)"
  unfolding note_mode_def
  by (intro calm_steps frame_change_delta silent_steps) (auto simp: Let_def split: option.splits)

lemma calm_cancelled: "frame (calm_step contents) (cancelled host)"
  unfolding cancelled_def by (intro calm_steps silent_steps)

lemma calm_note_identity: "frame (calm_step contents) (change_delta (note_identity env p i))"
  by (rule frame_change_delta) (simp add: note_identity_def)

lemma calm_support: "frame (calm_step contents) (note_existing_path_delta_support host p)"
  unfolding note_existing_path_delta_support_def
  by (rule calm.bind, rule frame_on_world, rule quiet.attempt, rule silent_metadata, rule frame_and_exact)

lemma calm_reconcile: "frame (calm_step contents) (reconcile_failed_mutation env host e p x)"
  unfolding reconcile_failed_mutation_def by (intro calm_steps silent_steps)

lemma calm_current_update: "frame (calm_step contents) (current_update env host v i prep p chunks)"
  unfolding current_update_def by (intro calm_steps silent_steps)

lemma calm_recheck: "frame (calm_step contents) (recheck_hunk env host cwd v previous prepared ih)"
  unfolding recheck_hunk_def Let_def
  by (cases "snd ih") (auto intro!: calm_steps silent_steps split: prod.split)

lemma calm_check_verified: "frame (calm_step contents) (check_verified env host cwd hunks previous prepared verified)"
proof -
  have "frame (calm_step contents) (check_verified_delete env host cwd hunks prepared u pc)" for u pc
    unfolding check_verified_delete_def
    by (cases "snd pc") (auto intro!: calm_steps silent_steps split: prod.split)
  then show ?thesis unfolding check_verified_def by (intro calm_steps)
qed

lemma calm_same_destinations: "frame (calm_step contents) (same_verified_destinations verified destinations)"
  unfolding same_verified_destinations_def by (intro calm_steps)

lemma calm_give_up: "frame (calm_step contents) (give_up p)"
  unfolding give_up_def by (intro calm_steps)

end

end
