(* ===== verification/Apply_Writes.thy ===== *)
theory Apply_Writes
  imports Apply_Contract
begin

text \<open>
  What the recorded changes mean. A change stands for one write or, for a move, two: a path, the bytes
  there before, and the bytes there after. \<open>replay\<close> performs writes on the contents of endpoints;
  \<open>chained\<close> says that each write found the bytes it names; \<open>effective\<close> that a write which changes
  nothing is the first one at its endpoint. \<open>pending\<close> is the invariant of a run: as long as the delta is
  exact, the files are the initial files with the recorded writes, and then some that are not yet recorded.
\<close>

type_synonym file_write = "uri \<times> string option \<times> string option"

definition change_writes :: "applied_patch_change \<Rightarrow> file_write list" where
  "change_writes c =
     (case ch_change c of
        Change_Add new overwritten \<Rightarrow> [(ch_path_uri c, overwritten, Some new)]
      | Change_Delete old \<Rightarrow> [(ch_path_uri c, Some old, None)]
      | Change_Update None old _ new \<Rightarrow> [(ch_path_uri c, Some old, Some new)]
      | Change_Update (Some _) old overwritten new \<Rightarrow>
          (case ch_move_path_uri c of
             None \<Rightarrow> []
           | Some dest \<Rightarrow> [(dest, overwritten, Some new), (ch_path_uri c, Some old, None)]))"

definition all_writes :: "applied_patch_change list \<Rightarrow> file_write list" where
  "all_writes cs = concat (map change_writes cs)"

fun replay :: "(uri \<Rightarrow> 'e) \<Rightarrow> ('e \<Rightarrow> string option) \<Rightarrow> file_write list \<Rightarrow> 'e \<Rightarrow> string option" where
  "replay ep f [] = f"
| "replay ep f ((p, before, after) # ws) = replay ep (f(ep p := after)) ws"

fun chained :: "(uri \<Rightarrow> 'e) \<Rightarrow> ('e \<Rightarrow> string option) \<Rightarrow> file_write list \<Rightarrow> bool" where
  "chained ep f [] \<longleftrightarrow> True"
| "chained ep f ((p, before, after) # ws) \<longleftrightarrow> f (ep p) = before \<and> chained ep (f(ep p := after)) ws"

fun effective :: "(uri \<Rightarrow> 'e) \<Rightarrow> 'e set \<Rightarrow> file_write list \<Rightarrow> bool" where
  "effective ep E [] \<longleftrightarrow> True"
| "effective ep E ((p, before, after) # ws) \<longleftrightarrow>
     (before \<noteq> after \<or> ep p \<notin> E) \<and> effective ep (insert (ep p) E) ws"

definition endpoints_of :: "(uri \<Rightarrow> 'e) \<Rightarrow> file_write list \<Rightarrow> 'e set" where
  "endpoints_of ep ws = (\<lambda>w. ep (fst w)) ` set ws"

lemma all_writes_simps [simp]:
  "all_writes [] = []" "all_writes (c # cs) = change_writes c @ all_writes cs" "all_writes (cs @ ds) = all_writes cs @ all_writes ds"
  by (simp_all add: all_writes_def)

lemma endpoints_of_simps [simp]:
  "endpoints_of ep [] = {}" "endpoints_of ep (w # ws) = insert (ep (fst w)) (endpoints_of ep ws)"
  "endpoints_of ep (ws @ vs) = endpoints_of ep ws \<union> endpoints_of ep vs"
  by (auto simp: endpoints_of_def)

lemma replay_append [simp]: "replay ep f (ws @ vs) = replay ep (replay ep f ws) vs"
  by (induction ws arbitrary: f) auto

lemma chained_append [simp]: "chained ep f (ws @ vs) \<longleftrightarrow> chained ep f ws \<and> chained ep (replay ep f ws) vs"
  by (induction ws arbitrary: f) auto

lemma effective_append [simp]:
  "effective ep E (ws @ vs) \<longleftrightarrow> effective ep E ws \<and> effective ep (E \<union> endpoints_of ep ws) vs"
  by (induction ws arbitrary: E) auto

lemma replay_other: "q \<notin> endpoints_of ep ws \<Longrightarrow> replay ep f ws q = f q"
  by (induction ws arbitrary: f) auto

lemma replay_cong: "f q = g q \<Longrightarrow> replay ep f ws q = replay ep g ws q"
proof (induction ws arbitrary: f g)
  case (Cons w ws)
  obtain p b a where "w = (p, b, a)" by (cases w)
  moreover have "replay ep (f(ep p := a)) ws q = replay ep (g(ep p := a)) ws q"
    by (rule Cons.IH) (simp add: Cons.prems)
  ultimately show ?case by (simp only: replay.simps)
qed simp

section \<open>The invariant of a run\<close>

context quiet_executor
begin

abbreviation files :: "'w patch_run \<Rightarrow> 'e \<Rightarrow> string option" where
  "files s \<equiv> contents (pr_world s)"

abbreviation exact :: "'w patch_run \<Rightarrow> bool" where
  "exact s \<equiv> dl_exact (pr_delta s)"

abbreviation changes :: "'w patch_run \<Rightarrow> applied_patch_change list" where
  "changes s \<equiv> dl_changes (pr_delta s)"

definition pending :: "('e \<Rightarrow> string option) \<Rightarrow> file_write list \<Rightarrow> 'w patch_run \<Rightarrow> bool" where
  "pending f0 ws s \<longleftrightarrow> (exact s \<longrightarrow>
     files s = replay ep f0 (all_writes (changes s) @ ws)
     \<and> chained ep f0 (all_writes (changes s) @ ws)
     \<and> effective ep {} (all_writes (changes s) @ ws))"

lemma pending_calm: "pending f0 ws s \<Longrightarrow> calm_step contents s t \<Longrightarrow> pending f0 ws t"
  by (auto simp: pending_def calm_step_def)

section \<open>Mutations\<close>

definition no_effect :: "any_error \<Rightarrow> bool" where
  "no_effect x \<longleftrightarrow> is_no_write_conflict x \<or> (case er_cause x of Cause_Io io \<Rightarrow> io_kind io = NotFound | _ \<Rightarrow> False)"

text \<open>What a conditional mutation of \<open>p\<close> from \<open>e\<close> to \<open>r\<close> may do.\<close>

definition mutated :: "uri \<Rightarrow> string option \<Rightarrow> string option \<Rightarrow>
    (applied_patch_write_receipt option, any_error) result \<Rightarrow> 'w patch_run \<Rightarrow> 'w patch_run \<Rightarrow> bool" where
  "mutated p e r res s t \<longleftrightarrow>
     changes t = changes s \<and> (exact t \<longrightarrow> exact s)
   \<and> ((r = None \<longrightarrow> \<not> link p) \<longrightarrow>
       (\<forall>q. q \<noteq> ep p \<longrightarrow> files t q = files s q)
     \<and> (files s (ep p) \<noteq> e \<longrightarrow> files t = files s)
     \<and> (\<forall>rc. res = Ok rc \<longrightarrow> files s (ep p) = e \<and> files t (ep p) = r \<and> (r \<noteq> None \<longrightarrow> (rc = None \<longleftrightarrow> e = r)))
     \<and> (\<forall>x. res = Err x \<longrightarrow> no_effect x \<longrightarrow> files t = files s))"

lemma no_effect_simps [simp]:
  "no_effect (from_io x) \<longleftrightarrow> io_kind x = NotFound" "no_effect (cause (No_Write_Conflict p))"
  "\<not> no_effect (cause (Recovery_Required p k m))" "no_effect (with_context c y) = no_effect y"
  by (auto simp: no_effect_def is_no_write_conflict_def from_io_def cause_def with_context_def)

lemma conditional_mutation_mutated:
  assumes "conditional_mutation env host p e r s = (res, t)"
  shows "mutated p e r res s t"
proof -
  obtain o' w where m: "fs_mutate_file_if_matches host p e r (pr_world s) = (o', w)" by fastforce
  have delta: "changes t = changes s" "exact t \<longrightarrow> exact s" "pr_world t = w"
    using assms m
    by (auto simp: conditional_mutation_def Let_def bind_def on_world_def attempt_def on_manifest_def change_delta_def
        modify_def throw_def ret_def and_exact_def split: result.splits file_mutation_outcome.splits)
  have res: "res = (case o' of Err x \<Rightarrow> Err (from_io x)
      | Ok Committed \<Rightarrow> Ok (map_option (\<lambda>bytes. \<lparr>rc_sha256 = en_sha256 env bytes, rc_bytes = length bytes\<rparr>) r)
      | Ok Unchanged \<Rightarrow> Ok None | Ok Conflict \<Rightarrow> Err (cause (No_Write_Conflict p))
      | Ok (RecoveryRequired k message) \<Rightarrow> Err (cause (Recovery_Required p k message)))"
    using assms m
    by (auto simp: conditional_mutation_def Let_def bind_def on_world_def attempt_def on_manifest_def change_delta_def
        modify_def throw_def ret_def and_exact_def split: result.splits file_mutation_outcome.splits)
  show ?thesis
    unfolding mutated_def
  proof (intro conjI impI allI)
    assume l: "r = None \<longrightarrow> \<not> link p"
    show "files t q = files s q" if "q \<noteq> ep p" for q using mutate_frame[OF m l that] delta by simp
    show "files t = files s" if "files s (ep p) \<noteq> e" using mutate_refuses[OF m l that] delta by simp
    fix rc assume rc: "res = Ok rc"
    then consider "o' = Ok Committed" | "o' = Ok Unchanged"
      using res by (auto split: result.splits file_mutation_outcome.splits)
    then have "files s (ep p) = e \<and> files t (ep p) = r \<and> (r \<noteq> None \<longrightarrow> (rc = None \<longleftrightarrow> e = r))"
      using m mutate_committed[OF _ l] mutate_unchanged[OF _ l] rc res delta(3) by cases auto
    then show "files s (ep p) = e" "files t (ep p) = r" "r \<noteq> None \<Longrightarrow> (rc = None) = (e = r)" by auto
  next
    fix x assume "r = None \<longrightarrow> \<not> link p" "res = Err x" "no_effect x"
    then show "files t = files s"
      using res m mutate_conflict mutate_missing delta(3) by (auto split: result.splits file_mutation_outcome.splits)
  qed (use delta in auto)
qed

lemma mutated_context:
  assumes "mutated p e r res s t"
  shows "mutated p e r (map_err (with_context c) res) s t"
  using assms by (cases res) (auto simp: mutated_def)

lemma mutated_after_calm:
  assumes "calm_step contents s u" "mutated p e r res u v"
  shows "mutated p e r res s v"
  using assms by (auto simp: mutated_def calm_step_def)

lemma mutated_calm_failure:
  assumes "calm_step contents s u"
  shows "mutated p e r (Err x) s u"
  using assms by (auto simp: mutated_def calm_step_def)

text \<open>The retry after the creation of missing parents does what one mutation does.\<close>

lemma retry_mutated:
  assumes "write_file_with_missing_parent_retry env host p e c s = (res, t)"
  shows "mutated p e (Some c) res s t"
proof -
  obtain r1 t1 where m1: "conditional_mutation env host p e (Some c) s = (r1, t1)" by fastforce
  note mut1 = conditional_mutation_mutated[OF m1]
  show ?thesis
  proof (cases r1)
    case (Ok rc)
    with assms m1 mut1 show ?thesis
      by (simp add: write_file_with_missing_parent_retry_def bind_def attempt_def ret_def)
  next
    case (Err x)
    define again where "again = (case er_cause x of Cause_Io io \<Rightarrow> io_kind io = NotFound | _ \<Rightarrow> False)"
    show ?thesis
    proof (cases again)
      case False
      with assms m1 Err have "res = Err (with_context (''Failed to write file '' @ native env p) x)" "t = t1"
        by (auto simp: write_file_with_missing_parent_retry_def bind_def attempt_def throw_def again_def)
      with mut1 Err mutated_context[of p e "Some c" "Err x"] show ?thesis by simp
    next
      case True
      define parents where "parents = (case po_parents (en_paths env) p of [] \<Rightarrow> ret ()
         | parent # _ \<Rightarrow> map_error (with_context (''Failed to create parent directories for '' @ native env p))
             (io_run (fs_create_directory host parent)))"
      have frame: "frame (calm_step contents) (parents :: ('w, unit) run)"
        unfolding parents_def by (auto split: list.split intro: calm_steps silent_steps)
      obtain r2 t2 where m2: "parents t1 = (r2, t2)" by fastforce
      have "calm_step contents s t1"
        using mut1 True Err by (auto simp: mutated_def calm_step_def no_effect_def again_def)
      then have calm: "calm_step contents s t2" using frameD[OF frame m2] by (rule calm.trans)
      have run: "(res, t) = (case r2 of Ok _ \<Rightarrow> map_error (with_context (''Failed to write file '' @ native env p))
          (conditional_mutation env host p e (Some c)) t2 | Err y \<Rightarrow> (Err y, t2))"
        using assms m1 m2 Err True
        by (auto simp: write_file_with_missing_parent_retry_def bind_def attempt_def again_def parents_def
            split: result.splits)
      show ?thesis
      proof (cases r2)
        case (Err y)
        with run mutated_calm_failure[OF calm] show ?thesis by simp
      next
        case (Ok u)
        obtain r3 t3 where m3: "conditional_mutation env host p e (Some c) t2 = (r3, t3)" by fastforce
        with run Ok have "res = map_err (with_context (''Failed to write file '' @ native env p)) r3" "t = t3"
          by (auto simp: map_error_def)
        with mutated_after_calm[OF calm conditional_mutation_mutated[OF m3]] mutated_context show ?thesis by simp
      qed
    qed
  qed
qed

end

end
