(* ===== verification/Apply_Hunks.thy ===== *)
theory Apply_Hunks
  imports Apply_Writes
begin

text \<open>
  Every hunk keeps the invariant of the run: its writes are recorded as they happened, or the delta is
  no longer exact. The effect of a hunk on the files is stated on its own, as \<open>patch_step\<close> in \<open>Apply_Steps\<close>.
\<close>

context quiet_executor
begin

lemma pending_inexact: "\<not> exact s \<Longrightarrow> pending f0 ws s"
  by (simp add: pending_def)

lemma side_effect_free_true:
  assumes "remove_failure_was_side_effect_free host p e w = (Ok True, w')"
  shows "contents w (ep p) = e"
proof (cases e)
  case None
  with assms metadata_missing show ?thesis
    by (auto simp: remove_failure_was_side_effect_free_def bind_def attempt_def ret_def split: prod.splits result.splits)
next
  case (Some c)
  with assms read_text_found show ?thesis
    by (auto simp: remove_failure_was_side_effect_free_def bind_def attempt_def ret_def split: prod.splits)
qed

lemma side_effect_free_total: "\<exists>b w'. remove_failure_was_side_effect_free host p e w = (Ok b, w')"
  by (auto simp: remove_failure_was_side_effect_free_def bind_def attempt_def ret_def split: option.splits prod.splits)

lemma reconcile_cases:
  assumes "reconcile_failed_mutation env host x p e s = (res, t)"
  shows "res = Ok ()" "calm_step contents s t" "exact t \<Longrightarrow> files s (ep p) = e"
proof -
  obtain b w where b: "remove_failure_was_side_effect_free host p e (pr_world s) = (Ok b :: (bool, any_error) result, w)"
    using side_effect_free_total by blast
  show "calm_step contents s t" by (rule frameD[OF calm_reconcile assms])
  from b assms show "res = Ok ()"
    by (auto simp: reconcile_failed_mutation_def bind_def on_world_def and_exact_def change_delta_def modify_def
        on_manifest_def ret_def split: if_splits)
  assume "exact t"
  with b assms have b by (auto simp: reconcile_failed_mutation_def bind_def on_world_def and_exact_def change_delta_def modify_def
        on_manifest_def ret_def split: if_splits)
  with b show "files s (ep p) = e" using side_effect_free_true by auto
qed

lemma try_write_cases:
  assumes mut: "\<And>s res t. m s = (res, t) \<Longrightarrow> mutated p e r res s t"
    and run: "try_write env host p e m s = (res, t)"
  shows "changes t = changes s" "exact t \<Longrightarrow> exact s"
    "r = None \<longrightarrow> \<not> link p \<Longrightarrow> res = Ok rc \<Longrightarrow>
       files s (ep p) = e \<and> files t = (files s)(ep p := r) \<and> (r \<noteq> None \<longrightarrow> (rc = None \<longleftrightarrow> e = r))"
    "r = None \<longrightarrow> \<not> link p \<Longrightarrow> res = Err x \<Longrightarrow> exact t \<Longrightarrow> files t = files s"
proof -
  obtain r1 t1 where m1: "m s = (r1, t1)" by fastforce
  note mut1 = mut[OF m1]
  have rec: "\<exists>t2. reconcile_failed_mutation env host e' p e t1 = (Ok (), t2)" for e'
    using reconcile_cases(1)[of e' p e t1] by (metis prod.collapse)
  have run1: "(res, t) = (case r1 of Ok v \<Rightarrow> (Ok v, t1)
      | Err e' \<Rightarrow> if is_no_write_conflict e' then (Err e', t1)
                 else (Err e', snd (reconcile_failed_mutation env host e' p e t1)))"
  proof (cases r1)
    case (Ok v)
    with run m1 show ?thesis by (auto simp: try_write_def bind_def attempt_def ret_def)
  next
    case (Err e')
    obtain t2 where "reconcile_failed_mutation env host e' p e t1 = (Ok (), t2)" using rec by blast
    with run m1 Err show ?thesis
      by (cases "is_no_write_conflict e'") (auto simp: try_write_def bind_def attempt_def ret_def throw_def)
  qed
  have ok: "r1 = Ok rc' \<and> t = t1" if "res = Ok rc'" for rc'
    using run1 that by (auto split: result.splits if_splits)
  have calm: "calm_step contents t1 t"
  proof (cases r1)
    case (Err e')
    obtain t2 where t2: "reconcile_failed_mutation env host e' p e t1 = (Ok (), t2)" using rec by blast
    have "t = t1 \<or> t = t2" using run1 unfolding Err result.case t2 by (simp split: if_splits)
    then show ?thesis using frameD[OF calm_reconcile t2] calm.refl by blast
  next
    case (Ok v)
    then have "t = t1" using run1 by simp
    then show ?thesis using calm.refl by blast
  qed
  show "changes t = changes s" using mut1 calm by (simp add: mutated_def calm_step_def)
  show "exact s" if "exact t" using mut1 calm that by (simp add: mutated_def calm_step_def)
  show "files s (ep p) = e \<and> files t = (files s)(ep p := r) \<and> (r \<noteq> None \<longrightarrow> (rc = None \<longleftrightarrow> e = r))"
    if "r = None \<longrightarrow> \<not> link p" "res = Ok rc"
  proof -
    have "mutated p e r (Ok rc) s t" using mut1 ok[OF that(2)] by simp
    then have "\<forall>q. q \<noteq> ep p \<longrightarrow> files t q = files s q" "files s (ep p) = e" "files t (ep p) = r"
      "r \<noteq> None \<longrightarrow> (rc = None \<longleftrightarrow> e = r)"
      unfolding mutated_def using that(1) by blast+
    then show ?thesis by (simp add: fun_eq_iff)
  qed
  show "files t = files s" if l: "r = None \<longrightarrow> \<not> link p" and err: "res = Err x" and ex: "exact t"
  proof -
    have r1: "r1 = Err x" using run1 err by (auto split: result.splits if_splits)
    show ?thesis
    proof (cases "is_no_write_conflict x")
      case True
      with r1 run1 have "t = t1" by simp
      moreover have "files t1 = files s"
        using mut1 l True unfolding r1 mutated_def no_effect_def by blast
      ultimately show ?thesis by simp
    next
      case False
      obtain r2 t2 where m2: "reconcile_failed_mutation env host x p e t1 = (r2, t2)" by fastforce
      with run1 r1 False have "t = t2" by simp
      with reconcile_cases(3)[OF m2] ex have "files t1 (ep p) = e" by simp
      moreover have "files t = files t1" using calm by (simp add: calm_step_def)
      moreover have "\<forall>q. q \<noteq> ep p \<longrightarrow> files t1 q = files s q" "files s (ep p) \<noteq> e \<longrightarrow> files t1 = files s"
        using mut1 l unfolding mutated_def by blast+
      ultimately show ?thesis by (metis ext)
    qed
  qed
qed

text \<open>A write adds to the writes that are not yet recorded; a failed one leaves them as they were.\<close>

lemma try_write_triple:
  assumes mut: "\<And>s res t. m s = (res, t) \<Longrightarrow> mutated p e r res s t"
  shows "triple (\<lambda>s. pending f0 ws s \<and> I (changes s) \<and> (exact s \<longrightarrow> r = None \<longrightarrow> \<not> link p)) (try_write env host p e m)
    (\<lambda>rc s. I (changes s) \<and> (if e = r then pending f0 ws s \<and> (exact s \<longrightarrow> files s (ep p) = r) else pending f0 (ws @ [(p, e, r)]) s)
       \<and> (r \<noteq> None \<longrightarrow> (rc = None \<longleftrightarrow> e = r)))
    (\<lambda>_ s. pending f0 ws s \<and> I (changes s))"
proof (rule tripleI)
  fix s rc t assume P: "pending f0 ws s \<and> I (changes s) \<and> (exact s \<longrightarrow> r = None \<longrightarrow> \<not> link p)" and run: "try_write env host p e m s = (Ok rc, t)"
  note c = try_write_cases[OF mut run]
  show "I (changes t) \<and> (if e = r then pending f0 ws t \<and> (exact t \<longrightarrow> files t (ep p) = r) else pending f0 (ws @ [(p, e, r)]) t)
      \<and> (r \<noteq> None \<longrightarrow> (rc = None \<longleftrightarrow> e = r))"
  proof (cases "r = None \<longrightarrow> \<not> link p")
    case True
    with c have "files s (ep p) = e" "files t = (files s)(ep p := r)" "r \<noteq> None \<longrightarrow> (rc = None \<longleftrightarrow> e = r)" by auto
    then show ?thesis using P c(1,2) by (auto simp: pending_def)
  next
    case False
    then show ?thesis using P c(1,2) by (auto simp: pending_def)
  qed
next
  fix s x t assume P: "pending f0 ws s \<and> I (changes s) \<and> (exact s \<longrightarrow> r = None \<longrightarrow> \<not> link p)" and run: "try_write env host p e m s = (Err x, t)"
  note c = try_write_cases[OF mut run]
  show "pending f0 ws t \<and> I (changes t)" using P c(1,2,4) by (auto simp: pending_def)
qed

text \<open>
  The run after the changes \<open>cs\<close>, with unrecorded writes \<open>ws\<close>; the delta is exact only if \<open>b\<close>, a fact
  established on the way.
\<close>

definition at :: "('e \<Rightarrow> string option) \<Rightarrow> applied_patch_change list \<Rightarrow> file_write list \<Rightarrow> bool \<Rightarrow> 'w patch_run \<Rightarrow> bool" where
  "at f0 cs ws b s \<longleftrightarrow> pending f0 ws s \<and> changes s = cs \<and> (exact s \<longrightarrow> b)"

lemma at_calm: "at f0 cs ws b s \<Longrightarrow> calm_step contents s t \<Longrightarrow> at f0 cs ws b t"
  using pending_calm by (auto simp: at_def calm_step_def)

lemma at_files: "at f0 cs ws b s \<Longrightarrow> exact s \<Longrightarrow> files s = replay ep f0 (all_writes cs @ ws)"
  by (simp add: at_def pending_def)

lemma triple_calm:
  assumes "frame (calm_step contents) m"
  shows "triple (at f0 cs ws b) m (\<lambda>_. at f0 cs ws b) (\<lambda>_. at f0 cs ws b)"
  by (rule triple_frame[OF assms]) (rule at_calm)

lemma seq_calm:
  assumes "frame (calm_step contents) m" "\<And>a. triple (at f0 cs ws b) (f a) Q E" "\<And>e s. at f0 cs ws b s \<Longrightarrow> E e s"
  shows "triple (at f0 cs ws b) (bind m f) Q E"
  by (rule triple_bind[OF triple_conseq[OF triple_calm[OF assms(1)]] assms(2)]) (auto intro: assms(3))

lemma seq_calm_ok:
  assumes "frame (calm_step contents) m" "\<And>s. \<exists>a t. m s = (Ok a, t)" "\<And>a. triple (at f0 cs ws b) (f a) Q E"
  shows "triple (at f0 cs ws b) (bind m f) Q E"
proof (rule triple_bind[OF _ assms(3)])
  show "triple (at f0 cs ws b) m (\<lambda>_. at f0 cs ws b) E"
    using assms(1,2) at_calm by (intro tripleI) (auto simp: frame_def, metis Pair_inject result.distinct(1))
qed

lemma seq_ensure:
  assumes "c \<Longrightarrow> triple P (f ()) Q E" "\<And>s. P s \<Longrightarrow> E e s"
  shows "triple P (bind (ensure c e) f) Q E"
  by (rule triple_bind[where Q = "\<lambda>_ s. P s \<and> c"], rule triple_ensure)
     (use assms in \<open>auto simp: triple_def\<close>)

lemma seq_result:
  assumes "\<And>a. r = Ok a \<Longrightarrow> triple P (f a) Q E" "\<And>e s. P s \<Longrightarrow> E e s"
  shows "triple P (bind (of_result r) f) Q E"
  by (rule triple_bind[where Q = "\<lambda>a s. P s \<and> r = Ok a"], rule triple_of_result)
     (use assms in \<open>auto simp: triple_def\<close>)

lemma seq_exact:
  assumes "triple (at f0 cs ws (b \<and> x)) (f ()) Q E"
  shows "triple (at f0 cs ws b) (bind (and_exact x) f) Q E"
proof (rule triple_bind)
  show "triple (at f0 cs ws b) (and_exact x) (\<lambda>_. at f0 cs ws (b \<and> x)) E"
    by (rule tripleI) (auto simp: at_def pending_def and_exact_def change_delta_def modify_def)
qed (use assms in simp)

lemma seq_write:
  assumes "\<And>s res t. m s = (res, t) \<Longrightarrow> mutated p e r res s t" "e \<noteq> r" "r = None \<longrightarrow> b \<longrightarrow> \<not> link p"
    and "\<And>rc. r \<noteq> None \<longrightarrow> rc \<noteq> None \<Longrightarrow> triple (at f0 cs (ws @ [(p, e, r)]) b) (f rc) Q E"
    and "\<And>x s. at f0 cs ws b s \<Longrightarrow> E x s"
  shows "triple (at f0 cs ws b) (bind (try_write env host p e m) f) Q E"
proof (rule triple_bind)
  show "triple (at f0 cs ws b) (try_write env host p e m)
      (\<lambda>rc s. at f0 cs (ws @ [(p, e, r)]) b s \<and> (r \<noteq> None \<longrightarrow> rc \<noteq> None)) E"
  proof (rule tripleI)
    fix s rc t assume at: "at f0 cs ws b s" and run: "try_write env host p e m s = (Ok rc, t)"
    then have "pending f0 ws s \<and> changes s = cs \<and> (exact s \<longrightarrow> r = None \<longrightarrow> \<not> link p)"
      using assms(3) by (auto simp: at_def)
    from tripleD_Ok[OF try_write_triple[OF assms(1), where ws = ws and I = "\<lambda>xs. xs = cs"] this run] assms(2)
      try_write_cases(2)[OF assms(1) run] at
    show "at f0 cs (ws @ [(p, e, r)]) b t \<and> (r \<noteq> None \<longrightarrow> rc \<noteq> None)" by (auto simp: at_def)
  next
    fix s x t assume at: "at f0 cs ws b s" and run: "try_write env host p e m s = (Err x, t)"
    then have "pending f0 ws s \<and> changes s = cs \<and> (exact s \<longrightarrow> r = None \<longrightarrow> \<not> link p)"
      using assms(3) by (auto simp: at_def)
    from tripleD_Err[OF try_write_triple[OF assms(1), where ws = ws and I = "\<lambda>xs. xs = cs"] this run]
      try_write_cases(2)[OF assms(1) run] at
    show "E x t" by (intro assms(5)) (auto simp: at_def)
  qed
next
  fix rc
  show "triple (\<lambda>s. at f0 cs (ws @ [(p, e, r)]) b s \<and> (r \<noteq> None \<longrightarrow> rc \<noteq> None)) (f rc) Q E"
    using assms(4)[of rc] by (auto simp: triple_def)
qed

text \<open>A write of the bytes that are already there: nothing is to record, but the bytes are known.\<close>

lemma seq_write_same:
  assumes "\<And>s res t. m s = (res, t) \<Longrightarrow> mutated p (Some c) (Some c) res s t"
    and "triple (at f0 cs [] (b \<and> replay ep f0 (all_writes cs) (ep p) = Some c)) (f None) Q E"
    and "\<And>x s. at f0 cs [] b s \<Longrightarrow> E x s"
  shows "triple (at f0 cs [] b) (bind (try_write env host p (Some c) m) f) Q E"
proof (rule triple_bind)
  show "triple (at f0 cs [] b) (try_write env host p (Some c) m)
      (\<lambda>rc s. at f0 cs [] (b \<and> replay ep f0 (all_writes cs) (ep p) = Some c) s \<and> rc = None) E"
  proof (rule tripleI)
    fix s rc t assume at: "at f0 cs [] b s" and run: "try_write env host p (Some c) m s = (Ok rc, t)"
    then have "pending f0 [] s \<and> changes s = cs \<and> (exact s \<longrightarrow> Some c = None \<longrightarrow> \<not> link p)"
      by (auto simp: at_def)
    from tripleD_Ok[OF try_write_triple[OF assms(1), where ws = "[]" and I = "\<lambda>xs. xs = cs"] this run]
      try_write_cases(2)[OF assms(1) run] at
    show "at f0 cs [] (b \<and> replay ep f0 (all_writes cs) (ep p) = Some c) t \<and> rc = None"
      by (auto simp: at_def pending_def)
  next
    fix s x t assume at: "at f0 cs [] b s" and run: "try_write env host p (Some c) m s = (Err x, t)"
    then have "pending f0 [] s \<and> changes s = cs \<and> (exact s \<longrightarrow> Some c = None \<longrightarrow> \<not> link p)"
      by (auto simp: at_def)
    from tripleD_Err[OF try_write_triple[OF assms(1), where ws = "[]" and I = "\<lambda>xs. xs = cs"] this run]
      try_write_cases(2)[OF assms(1) run] at
    show "E x t" by (intro assms(3)) (auto simp: at_def)
  qed
next
  fix rc
  show "triple (\<lambda>s. at f0 cs [] (b \<and> replay ep f0 (all_writes cs) (ep p) = Some c) s \<and> rc = None) (f rc) Q E"
    using assms(2) by (auto simp: triple_def)
qed

text \<open>A pushed change records its writes.\<close>

lemma push_at:
  "change_writes c = ws \<Longrightarrow> triple (at f0 cs ws b) (push_change c) (\<lambda>_. at f0 (cs @ [c]) [] b) E"
  by (rule tripleI) (auto simp: at_def pending_def push_change_def change_delta_def modify_def)

lemma change_writes_plain [simp]:
  "change_writes (plain_change env p rc (Change_Add new ov)) = [(p, ov, Some new)]"
  "change_writes (plain_change env p rc (Change_Delete old)) = [(p, Some old, None)]"
  "change_writes (plain_change env p rc (Change_Update None old ov new)) = [(p, Some old, Some new)]"
  "change_writes (move_change env p dest update ov rc) =
     [(dest, ov, Some (ap_new_contents update)), (p, Some (ap_original_contents update), None)]"
  by (simp_all add: change_writes_def plain_change_def move_change_def)

text \<open>What a hunk may record: writes to its own paths, and nothing else.\<close>

definition recorded :: "('e \<Rightarrow> string option) \<Rightarrow> applied_patch_change list \<Rightarrow> uri set \<Rightarrow> (file_write list \<Rightarrow> bool) \<Rightarrow>
    'w patch_run \<Rightarrow> bool" where
  "recorded f0 cs U ok s \<longleftrightarrow> (\<exists>ds. pending f0 [] s \<and> changes s = cs @ ds \<and> fst ` set (all_writes ds) \<subseteq> U
     \<and> (exact s \<longrightarrow> ok (all_writes ds)))"

lemma recordedI:
  "at f0 (cs @ ds) [] b s \<Longrightarrow> fst ` set (all_writes ds) \<subseteq> U \<Longrightarrow> (b \<Longrightarrow> ok (all_writes ds)) \<Longrightarrow> recorded f0 cs U ok s"
  unfolding recorded_def at_def by blast

lemma at_recorded: "at f0 cs [] b s \<Longrightarrow> (b \<Longrightarrow> ok []) \<Longrightarrow> recorded f0 cs U ok s"
  by (rule recordedI[of _ _ "[]" b]) auto

lemma at_failed: "at f0 cs [] b s \<Longrightarrow> recorded f0 cs U (\<lambda>_. True) s"
  by (rule at_recorded) auto

abbreviation failed :: "('e \<Rightarrow> string option) \<Rightarrow> applied_patch_change list \<Rightarrow> uri set \<Rightarrow> any_error \<Rightarrow> 'w patch_run \<Rightarrow> bool" where
  "failed f0 cs U \<equiv> \<lambda>_. recorded f0 cs U (\<lambda>_. True)"

lemma note_mode_ok: "\<exists>a t. note_mode env host p s = (Ok a, t)"
  by (auto simp: note_mode_def bind_def on_world_def preimage_mode_def ret_def change_delta_def modify_def split: prod.splits)

lemma mutated_conditional_context:
  "map_error (with_context c) (conditional_mutation env host p e r) s = (res, t) \<Longrightarrow> mutated p e r res s t"
  using conditional_mutation_mutated mutated_context by (auto simp: map_error_def split: prod.splits)

lemma add_file_triple:
  "triple (at f0 cs [] b) (add_file env host destinations p c)
     (\<lambda>_. recorded f0 cs {p} (\<lambda>ws. ws = [(p, None, Some c)])) (failed f0 cs {p})"
  unfolding add_file_def
proof (intro seq_result seq_ensure seq_write[where r = "Some c"] seq_calm_ok[OF calm_note_mode note_mode_ok])
  fix ov :: "string option" and rc assume ov: "ov = None"
  show "triple (at f0 cs ([] @ [(p, ov, Some c)]) b) (push_change (plain_change env p rc (Change_Add c ov)))
     (\<lambda>_. recorded f0 cs {p} (\<lambda>ws. ws = [(p, None, Some c)])) (failed f0 cs {p})"
    by (rule triple_conseq[OF push_at]) (auto simp: ov intro: recordedI)
qed (auto intro: retry_mutated at_failed)

lemma not_directory_link: "ensure_not_directory host p w = (Ok md, w') \<Longrightarrow> md_is_symlink md = link p"
  by (auto simp: ensure_not_directory_def bind_def ret_def throw_def dest: metadata_link split: prod.splits result.splits if_splits)

lemma seq_not_directory:
  assumes "\<And>md. md_is_symlink md = link p \<Longrightarrow> triple (at f0 cs ws b) (f md) Q E" "\<And>x s. at f0 cs ws b s \<Longrightarrow> E x s"
  shows "triple (at f0 cs ws b) (bind (map_error (c :: any_error \<Rightarrow> any_error) (io_run (ensure_not_directory host p))) f) Q E"
proof (rule triple_bind[where Q = "\<lambda>md s. at f0 cs ws b s \<and> md_is_symlink md = link p"])
  have calm: "frame (calm_step contents) (map_error c (io_run (ensure_not_directory host p)) :: ('w, file_metadata) run)"
    by (intro calm_steps silent_steps)
  show "triple (at f0 cs ws b) (map_error c (io_run (ensure_not_directory host p)))
      (\<lambda>md s. at f0 cs ws b s \<and> md_is_symlink md = link p) E"
  proof (rule tripleI)
    fix s md t assume at: "at f0 cs ws b s" and run: "map_error c (io_run (ensure_not_directory host p)) s = (Ok md, t)"
    have "calm_step contents s t" by (rule frameD[OF calm run])
    moreover have "md_is_symlink md = link p"
      using run not_directory_link[of p "pr_world s" md]
      by (auto simp: map_error_def io_run_def on_world_def split: prod.splits)
    ultimately show "at f0 cs ws b t \<and> md_is_symlink md = link p" using at at_calm by blast
  next
    fix s x t assume at: "at f0 cs ws b s" and run: "map_error c (io_run (ensure_not_directory host p)) s = (Err x, t)"
    have "calm_step contents s t" by (rule frameD[OF calm run])
    with at show "E x t" using at_calm assms(2) by blast
  qed
qed (use assms(1) in \<open>auto simp: triple_def\<close>)

lemma delete_file_triple:
  "triple (at f0 cs [] b) (delete_file env host prepared p)
     (\<lambda>_. recorded f0 cs {p} (\<lambda>ws. \<exists>c. ws = [(p, Some c, None)])) (failed f0 cs {p})"
  unfolding delete_file_def
proof (intro seq_not_directory seq_exact seq_calm[OF frame_io_run[OF silent_read_text]] seq_ensure
    seq_write[where r = None] mutated_conditional_context)
  fix md and c :: string and rc :: "applied_patch_write_receipt option"
  show "triple (at f0 cs ([] @ [(p, Some c, None)]) (b \<and> md_is_file md \<and> \<not> md_is_symlink md))
      (push_change (plain_change env p None (Change_Delete c)))
     (\<lambda>_. recorded f0 cs {p} (\<lambda>ws. \<exists>c. ws = [(p, Some c, None)])) (failed f0 cs {p})"
    by (rule triple_conseq[OF push_at]) (auto intro: recordedI)
qed (auto intro: at_failed)

section \<open>Updates and moves\<close>

lemma recorded_weaken:
  assumes "recorded f0 cs U ok s" "U \<subseteq> V"
    and "\<And>ws. ok ws \<Longrightarrow> chained ep (replay ep f0 (all_writes cs)) ws \<Longrightarrow> ok' ws"
  shows "recorded f0 cs V ok' s"
  using assms unfolding recorded_def pending_def by (auto 0 4)

lemma write_update_triple:
  assumes "f = replay ep f0 (all_writes cs)"
  shows "triple (at f0 cs [] b) (write_update env host p update)
     (\<lambda>_. recorded f0 cs {p} (\<lambda>ws. f (ep p) = Some (ap_original_contents update)
        \<and> replay ep f ws = f(ep p := Some (ap_new_contents update)))) (failed f0 cs {p})"
proof (cases "ap_original_contents update = ap_new_contents update")
  case True
  then show ?thesis
    unfolding write_update_def
    by (subst True, intro seq_write_same mutated_conditional_context)
       (auto simp: assms fun_upd_idem intro!: triple_ret intro: at_failed elim!: at_recorded)
next
  case False
  show ?thesis
    unfolding write_update_def
  proof (rule seq_write[where r = "Some (ap_new_contents update)"])
    fix rc :: "applied_patch_write_receipt option"
    assume "Some (ap_new_contents update) \<noteq> None \<longrightarrow> rc \<noteq> None"
    then have rc: "rc \<noteq> None" by simp
    let ?c = "plain_change env p rc (Change_Update None (ap_original_contents update) None (ap_new_contents update))"
    show "triple (at f0 cs ([] @ [(p, Some (ap_original_contents update), Some (ap_new_contents update))]) b)
      (if rc = None then ret () else push_change ?c)
      (\<lambda>_. recorded f0 cs {p} (\<lambda>ws. f (ep p) = Some (ap_original_contents update)
        \<and> replay ep f ws = f(ep p := Some (ap_new_contents update)))) (failed f0 cs {p})"
      unfolding if_not_P[OF rc]
      by (rule triple_conseq[OF push_at])
         (auto simp: assms intro!: recorded_weaken[OF recordedI[where ok = "\<lambda>ws. ws = change_writes ?c" and U = "{p}" and ds = "[?c]"]])
  qed (use False in \<open>auto intro: mutated_conditional_context at_failed\<close>)
qed

lemma seq_support:
  assumes "triple (at f0 cs ws (b \<and> \<not> link p)) (f ()) Q E"
  shows "triple (at f0 cs ws b) (bind (note_existing_path_delta_support host p) f) Q E"
proof (rule triple_bind)
  show "triple (at f0 cs ws b) (note_existing_path_delta_support host p) (\<lambda>_. at f0 cs ws (b \<and> \<not> link p)) E"
  proof (rule tripleI)
    fix s a t assume at: "at f0 cs ws b s" and run: "note_existing_path_delta_support host p s = (Ok a, t)"
    have "exact t \<longrightarrow> \<not> link p"
      using run metadata_link[of p "pr_world s"] metadata_missing[of p "pr_world s"]
      by (auto simp: note_existing_path_delta_support_def bind_def on_world_def attempt_def and_exact_def
          change_delta_def modify_def split: prod.splits result.splits)
    with at_calm[OF at frameD[OF calm_support run]] show "at f0 cs ws (b \<and> \<not> link p) t" by (auto simp: at_def)
  next
    fix s x t assume "note_existing_path_delta_support host p s = (Err x, t)"
    then show "E x t"
      by (auto simp: note_existing_path_delta_support_def bind_def on_world_def attempt_def and_exact_def
          change_delta_def modify_def split: prod.splits)
  qed
qed (use assms in simp)

lemma seq_identities:
  assumes "\<And>a c. (a \<noteq> c \<Longrightarrow> ep p \<noteq> ep q) \<Longrightarrow> triple (at f0 cs ws b) (f a c) Q E" "\<And>x s. at f0 cs ws b s \<Longrightarrow> E x s"
  shows "triple (at f0 cs ws b) (bind (apply_run (mutation_endpoint_identity env host p)) (\<lambda>a.
     bind (apply_run (mutation_endpoint_identity env host q)) (f a))) Q E"
proof (rule tripleI)
  note calm = frame_apply_run[OF silent_identity]
  fix s v t assume at: "at f0 cs ws b s"
    and run: "bind (apply_run (mutation_endpoint_identity env host p)) (\<lambda>a.
     bind (apply_run (mutation_endpoint_identity env host q)) (f a)) s = (Ok v, t)"
  then obtain a u c u' where a: "apply_run (mutation_endpoint_identity env host p) s = (Ok a, u)"
    and c: "apply_run (mutation_endpoint_identity env host q) u = (Ok c, u')" and f: "f a c u' = (Ok v, t)"
    by (auto simp: bind_def split: prod.splits result.splits)
  have at': "at f0 cs ws b u'" using at frameD[OF calm a] frameD[OF calm c] at_calm by blast
  have "files u = files s" using frameD[OF calm a] by (simp add: calm_step_def)
  then have "ep p \<noteq> ep q" if "a \<noteq> c"
    using a c that identity_aliases[of p "pr_world s" a _ q "pr_world u" c]
    by (auto simp: apply_run_def map_error_def on_world_def split: prod.splits)
  from tripleD_Ok[OF assms(1)[OF this] at' f] show "Q v t" .
next
  note calm = frame_apply_run[OF silent_identity]
  fix s x t assume at: "at f0 cs ws b s"
    and run: "bind (apply_run (mutation_endpoint_identity env host p)) (\<lambda>a.
     bind (apply_run (mutation_endpoint_identity env host q)) (f a)) s = (Err x, t)"
  show "E x t"
  proof (cases "apply_run (mutation_endpoint_identity env host p) s")
    case (Pair r u)
    note at1 = at_calm[OF at frameD[OF calm Pair]]
    show ?thesis
    proof (cases r)
      case (Err y)
      with run Pair at1 assms(2) show ?thesis by (auto simp: bind_def)
    next
      case (Ok a)
      obtain r2 u2 where m2: "apply_run (mutation_endpoint_identity env host q) u = (r2, u2)" by fastforce
      note at2 = at_calm[OF at1 frameD[OF calm m2]]
      have "files u = files s" using frameD[OF calm Pair] by (simp add: calm_step_def)
      then have differ: "ep p \<noteq> ep q" if "a \<noteq> c" "r2 = Ok c" for c
        using Pair Ok m2 that identity_aliases[of p "pr_world s" a _ q "pr_world u" c]
        by (auto simp: apply_run_def map_error_def on_world_def split: prod.splits)
      show ?thesis
      proof (cases r2)
        case (Err y)
        with run Pair Ok m2 at2 assms(2) show ?thesis by (auto simp: bind_def)
      next
        case c: (Ok c)
        with run Pair Ok m2 have "f a c u2 = (Err x, t)" by (auto simp: bind_def)
        with tripleD_Err[OF assms(1)[of a c] at2] differ c show ?thesis by blast
      qed
    qed
  qed
qed

lemma publish_move_triple:
  "triple (at f0 cs [] b) (publish_move env host destinations dest update)
     (\<lambda>(ov, rc) s. if rc = None
        then ov = Some (ap_new_contents update)
          \<and> at f0 cs [] (b \<and> replay ep f0 (all_writes cs) (ep dest) = Some (ap_new_contents update)) s
        else at f0 (cs @ [plain_change env dest rc (Change_Add (ap_new_contents update) ov)]) [] b s)
     (\<lambda>_. at f0 cs [] b)"
  unfolding publish_move_def
proof (intro seq_calm[OF calm_support] seq_result)
  fix ov :: "string option"
  let ?new = "ap_new_contents update"
  let ?Q = "\<lambda>(ov, rc) s. if rc = None
        then ov = Some ?new \<and> at f0 cs [] (b \<and> replay ep f0 (all_writes cs) (ep dest) = Some ?new) s
        else at f0 (cs @ [plain_change env dest rc (Change_Add ?new ov)]) [] b s"
  let ?rest = "\<lambda>receipt. bind (note_mode env host dest) (\<lambda>_. bind (if receipt = None then ret ()
      else push_change (plain_change env dest receipt (Change_Add ?new ov))) (\<lambda>_. ret (ov, receipt)))"
  show "triple (at f0 cs [] b)
    (bind (try_write env host dest ov (write_file_with_missing_parent_retry env host dest ov ?new)) ?rest) ?Q (\<lambda>_. at f0 cs [] b)"
  proof (cases "ov = Some ?new")
    case True
    show ?thesis
      unfolding True
      by (intro seq_write_same seq_calm_ok[OF calm_note_mode note_mode_ok])
         (auto simp: True intro!: retry_mutated triple_bind[OF triple_ret] triple_ret)
  next
    case False
    show ?thesis
    proof (intro seq_write[where r = "Some ?new"] seq_calm_ok[OF calm_note_mode note_mode_ok])
      fix rc :: "applied_patch_write_receipt option" and u assume "Some ?new \<noteq> None \<longrightarrow> rc \<noteq> None"
      then have rc: "rc \<noteq> None" by simp
      show "triple (at f0 cs ([] @ [(dest, ov, Some ?new)]) b) (bind (if rc = None then ret ()
          else push_change (plain_change env dest rc (Change_Add ?new ov))) (\<lambda>_. ret (ov, rc))) ?Q (\<lambda>_. at f0 cs [] b)"
        unfolding if_not_P[OF rc]
        by (rule triple_bind[OF push_at]) (auto simp: rc intro: triple_ret)
    qed (use False in \<open>auto intro: retry_mutated\<close>)
  qed
qed simp_all

lemma remove_moved_triple:
  assumes "b \<Longrightarrow> \<not> link p"
  shows "triple (at f0 cs [] b) (remove_moved env host p identity update)
     (\<lambda>_. at f0 cs [(p, Some (ap_original_contents update), None)] b) (\<lambda>_. at f0 cs [] b)"
  unfolding remove_moved_def
proof (intro seq_not_directory seq_calm[OF frame_apply_run[OF silent_identity]])
  fix i
  show "triple (at f0 cs [] b) (bind (if i = identity then
                 bind (io_run (read_file_text host p)) (\<lambda>contents. ret (contents = ap_original_contents update))
               else ret False) (\<lambda>same. bind (ensure same x) (\<lambda>_.
             bind (try_write env host p (Some (ap_original_contents update))
                 (map_error (with_context c) (conditional_mutation env host p (Some (ap_original_contents update)) None))) (\<lambda>_.
               ret ())))) (\<lambda>_. at f0 cs [(p, Some (ap_original_contents update), None)] b) (\<lambda>_. at f0 cs [] b)" for x c
  proof (rule seq_calm)
    show "frame (calm_step contents) (if i = identity then
        bind (io_run (read_file_text host p)) (\<lambda>contents. ret (contents = ap_original_contents update)) else ret False)"
      by (intro calm_steps silent_steps)
    show "triple (at f0 cs [] b) (bind (ensure same x) (\<lambda>_.
             bind (try_write env host p (Some (ap_original_contents update))
                 (map_error (with_context c) (conditional_mutation env host p (Some (ap_original_contents update)) None))) (\<lambda>_.
               ret ()))) (\<lambda>_. at f0 cs [(p, Some (ap_original_contents update), None)] b) (\<lambda>_. at f0 cs [] b)" for same
      by (intro seq_ensure seq_write[where r = None] mutated_conditional_context)
         (use assms in \<open>auto intro: triple_ret\<close>)
  qed simp_all
qed simp_all

lemma seq_gets_length:
  assumes "triple (at f0 cs ws b) (f (length cs)) Q E"
  shows "triple (at f0 cs ws b) (bind (gets (\<lambda>s. length (dl_changes (pr_delta s)))) f) Q E"
  using assms by (auto simp: triple_def bind_def gets_def at_def)

text \<open>The last step of a move puts the whole move in place of the write of its destination.\<close>

lemma record_move:
  assumes "rc = None \<longrightarrow> ov = Some (ap_new_contents update) \<and> ep dest \<notin> endpoints_of ep (all_writes cs)"
    and "cs' = (if rc = None then cs else cs @ [plain_change env dest rc (Change_Add (ap_new_contents update) ov)])"
    and "b \<and> rc = None \<longrightarrow> replay ep f0 (all_writes cs) (ep dest) = Some (ap_new_contents update)"
    and "ep p \<noteq> ep dest"
  shows "triple (at f0 cs' [(p, Some (ap_original_contents update), None)] b)
    (change_delta (\<lambda>d. (let moved = move_change env p dest update ov rc in
        d\<lparr>dl_changes := (if length cs < length (dl_changes d) then (dl_changes d)[length cs := moved]
                          else dl_changes d @ [moved])\<rparr>)))
    (\<lambda>_. at f0 (cs @ [move_change env p dest update ov rc]) [] b) E"
proof (rule tripleI)
  fix s a t
  assume at: "at f0 cs' [(p, Some (ap_original_contents update), None)] b s"
    and run: "change_delta (\<lambda>d. (let moved = move_change env p dest update ov rc in
        d\<lparr>dl_changes := (if length cs < length (dl_changes d) then (dl_changes d)[length cs := moved]
                          else dl_changes d @ [moved])\<rparr>)) s = (Ok a, t)"
  have t: "changes t = cs @ [move_change env p dest update ov rc]" "pr_world t = pr_world s" "exact t = exact s"
    using run at assms(2) by (auto simp: change_delta_def modify_def Let_def at_def)
  show "at f0 (cs @ [move_change env p dest update ov rc]) [] b t"
  proof (cases "rc = None")
    case True
    with at t assms show ?thesis by (auto simp: at_def pending_def fun_upd_idem)
  next
    case False
    with at t assms(2) show ?thesis by (auto simp: at_def pending_def)
  qed
qed (simp add: change_delta_def modify_def)

lemma write_move_triple:
  assumes f: "f = replay ep f0 (all_writes cs)" and "b \<Longrightarrow> \<not> link p"
    and fresh: "\<And>dest. po_join (en_paths env) cwd moved = Ok dest \<Longrightarrow> ep dest \<notin> endpoints_of ep (all_writes cs)"
  shows "triple (at f0 cs [] b) (write_move env host cwd destinations p moved update)
    (\<lambda>_. recorded f0 cs ({p} \<union> {dest. po_join (en_paths env) cwd moved = Ok dest}) (\<lambda>ws. \<exists>dest.
       po_join (en_paths env) cwd moved = Ok dest \<and> ep dest \<noteq> ep p \<and> f (ep p) = Some (ap_original_contents update)
       \<and> replay ep f ws = f(ep dest := Some (ap_new_contents update), ep p := None)))
    (failed f0 cs ({p} \<union> {dest. po_join (en_paths env) cwd moved = Ok dest}))"
  (is "triple _ _ (\<lambda>_. recorded f0 cs ?U ?ok) _")
  unfolding write_move_def
proof (rule seq_result, rule seq_calm_ok[OF calm_note_mode note_mode_ok], rule seq_calm[OF frame_apply_run[OF silent_identity]],
    rule seq_calm[OF calm_note_identity], rule seq_identities, rule seq_ensure, rule seq_gets_length)
  fix dest a c :: string
  assume dest: "join_any env cwd moved = Ok dest" and "a \<noteq> c \<Longrightarrow> ep p \<noteq> ep dest" "a \<noteq> c"
  then have neq: "ep p \<noteq> ep dest" and joined: "po_join (en_paths env) cwd moved = Ok dest"
    by (auto simp: join_any_def)
  let ?add = "\<lambda>ov rc. plain_change env dest rc (Change_Add (ap_new_contents update) ov)"
  let ?m = "\<lambda>ov rc. move_change env p dest update ov rc"
  let ?finish = "\<lambda>ov rc. change_delta (\<lambda>d. (let moved = ?m ov rc in
        d\<lparr>dl_changes := (if length cs < length (dl_changes d) then (dl_changes d)[length cs := moved]
                          else dl_changes d @ [moved])\<rparr>))"
  let ?cs = "\<lambda>ov rc. if rc = None then cs else cs @ [?add ov rc]"
  let ?b = "\<lambda>rc :: applied_patch_write_receipt option. if rc = None
     then b \<and> replay ep f0 (all_writes cs) (ep dest) = Some (ap_new_contents update) else b"
  have final: "triple (at f0 (?cs ov rc) [] (?b rc)) (bind (cancelled host) (\<lambda>stop. bind (ensure (\<not> stop) x) (\<lambda>_.
       bind (remove_moved env host p a update) (\<lambda>_. ?finish ov rc)))) (\<lambda>_. recorded f0 cs ?U ?ok) (failed f0 cs ?U)"
    if "rc = None \<longrightarrow> ov = Some (ap_new_contents update)" for ov rc x
  proof -
    have fail: "recorded f0 cs ?U (\<lambda>_. True) s" if "at f0 (?cs ov rc) [] (?b rc) s" for s
      using that joined by (cases "rc = None") (auto intro: at_failed recordedI)
    have ok: "recorded f0 cs ?U ?ok s" if "at f0 (cs @ [?m ov rc]) [] (?b rc) s" for s
    proof -
      have "recorded f0 cs {p, dest} (\<lambda>ws. ws = change_writes (?m ov rc)) s"
        using that by (auto intro: recordedI)
      then show ?thesis by (rule recorded_weaken) (use joined neq f in auto)
    qed
    have "triple (at f0 (?cs ov rc) [] (?b rc)) (bind (remove_moved env host p a update) (\<lambda>_. ?finish ov rc))
        (\<lambda>_. at f0 (cs @ [?m ov rc]) [] (?b rc)) (\<lambda>_. at f0 (?cs ov rc) [] (?b rc))"
      using that fresh[OF joined] neq assms(2)
      by (intro triple_bind[OF remove_moved_triple record_move]) (auto split: if_splits)
    then have "triple (at f0 (?cs ov rc) [] (?b rc)) (bind (remove_moved env host p a update) (\<lambda>_. ?finish ov rc))
        (\<lambda>_. recorded f0 cs ?U ?ok) (failed f0 cs ?U)"
      by (rule triple_conseq) (assumption | erule ok | erule fail)+
    then show ?thesis
      by (intro seq_calm[OF calm_cancelled] seq_ensure) (assumption | erule fail)+
  qed
  show "triple (at f0 cs [] b) (bind (publish_move env host destinations dest update) (\<lambda>(ov, rc).
      bind (cancelled host) (\<lambda>stop. bind (ensure (\<not> stop) x) (\<lambda>_.
       bind (remove_moved env host p a update) (\<lambda>_. ?finish ov rc))))) (\<lambda>_. recorded f0 cs ?U ?ok) (failed f0 cs ?U)" for x
  proof (rule triple_bind)
    show "triple (at f0 cs [] b) (publish_move env host destinations dest update)
      (\<lambda>(ov, rc) s. (rc = None \<longrightarrow> ov = Some (ap_new_contents update)) \<and> at f0 (?cs ov rc) [] (?b rc) s) (failed f0 cs ?U)"
      by (rule triple_conseq[OF publish_move_triple]) (auto intro: at_failed split: if_splits)
  next
    fix r :: "string option \<times> applied_patch_write_receipt option"
    obtain ov rc where r: "r = (ov, rc)" by fastforce
    show "triple ((\<lambda>(ov, rc) s. (rc = None \<longrightarrow> ov = Some (ap_new_contents update)) \<and> at f0 (?cs ov rc) [] (?b rc) s) r)
      (case r of (ov, rc) \<Rightarrow> bind (cancelled host) (\<lambda>stop. bind (ensure (\<not> stop) x) (\<lambda>_.
       bind (remove_moved env host p a update) (\<lambda>_. ?finish ov rc)))) (\<lambda>_. recorded f0 cs ?U ?ok) (failed f0 cs ?U)"
      using final[of rc ov x] unfolding r by (auto simp: triple_def)
  qed
qed (auto intro: at_failed)

end

end
