(* ===== verification/Apply_Steps.thy ===== *)
theory Apply_Steps
  imports Apply_Hunks
begin

text \<open>
  The effect of a patch on the files, without errors, records or rollback: \<open>patch_step\<close> for one hunk
  and \<open>patch_steps\<close> for hunks in order. The computations that write hunks implement it. A move needs
  that no earlier hunk touched its destination, which the check of mutation endpoints guarantees.
\<close>

section \<open>What a patch means\<close>

inductive patch_step :: "apply_env \<Rightarrow> (uri \<Rightarrow> 'e) \<Rightarrow> uri \<Rightarrow> nat \<times> hunk \<Rightarrow> ('e \<Rightarrow> string option) \<Rightarrow>
    ('e \<Rightarrow> string option) \<Rightarrow> bool" for env ep cwd where
  step_add: "resolve_path (en_paths env) cwd (AddFile p c) = Ok u \<Longrightarrow> f (ep u) = None \<Longrightarrow>
     patch_step env ep cwd (i, AddFile p c) f (f(ep u := Some c))"
| step_delete: "resolve_path (en_paths env) cwd (DeleteFile p) = Ok u \<Longrightarrow> f (ep u) = Some c \<Longrightarrow>
     patch_step env ep cwd (i, DeleteFile p) f (f(ep u := None))"
| step_update: "resolve_path (en_paths env) cwd (UpdateFile p None chunks) = Ok u \<Longrightarrow> f (ep u) = Some old \<Longrightarrow>
     new_contents env u old chunks (i + 1) = Ok new \<Longrightarrow>
     patch_step env ep cwd (i, UpdateFile p None chunks) f (f(ep u := Some new))"
| step_move: "resolve_path (en_paths env) cwd (UpdateFile p (Some m) chunks) = Ok u \<Longrightarrow> f (ep u) = Some old \<Longrightarrow>
     new_contents env u old chunks (i + 1) = Ok new \<Longrightarrow> po_join (en_paths env) cwd m = Ok dest \<Longrightarrow> ep dest \<noteq> ep u \<Longrightarrow>
     patch_step env ep cwd (i, UpdateFile p (Some m) chunks) f (f(ep dest := Some new, ep u := None))"

inductive patch_steps :: "apply_env \<Rightarrow> (uri \<Rightarrow> 'e) \<Rightarrow> uri \<Rightarrow> (nat \<times> hunk) list \<Rightarrow> ('e \<Rightarrow> string option) \<Rightarrow>
    ('e \<Rightarrow> string option) \<Rightarrow> bool" for env ep cwd where
  steps_none: "patch_steps env ep cwd [] f f"
| steps_snoc: "patch_steps env ep cwd hs f g \<Longrightarrow> patch_step env ep cwd h g k \<Longrightarrow> patch_steps env ep cwd (hs @ [h]) f k"

definition hunk_uris :: "apply_env \<Rightarrow> uri \<Rightarrow> hunk \<Rightarrow> uri set" where
  "hunk_uris env cwd h =
     {u. resolve_path (en_paths env) cwd h = Ok u}
   \<union> {d. \<exists>m. hunk_destination h = Some m \<and> po_join (en_paths env) cwd m = Ok d}"

section \<open>Chains of updates\<close>

text \<open>
  The check of mutation endpoints links an update to an earlier hunk only, so the loop of \<^const>\<open>first_update\<close>
  has enough rounds: it ends at a hunk without a predecessor, and more rounds change nothing.
\<close>

definition links_back :: "nat option list \<Rightarrow> bool" where
  "links_back previous \<longleftrightarrow> (\<forall>j p. previous_update previous j = Some p \<longrightarrow> p < j)"

definition table_back :: "nat \<Rightarrow> endpoint_table \<Rightarrow> bool" where
  "table_back n table \<longleftrightarrow>
     (\<forall>k u. fst table k = Some u \<longrightarrow> 0 < eu_hunk u \<and> eu_hunk u \<le> n) \<and> links_back (snd table)"

lemma links_back_update: "links_back previous \<Longrightarrow> p < i \<Longrightarrow> links_back (previous[i := Some p])"
  by (cases "i < length previous") (auto simp: links_back_def previous_update_def nth_list_update split: if_splits)

lemma claim_endpoint_back:
  assumes "m \<le> Suc i" "is_in_place h \<Longrightarrow> m \<le> i"
  shows "triple (\<lambda>_. table_back m table) (claim_endpoint env fs i h table p) (\<lambda>table' _. table_back (Suc i) table') (\<lambda>_ _. True)"
proof (rule tripleI)
  fix w table' w' assume pre: "table_back m table" and run: "claim_endpoint env fs i h table p w = (Ok table', w')"
  obtain k u where u: "fst table' = (fst table)(k \<mapsto> u)" "eu_hunk u = Suc i"
    and prev: "snd table' = snd table \<or> (is_in_place h \<and> (\<exists>v. fst table k = Some v \<and> snd table' = (snd table)[i := Some (eu_hunk v - 1)]))"
    using run by (auto simp: claim_endpoint_def bind_def Let_def ret_def throw_def split: prod.splits result.splits option.splits if_splits)
  have "links_back (snd table')" using prev
  proof (elim disjE conjE exE)
    fix v assume v: "is_in_place h" "fst table k = Some v" "snd table' = (snd table)[i := Some (eu_hunk v - 1)]"
    have "eu_hunk v - 1 < i" using pre v(1,2) assms(2) unfolding table_back_def by fastforce
    then show ?thesis using pre v(3) by (simp add: table_back_def links_back_update)
  qed (use pre in \<open>simp add: table_back_def\<close>)
  then show "table_back (Suc i) table'" using pre u assms(1) unfolding table_back_def by (auto intro: le_trans)
qed simp

lemma claim_hunk_back:
  "triple (\<lambda>_. table_back i table) (claim_hunk env fs cwd table (i, h)) (\<lambda>table' _. table_back (Suc i) table') (\<lambda>_ _. True)"
proof -
  have claims: "triple (\<lambda>_. table_back i table) (loop (claim_endpoint env fs i h) table (u # (case m of None \<Rightarrow> [] | Some path \<Rightarrow> [path])))
      (\<lambda>table' _. table_back (Suc i) table') (\<lambda>_ _. True)" if m: "join_destination env cwd h = Ok m" for u m
  proof (cases m)
    case None
    then show ?thesis by (auto intro!: triple_bind[OF claim_endpoint_back] triple_ret)
  next
    case (Some d)
    with m have "\<not> is_in_place h" by (cases h) (auto simp: join_destination_def split: option.splits)
    with Some show ?thesis
      by (auto intro!: triple_bind[OF claim_endpoint_back] triple_ret)
  qed
  have "triple (\<lambda>_. join_destination env cwd h = Ok m \<and> table_back i table)
      (loop (claim_endpoint env fs i h) table (u # (case m of None \<Rightarrow> [] | Some path \<Rightarrow> [path])))
      (\<lambda>table' _. table_back (Suc i) table') (\<lambda>_ _. True)" for u m
    by (cases "join_destination env cwd h = Ok m") (use claims in auto, simp add: triple_def split: prod.splits result.splits)
  then have "triple (\<lambda>_. table_back i table) (bind (of_result (join_destination env cwd h)) (\<lambda>m.
      loop (claim_endpoint env fs i h) table (u # (case m of None \<Rightarrow> [] | Some path \<Rightarrow> [path]))))
      (\<lambda>table' _. table_back (Suc i) table') (\<lambda>_ _. True)" for u
    by (rule triple_bind[OF triple_of_result, rotated -1]) auto
  then show ?thesis
    unfolding claim_hunk_def prod.case by (rule triple_bind[OF triple_of_result, rotated -1]) auto
qed

lemma validate_links_back:
  "triple (\<lambda>_. True) (validate_mutation_endpoints env fs cwd hunks) (\<lambda>previous _. links_back previous) (\<lambda>_ _. True)"
  unfolding validate_mutation_endpoints_def
proof (rule triple_bind)
  show "triple (\<lambda>_. True) (loop (claim_hunk env fs cwd) (Map.empty, replicate (length hunks) None) (enumerate 0 hunks))
      (\<lambda>table _. table_back (length hunks) table) (\<lambda>_ _. True)"
  proof (rule triple_conseq)
    show "triple (\<lambda>_. table_back 0 (Map.empty, replicate (length hunks) None))
        (loop (claim_hunk env fs cwd) (Map.empty, replicate (length hunks) None) (enumerate 0 hunks))
        (\<lambda>table _. table_back (length (enumerate 0 hunks)) table) (\<lambda>_ _. True)"
      by (rule triple_loop[where I = "\<lambda>i table _. table_back i table"]) (simp add: nth_enumerate_eq claim_hunk_back)
  qed (auto simp: table_back_def links_back_def previous_update_def split: if_splits)
qed (auto simp: table_back_def intro: triple_ret split: prod.splits)

lemma follow_updates_enough:
  "links_back previous \<Longrightarrow> i \<le> n \<Longrightarrow> i \<le> m \<Longrightarrow> follow_updates n previous i = follow_updates m previous i"
proof (induction n arbitrary: i m)
  case (Suc n)
  then show ?case by (cases m) (fastforce simp: links_back_def split: option.splits)+
next
  case 0
  then show ?case by (cases m) (auto simp: links_back_def split: option.splits)
qed

lemma first_update_ends:
  "links_back previous \<Longrightarrow> previous_update previous (first_update previous i) = None"
proof (induction i rule: less_induct)
  case (less i)
  show ?case
  proof (cases "previous_update previous i")
    case (Some j)
    with less.prems have "j < i" by (simp add: links_back_def)
    moreover from Some this less.prems have "first_update previous i = first_update previous j"
      unfolding first_update_def by (cases i) (auto intro: follow_updates_enough)
    ultimately show ?thesis using less by simp
  qed (cases i, auto simp: first_update_def)
qed

section \<open>What was prepared\<close>

text \<open>Every prepared update is what its chunks make of the contents it was prepared for.\<close>

definition prepared_ok :: "apply_env \<Rightarrow> uri \<Rightarrow> hunk list \<Rightarrow> applied_patch option list \<Rightarrow> bool" where
  "prepared_ok env cwd hunks prepared \<longleftrightarrow>
     (\<forall>i u p m chunks path. i < length prepared \<and> prepared ! i = Some u \<and> hunks ! i = UpdateFile p m chunks
        \<and> resolve_path (en_paths env) cwd (hunks ! i) = Ok path
        \<longrightarrow> new_contents env path (ap_original_contents u) chunks (i + 1) = Ok (ap_new_contents u))"

lemma prepared_ok_snoc:
  assumes "prepared_ok env cwd hunks prepared"
    and "\<And>u p m chunks path. x = Some u \<Longrightarrow> hunks ! length prepared = UpdateFile p m chunks \<Longrightarrow>
      resolve_path (en_paths env) cwd (hunks ! length prepared) = Ok path \<Longrightarrow>
      new_contents env path (ap_original_contents u) chunks (length prepared + 1) = Ok (ap_new_contents u)"
  shows "prepared_ok env cwd hunks (prepared @ [x])"
  unfolding prepared_ok_def
proof (intro allI impI)
  fix i u p m chunks path
  assume a: "i < length (prepared @ [x]) \<and> (prepared @ [x]) ! i = Some u \<and> hunks ! i = UpdateFile p m chunks
        \<and> resolve_path (en_paths env) cwd (hunks ! i) = Ok path"
  show "new_contents env path (ap_original_contents u) chunks (i + 1) = Ok (ap_new_contents u)"
  proof (cases "i < length prepared")
    case True
    with a have "prepared ! i = Some u" by (simp add: nth_append)
    with a True assms(1) show ?thesis unfolding prepared_ok_def by blast
  next
    case False
    with a have i: "i = length prepared" by simp
    show ?thesis unfolding i by (rule assms(2)) (use a i in auto)
  qed
qed

lemma prepared_ok_update:
  assumes "prepared_ok env cwd hunks prepared"
    and "\<And>p m chunks path. hunks ! i = UpdateFile p m chunks \<Longrightarrow> resolve_path (en_paths env) cwd (hunks ! i) = Ok path \<Longrightarrow>
      new_contents env path (ap_original_contents u) chunks (i + 1) = Ok (ap_new_contents u)"
  shows "prepared_ok env cwd hunks (prepared[i := Some u])"
  unfolding prepared_ok_def
proof (intro allI impI)
  fix j v p m chunks path
  assume a: "j < length (prepared[i := Some u]) \<and> prepared[i := Some u] ! j = Some v \<and> hunks ! j = UpdateFile p m chunks
        \<and> resolve_path (en_paths env) cwd (hunks ! j) = Ok path"
  show "new_contents env path (ap_original_contents v) chunks (j + 1) = Ok (ap_new_contents v)"
  proof (cases "i = j")
    case True
    with a have "v = u" by (auto simp: nth_list_update)
    with a True assms(2) show ?thesis by blast
  next
    case False
    with a assms(1) show ?thesis unfolding prepared_ok_def by auto
  qed
qed

lemma preflight_update_ok:
  assumes "preflight_update env path h chunks i previous original (prepared, failures) = Ok (prepared', failures')"
  shows "\<exists>x. prepared' = prepared @ [x] \<and> (\<forall>u. x = Some u \<longrightarrow>
    new_contents env path (ap_original_contents u) chunks (i + 1) = Ok (ap_new_contents u))"
  using assms
  by (auto simp: preflight_update_def Let_def elim!: and_then.elims split: result.splits option.splits if_splits)

lemma preflight_hunk_ok:
  assumes run: "preflight_hunk env fs cwd previous (prepared, failures) (i, h) w = (Ok (prepared', failures'), w')"
  shows "\<exists>x. prepared' = prepared @ [x] \<and> (\<forall>u p m chunks path. x = Some u \<longrightarrow> h = UpdateFile p m chunks \<longrightarrow>
    resolve_path (en_paths env) cwd h = Ok path \<longrightarrow>
    new_contents env path (ap_original_contents u) chunks (i + 1) = Ok (ap_new_contents u))"
proof (cases h)
  case (UpdateFile p m chunks)
  then show ?thesis
    using run
    by (auto simp: preflight_hunk_def hunk_source_def bind_def of_result_def ret_def attempt_def
        dest!: preflight_update_ok split: result.splits option.splits prod.splits if_splits)
qed (use run in \<open>auto simp: preflight_hunk_def bind_def of_result_def ret_def attempt_def
        split: result.splits prod.splits\<close>)

lemma nth_enumerate_0: "i < length xs \<Longrightarrow> enumerate 0 xs ! i = (i, xs ! i)"
  by (simp add: nth_enumerate_eq)

lemma preflight_prepared:
  "triple (\<lambda>_. True) (preflight_hunks env fs cwd previous hunks)
     (\<lambda>prepared _. length prepared = length hunks \<and> prepared_ok env cwd hunks prepared) (\<lambda>_ _. True)"
  unfolding preflight_hunks_def
proof (rule triple_bind)
  let ?I = "\<lambda>i (pf :: preflight) (_ :: 'a). length (fst pf) = i \<and> prepared_ok env cwd hunks (fst pf)"
  have "triple (?I i pf) (preflight_hunk env fs cwd previous pf (enumerate 0 hunks ! i)) (?I (Suc i)) (\<lambda>_ _. True)"
    if "i < length (enumerate 0 hunks)" for i pf
  proof (rule tripleI)
    fix s pf' t assume I: "?I i pf s"
      and run: "preflight_hunk env fs cwd previous pf (enumerate 0 hunks ! i) s = (Ok pf', t)"
    obtain prepared failures prepared' failures' where pf: "pf = (prepared, failures)" "pf' = (prepared', failures')"
      by fastforce
    from run that obtain x where "prepared' = prepared @ [x]" "\<forall>u p m chunks path. x = Some u \<longrightarrow> hunks ! i = UpdateFile p m chunks \<longrightarrow>
      resolve_path (en_paths env) cwd (hunks ! i) = Ok path \<longrightarrow>
      new_contents env path (ap_original_contents u) chunks (i + 1) = Ok (ap_new_contents u)"
      unfolding pf by (auto simp: nth_enumerate_0 dest: preflight_hunk_ok)
    with I show "?I (Suc i) pf' t" unfolding pf by (auto intro!: prepared_ok_snoc)
  qed simp
  from triple_loop[where I = ?I, OF this]
  have "triple (?I 0 ([], [])) (loop (preflight_hunk env fs cwd previous) ([], []) (enumerate 0 hunks))
      (?I (length (enumerate 0 hunks))) (\<lambda>_ _. True)" by blast
  then show "triple (\<lambda>_. True) (loop (preflight_hunk env fs cwd previous) ([], []) (enumerate 0 hunks))
      (\<lambda>pf _. length (fst pf) = length hunks \<and> prepared_ok env cwd hunks (fst pf)) (\<lambda>_ _. True)"
    by (rule triple_conseq) (auto simp: prepared_ok_def)
qed (auto simp: triple_def ret_def throw_def split: if_splits)

lemma recheck_hunk_ok:
  assumes run: "recheck_hunk env host cwd v previous prepared (i, h) s = (Ok prepared', t)"
    and ok: "prepared_ok env cwd hunks prepared" "h = hunks ! i"
  shows "length prepared' = length prepared \<and> prepared_ok env cwd hunks prepared'"
proof (cases "prepared' = prepared")
  case False
  with run obtain u path p m chunks where "prepared' = prepared[i := Some u]" "h = UpdateFile p m chunks"
    "resolve_path (en_paths env) cwd h = Ok path"
    "new_contents env path (ap_original_contents u) chunks (i + 1) = Ok (ap_new_contents u)"
    by (auto simp: recheck_hunk_def Let_def bind_def of_result_def ret_def throw_def ensure_def
        split: result.splits option.splits prod.splits if_splits hunk.splits)
  then show ?thesis using ok by (auto intro!: prepared_ok_update)
qed (use ok in simp)

lemma recheck_prepared:
  assumes "length prepared = length hunks" "prepared_ok env cwd hunks prepared"
  shows "triple (\<lambda>_. True) (loop (recheck_hunk env host cwd v previous) prepared (enumerate 0 hunks))
     (\<lambda>prepared _. length prepared = length hunks \<and> prepared_ok env cwd hunks prepared) (\<lambda>_ _. True)"
proof -
  let ?I = "\<lambda>(i :: nat) prepared (_ :: 'a patch_run). length prepared = length hunks \<and> prepared_ok env cwd hunks prepared"
  have "triple (?I i prepared) (recheck_hunk env host cwd v previous prepared (enumerate 0 hunks ! i)) (?I (Suc i)) (\<lambda>_ _. True)"
    if "i < length (enumerate 0 hunks)" for i prepared
    using that by (intro tripleI) (auto simp: nth_enumerate_0 dest: recheck_hunk_ok)
  then have "triple (?I 0 prepared) (loop (recheck_hunk env host cwd v previous) prepared (enumerate 0 hunks))
      (?I (length (enumerate 0 hunks))) (\<lambda>_ _. True)" by (rule triple_loop)
  with assms show ?thesis by simp
qed

section \<open>Every endpoint is claimed once\<close>

context quiet_executor
begin

text \<open>The table has an identity for every path of \<open>U\<close>, taken while the files were \<open>c\<close>.\<close>

definition claimed :: "('e \<Rightarrow> string option) \<Rightarrow> uri set \<Rightarrow> endpoint_table \<Rightarrow> 'w \<Rightarrow> bool" where
  "claimed c U table w \<longleftrightarrow> contents w = c \<and>
     (\<forall>u\<in>U. \<exists>i w1 w2. fst table i \<noteq> None \<and> contents w1 = c \<and> mutation_endpoint_identity env host u w1 = (Ok i, w2))"

lemma claim_endpoint_claimed:
  "triple (claimed c U table) (claim_endpoint env host i h table p)
     (\<lambda>table' w. claimed c (insert p U) table' w \<and> (is_in_place h \<or> (\<forall>u\<in>U. ep u \<noteq> ep p))) (\<lambda>_ _. True)"
proof (rule tripleI)
  fix w table' w' assume pre: "claimed c U table w" and run: "claim_endpoint env host i h table p w = (Ok table', w')"
  obtain endpoints previous where table: "table = (endpoints, previous)" by fastforce
  from run table obtain k v w1 where k: "mutation_endpoint_identity env host p w = (Ok k, w1)"
    and new: "fst table' = endpoints(k \<mapsto> v)" "is_in_place h \<or> endpoints k = None" "w' = w1"
    by (auto simp: claim_endpoint_def bind_def Let_def ret_def throw_def split: prod.splits result.splits option.splits if_splits)
  have c: "contents w = c" "contents w' = c"
    using pre frameD[OF silent_identity k] new(3) by (simp_all add: claimed_def)
  have "ep u \<noteq> ep p" if u: "u \<in> U" and "\<not> is_in_place h" for u
  proof
    assume same: "ep u = ep p"
    from pre u obtain j v1 v2 where j: "endpoints j \<noteq> None" "contents v1 = c" "mutation_endpoint_identity env host u v1 = (Ok j, v2)"
      unfolding claimed_def table fst_conv by blast
    have "j = k" by (rule identity_aliases[OF j(3) k _ same]) (simp add: c j)
    with j new(2) that show False by simp
  qed
  moreover have "claimed c (insert p U) table' w'"
    using pre new(1) k c unfolding claimed_def table by (auto simp: new(1)) (metis option.discI)
  ultimately show "claimed c (insert p U) table' w' \<and> (is_in_place h \<or> (\<forall>u\<in>U. ep u \<noteq> ep p))" by blast
qed simp

definition fresh_destination :: "uri \<Rightarrow> uri set \<Rightarrow> hunk \<Rightarrow> bool" where
  "fresh_destination cwd U h \<longleftrightarrow>
     (\<forall>m dest u. hunk_destination h = Some m \<longrightarrow> po_join (en_paths env) cwd m = Ok dest \<longrightarrow> u \<in> U \<longrightarrow> ep u \<noteq> ep dest)"

lemma claim_hunk_claimed:
  "triple (claimed c U table) (claim_hunk env host cwd table (i, h))
     (\<lambda>table' w. claimed c (U \<union> hunk_uris env cwd h) table' w \<and> fresh_destination cwd U h) (\<lambda>_ _. True)"
  unfolding claim_hunk_def prod.case
proof (intro seq_result)
  fix u m assume u: "hunk_source env cwd h = Ok u" and m: "join_destination env cwd h = Ok m"
  show "triple (claimed c U table) (loop (claim_endpoint env host i h) table (u # (case m of None \<Rightarrow> [] | Some path \<Rightarrow> [path])))
     (\<lambda>table' w. claimed c (U \<union> hunk_uris env cwd h) table' w \<and> fresh_destination cwd U h) (\<lambda>_ _. True)"
  proof (cases m)
    case None
    then have "hunk_uris env cwd h = {u}" "fresh_destination cwd U h"
      using u m by (auto simp: hunk_uris_def fresh_destination_def hunk_source_def join_destination_def split: option.splits)
    then show ?thesis
      unfolding None option.case loop.simps
      by (intro triple_bind[OF triple_conseq[OF claim_endpoint_claimed[where c = c and U = U]] triple_ret]) auto
  next
    case (Some d)
    then have uris: "hunk_uris env cwd h = {u, d}" and "\<not> is_in_place h"
      and fresh: "fresh_destination cwd U h \<longleftrightarrow> (\<forall>v\<in>U. ep v \<noteq> ep d)"
      using u m by (auto simp: hunk_uris_def fresh_destination_def hunk_source_def join_destination_def split: option.splits
          elim!: is_in_place.elims)
    have last: "triple (claimed c (insert u U) table') (bind (claim_endpoint env host i h table' d) ret)
        (\<lambda>table' w. claimed c (insert d (insert u U)) table' w \<and> (\<forall>v\<in>U. ep v \<noteq> ep d)) (\<lambda>_ _. True)" for table'
      using \<open>\<not> is_in_place h\<close>
      by (intro triple_bind[OF triple_conseq[OF claim_endpoint_claimed[where c = c and U = "insert u U"]] triple_ret]) auto
    have union: "U \<union> {u, d} = insert d (insert u U)" by auto
    show ?thesis unfolding Some uris fresh option.case loop.simps union
    proof (rule triple_bind[where Q = "\<lambda>table'. claimed c (insert u U) table'"])
      show "triple (claimed c U table) (claim_endpoint env host i h table u) (claimed c (insert u U)) (\<lambda>_ _. True)"
        by (rule triple_conseq[OF claim_endpoint_claimed]) auto
    qed (use last in simp)
  qed
qed simp_all

definition fresh_destinations :: "uri \<Rightarrow> hunk list \<Rightarrow> bool" where
  "fresh_destinations cwd hunks \<longleftrightarrow>
     (\<forall>i < length hunks. fresh_destination cwd (\<Union>h\<in>set (take i hunks). hunk_uris env cwd h) (hunks ! i))"

lemma validate_fresh:
  "triple (\<lambda>_. True) (validate_mutation_endpoints env host cwd hunks) (\<lambda>_ _. fresh_destinations cwd hunks) (\<lambda>_ _. True)"
proof (rule tripleI)
  fix w previous w' assume run: "validate_mutation_endpoints env host cwd hunks w = (Ok previous, w')"
  let ?U = "\<lambda>i. \<Union>h\<in>set (take i hunks). hunk_uris env cwd h"
  let ?I = "\<lambda>i table w'. claimed (contents w) (?U i) table w' \<and> (\<forall>j<i. fresh_destination cwd (?U j) (hunks ! j))"
  have "triple (?I i table) (claim_hunk env host cwd table (enumerate 0 hunks ! i)) (?I (Suc i)) (\<lambda>_ _. True)"
    if "i < length (enumerate 0 hunks)" for i table
  proof -
    have i: "enumerate 0 hunks ! i = (i, hunks ! i)" "?U (Suc i) = ?U i \<union> hunk_uris env cwd (hunks ! i)"
      using that by (auto simp: nth_enumerate_0 take_Suc_conv_app_nth)
    show ?thesis
      unfolding i
    proof (rule tripleI)
      fix s table' t assume "?I i table s" and "claim_hunk env host cwd table (i, hunks ! i) s = (Ok table', t)"
      with tripleD_Ok[OF claim_hunk_claimed, of "contents w" "?U i" table s cwd i "hunks ! i" table' t]
      show "claimed (contents w) (?U i \<union> hunk_uris env cwd (hunks ! i)) table' t
          \<and> (\<forall>j<Suc i. fresh_destination cwd (?U j) (hunks ! j))"
        by (auto simp: less_Suc_eq)
    qed simp
  qed
  then have "triple (?I 0 (Map.empty, replicate (length hunks) None))
      (loop (claim_hunk env host cwd) (Map.empty, replicate (length hunks) None) (enumerate 0 hunks))
      (?I (length (enumerate 0 hunks))) (\<lambda>_ _. True)" by (rule triple_loop)
  moreover have "?I 0 (Map.empty, replicate (length hunks) None) w" by (simp add: claimed_def)
  moreover obtain table where "loop (claim_hunk env host cwd) (Map.empty, replicate (length hunks) None) (enumerate 0 hunks) w = (Ok table, w')"
    using run by (auto simp: validate_mutation_endpoints_def bind_def ret_def split: prod.splits result.splits)
  ultimately have "?I (length (enumerate 0 hunks)) table w'" by (rule tripleD_Ok)
  then show "fresh_destinations cwd hunks" by (simp add: fresh_destinations_def)
qed simp

section \<open>Writing the hunks\<close>

lemma current_update_new:
  assumes "current_update env host v i prep p chunks s = (Ok upd, t)"
    and "\<And>u. prep = Some u \<Longrightarrow> new_contents env p (ap_original_contents u) chunks (i + 1) = Ok (ap_new_contents u)"
  shows "new_contents env p (ap_original_contents upd) chunks (i + 1) = Ok (ap_new_contents upd)"
  using assms
  by (auto simp: current_update_def bind_def of_result_def ret_def throw_def ensure_def ok_or_def apply_run_def
      map_error_def on_world_def derive_new_contents_from_chunks_def
      split: result.splits option.splits prod.splits if_splits)

lemma seq_current_update:
  assumes "\<And>u. prep = Some u \<Longrightarrow> new_contents env p (ap_original_contents u) chunks (i + 1) = Ok (ap_new_contents u)"
    and "\<And>upd. new_contents env p (ap_original_contents upd) chunks (i + 1) = Ok (ap_new_contents upd) \<Longrightarrow>
      triple (at f0 cs ws b) (f upd) Q E"
    and "\<And>x s. at f0 cs ws b s \<Longrightarrow> E x s"
  shows "triple (at f0 cs ws b) (bind (current_update env host v i prep p chunks) f) Q E"
proof (rule triple_bind[where Q = "\<lambda>upd s. at f0 cs ws b s
      \<and> new_contents env p (ap_original_contents upd) chunks (i + 1) = Ok (ap_new_contents upd)"])
  show "triple (at f0 cs ws b) (current_update env host v i prep p chunks) (\<lambda>upd s. at f0 cs ws b s
      \<and> new_contents env p (ap_original_contents upd) chunks (i + 1) = Ok (ap_new_contents upd)) E"
  proof (rule tripleI)
    fix s upd t assume at: "at f0 cs ws b s" and run: "current_update env host v i prep p chunks s = (Ok upd, t)"
    show "at f0 cs ws b t \<and> new_contents env p (ap_original_contents upd) chunks (i + 1) = Ok (ap_new_contents upd)"
      using at_calm[OF at frameD[OF calm_current_update run]] current_update_new[OF run assms(1)] by blast
  next
    fix s x t assume at: "at f0 cs ws b s" and run: "current_update env host v i prep p chunks s = (Err x, t)"
    show "E x t" by (rule assms(3)) (rule at_calm[OF at frameD[OF calm_current_update run]])
  qed
qed (use assms(2) in \<open>auto simp: triple_def\<close>)

lemma write_hunk_triple:
  assumes path: "resolve_path (en_paths env) cwd h = Ok u"
    and prep: "\<And>v p m chunks. prepared ! i = Some v \<Longrightarrow> h = UpdateFile p m chunks \<Longrightarrow>
      new_contents env u (ap_original_contents v) chunks (i + 1) = Ok (ap_new_contents v)"
    and fresh: "fresh_destination cwd U h" "fst ` set (all_writes cs) \<subseteq> U"
    and f: "f = replay ep f0 (all_writes cs)"
  shows "triple (at f0 cs [] b) (write_hunk env host cwd destinations v prepared i h u)
    (\<lambda>_. recorded f0 cs (hunk_uris env cwd h) (\<lambda>ws. patch_step env ep cwd (i, h) f (replay ep f ws)))
    (failed f0 cs (hunk_uris env cwd h))"
proof (cases h)
  case (AddFile p c)
  have "u \<in> hunk_uris env cwd h" using path by (simp add: hunk_uris_def)
  then show ?thesis
    unfolding AddFile write_hunk_def hunk.case
    by (intro triple_conseq[OF add_file_triple])
       (use path in \<open>auto simp: AddFile f intro!: step_add elim!: recorded_weaken\<close>)
next
  case (DeleteFile p)
  have "u \<in> hunk_uris env cwd h" using path by (simp add: hunk_uris_def)
  then show ?thesis
    unfolding DeleteFile write_hunk_def hunk.case
    by (intro triple_conseq[OF delete_file_triple])
       (use path in \<open>auto simp: DeleteFile f intro!: step_delete elim!: recorded_weaken\<close>)
next
  case (UpdateFile p m chunks)
  have u: "u \<in> hunk_uris env cwd h" using path by (simp add: hunk_uris_def)
  have "triple (at f0 cs [] (b \<and> \<not> link u)) (case m of Some dest \<Rightarrow> write_move env host cwd destinations u dest upd
        | None \<Rightarrow> write_update env host u upd)
      (\<lambda>_. recorded f0 cs (hunk_uris env cwd h) (\<lambda>ws. patch_step env ep cwd (i, h) f (replay ep f ws)))
      (failed f0 cs (hunk_uris env cwd h))"
    if new: "new_contents env u (ap_original_contents upd) chunks (i + 1) = Ok (ap_new_contents upd)" for upd
  proof (cases m)
    case None
    have step: "patch_step env ep cwd (i, h) f (replay ep f ws)"
      if "f (ep u) = Some (ap_original_contents upd)" "replay ep f ws = f(ep u := Some (ap_new_contents upd))" for ws
      using path new that unfolding UpdateFile None that(2) by (intro step_update)
    show ?thesis
      unfolding None option.case
      by (rule triple_conseq[OF write_update_triple[OF f]]) (use u step in \<open>auto elim!: recorded_weaken\<close>)
  next
    case (Some mv)
    have step: "patch_step env ep cwd (i, h) f (replay ep f ws)"
      if "po_join (en_paths env) cwd mv = Ok dest" "ep dest \<noteq> ep u" "f (ep u) = Some (ap_original_contents upd)"
        "replay ep f ws = f(ep dest := Some (ap_new_contents upd), ep u := None)" for ws dest
      using path new that unfolding UpdateFile Some that(4) by (intro step_move)
    have uris: "{u} \<union> {dest. po_join (en_paths env) cwd mv = Ok dest} \<subseteq> hunk_uris env cwd h"
      using u unfolding UpdateFile Some by (auto simp: hunk_uris_def)
    have "ep dest \<notin> endpoints_of ep (all_writes cs)" if "po_join (en_paths env) cwd mv = Ok dest" for dest
      using fresh that unfolding fresh_destination_def UpdateFile Some endpoints_of_def by force
    then show ?thesis
      unfolding Some option.case
      by (intro triple_conseq[OF write_move_triple[OF f]]) (use uris step in \<open>auto elim!: recorded_weaken\<close>)
  qed
  then show ?thesis
    unfolding UpdateFile write_hunk_def hunk.case
    by (intro seq_support seq_current_update) (use prep UpdateFile in \<open>auto intro: at_failed\<close>)
qed

lemma recorded_calm: "recorded f0 cs U ok s \<Longrightarrow> calm_step contents s t \<Longrightarrow> recorded f0 cs U ok t"
  unfolding recorded_def calm_step_def pending_def by auto

lemma recorded_then_calm:
  assumes "triple P m (\<lambda>_. recorded f0 cs U ok) (failed f0 cs U)" "\<And>a. frame (calm_step contents) (n a)"
  shows "triple P (bind m n) (\<lambda>_. recorded f0 cs U ok) (failed f0 cs U)"
proof (rule triple_bind[OF assms(1)])
  fix a
  have "triple (recorded f0 cs U ok) (n a) (\<lambda>_. recorded f0 cs U ok) (\<lambda>_. recorded f0 cs U ok)"
    by (rule triple_frame[OF assms(2)]) (rule recorded_calm)
  then show "triple (recorded f0 cs U ok) (n a) (\<lambda>_. recorded f0 cs U ok) (failed f0 cs U)"
    by (rule triple_conseq) (auto elim: recorded_weaken)
qed

lemma apply_hunk_triple:
  assumes prep: "\<And>u v p m chunks. resolve_path (en_paths env) cwd h = Ok u \<Longrightarrow> prepared ! i = Some v \<Longrightarrow>
      h = UpdateFile p m chunks \<Longrightarrow> new_contents env u (ap_original_contents v) chunks (i + 1) = Ok (ap_new_contents v)"
    and fresh: "fresh_destination cwd U h" "fst ` set (all_writes cs) \<subseteq> U"
    and f: "f = replay ep f0 (all_writes cs)"
  shows "triple (at f0 cs [] b) (apply_hunk env host cwd destinations v prepared r (i, h))
    (\<lambda>_. recorded f0 cs (hunk_uris env cwd h) (\<lambda>ws. patch_step env ep cwd (i, h) f (replay ep f ws)))
    (failed f0 cs (hunk_uris env cwd h))"
  (is "triple _ _ ?Q ?E")
  unfolding apply_hunk_def prod.case
proof (intro seq_calm[OF calm_cancelled] seq_ensure seq_result seq_calm[OF frame_on_manifest]
    seq_calm_ok[OF calm_note_mode note_mode_ok] seq_calm[OF frame_apply_run[OF silent_identity]])
  fix u identity assume "map_err from_text (resolve_path (en_paths env) cwd h) = Ok u"
  then have u: "resolve_path (en_paths env) cwd h = Ok u" by simp
  have "triple (at f0 cs [] b) (write_hunk env host cwd destinations v prepared i h u) ?Q ?E"
    by (rule write_hunk_triple[OF u prep[OF u] fresh f])
  then have "triple (at f0 cs [] b) (bind (write_hunk env host cwd destinations v prepared i h u)
      (\<lambda>_. on_manifest finish_hunk)) ?Q ?E"
    by (rule recorded_then_calm) (rule frame_on_manifest)
  then show "triple (at f0 cs [] b) (bind (change_delta (\<lambda>d.
      (let previous = dl_endpoint_identities d (po_path_buf (en_paths env) u);
           d = note_identity env u identity d
       in if previous \<noteq> None \<and> previous \<noteq> Some identity then d\<lparr>dl_exact := False\<rparr> else d))) (\<lambda>_.
        bind (write_hunk env host cwd destinations v prepared i h u) (\<lambda>_. on_manifest finish_hunk))) ?Q ?E"
    by (intro seq_calm[OF frame_change_delta]) (auto simp: Let_def note_identity_def intro: at_failed)
qed (auto intro: at_failed)

text \<open>An exact delta names the bytes it started from, so a run that fits all initial files is not exact.\<close>

lemma pending_everywhere:
  assumes "\<And>g. pending g [] s"
  shows "\<not> exact s"
proof
  assume exact: "exact s"
  show False
  proof (cases "all_writes (changes s)")
    case Nil
    with exact assms[of "\<lambda>_. None"] assms[of "\<lambda>_. Some []"] have "(\<lambda>_. None) = (\<lambda>_ :: 'e. Some ([] :: string))"
      by (simp add: pending_def)
    then show False by (simp add: fun_eq_iff)
  next
    case (Cons w ws)
    obtain p b a where "w = (p, b, a)" by (cases w)
    with Cons exact assms[of "\<lambda>_. if b = None then Some [] else None"] show False
      by (simp add: pending_def split: if_splits)
  qed
qed

text \<open>The run after the first \<open>k\<close> hunks.\<close>

definition after_hunks :: "('e \<Rightarrow> string option) \<Rightarrow> uri \<Rightarrow> hunk list \<Rightarrow> nat \<Rightarrow> 'w patch_run \<Rightarrow> bool" where
  "after_hunks f0 cwd hunks k s \<longleftrightarrow> pending f0 [] s
     \<and> fst ` set (all_writes (changes s)) \<subseteq> (\<Union>h\<in>set (take k hunks). hunk_uris env cwd h)
     \<and> (exact s \<longrightarrow> patch_steps env ep cwd (take k (enumerate 0 hunks)) f0 (files s))"

lemma write_hunks_triple:
  assumes prep: "length prepared = length hunks" "prepared_ok env cwd hunks prepared" and fresh: "fresh_destinations cwd hunks"
  shows "triple (after_hunks f0 cwd hunks 0) (loop (apply_hunk env host cwd destinations v prepared) () (enumerate 0 hunks))
    (\<lambda>_. after_hunks f0 cwd hunks (length hunks)) (\<lambda>_. pending f0 [])"
proof -
  let ?U = "\<lambda>k. \<Union>h\<in>set (take k hunks). hunk_uris env cwd h"
  have "triple (after_hunks f0 cwd hunks k) (apply_hunk env host cwd destinations v prepared r (enumerate 0 hunks ! k))
     (\<lambda>_. after_hunks f0 cwd hunks (Suc k)) (\<lambda>_. pending f0 [])" if "k < length (enumerate 0 hunks)" for k r
  proof -
    have k: "enumerate 0 hunks ! k = (k, hunks ! k)" "?U (Suc k) = ?U k \<union> hunk_uris env cwd (hunks ! k)"
      "take (Suc k) (enumerate 0 hunks) = take k (enumerate 0 hunks) @ [(k, hunks ! k)]"
      using that by (auto simp: nth_enumerate_0 take_Suc_conv_app_nth)
    have fr: "fresh_destination cwd (?U k) (hunks ! k)" using fresh that by (simp add: fresh_destinations_def)
    have pr: "new_contents env u (ap_original_contents x) chunks (k + 1) = Ok (ap_new_contents x)"
      if "resolve_path (en_paths env) cwd (hunks ! k) = Ok u" "prepared ! k = Some x" "hunks ! k = UpdateFile p m chunks"
      for u x p m chunks
      using prep that \<open>k < length (enumerate 0 hunks)\<close> unfolding prepared_ok_def by simp
    note hunk = apply_hunk_triple[OF pr fr _ HOL.refl]
    have pre: "fst ` set (all_writes (changes s)) \<subseteq> ?U k" "at f0 (changes s) [] True s" if "after_hunks f0 cwd hunks k s" for s
      using that by (auto simp: after_hunks_def at_def)
    show ?thesis
      unfolding k(1)
    proof (rule tripleI)
      fix s a t assume s: "after_hunks f0 cwd hunks k s"
        and run: "apply_hunk env host cwd destinations v prepared r (k, hunks ! k) s = (Ok a, t)"
      let ?f = "\<lambda>g. replay ep g (all_writes (changes s))"
      have rec: "recorded g (changes s) (hunk_uris env cwd (hunks ! k))
          (\<lambda>ws. patch_step env ep cwd (k, hunks ! k) (?f g) (replay ep (?f g) ws)) t" if "pending g [] s" for g
      proof (rule tripleD_Ok[OF hunk _ run])
        show "at g (changes s) [] True s" using that by (simp add: at_def)
      qed (use pre(1)[OF s] in auto)
      have "pending f0 [] s" using s by (simp add: after_hunks_def)
      from rec[OF this] obtain ds where ds: "pending f0 [] t" "changes t = changes s @ ds" "fst ` set (all_writes ds) \<subseteq> hunk_uris env cwd (hunks ! k)"
        "exact t \<longrightarrow> patch_step env ep cwd (k, hunks ! k) (?f f0) (replay ep (?f f0) (all_writes ds))" unfolding recorded_def by blast
      moreover have "exact t \<longrightarrow> exact s"
      proof (rule impI, rule ccontr)
        assume "exact t" "\<not> exact s"
        then have "pending g [] t" for g using rec[OF pending_inexact, of g] unfolding recorded_def by blast
        with \<open>exact t\<close> pending_everywhere show False by blast
      qed
      ultimately show "after_hunks f0 cwd hunks (Suc k) t"
        unfolding after_hunks_def k using s by (fastforce simp: after_hunks_def pending_def intro: steps_snoc)
    next
      fix s x t assume s: "after_hunks f0 cwd hunks k s"
        and run: "apply_hunk env host cwd destinations v prepared r (k, hunks ! k) s = (Err x, t)"
      have "recorded f0 (changes s) (hunk_uris env cwd (hunks ! k)) (\<lambda>_. True) t"
        by (rule tripleD_Err[OF hunk pre(2)[OF s] run]) (use pre(1)[OF s] in auto)
      then show "pending f0 [] t" by (auto simp: recorded_def)
    qed
  qed
  from triple_loop[where I = "\<lambda>k _. after_hunks f0 cwd hunks k" and xs = "enumerate 0 hunks", OF this] show ?thesis by simp
qed

section \<open>The attempt\<close>

lemma seq_fact:
  assumes "frame (calm_step contents) m" "triple (\<lambda>_. True) m (\<lambda>a _. F a) (\<lambda>_ _. True)"
    and "\<And>a. F a \<Longrightarrow> triple (at f0 cs ws b) (f a) Q E" "\<And>x s. at f0 cs ws b s \<Longrightarrow> E x s"
  shows "triple (at f0 cs ws b) (bind m f) Q E"
proof (rule triple_bind[where Q = "\<lambda>a s. at f0 cs ws b s \<and> F a"])
  show "triple (at f0 cs ws b) m (\<lambda>a s. at f0 cs ws b s \<and> F a) E"
  proof (rule tripleI)
    fix s a t assume at: "at f0 cs ws b s" and run: "m s = (Ok a, t)"
    show "at f0 cs ws b t \<and> F a"
      using at_calm[OF at frameD[OF assms(1) run]] tripleD_Ok[OF assms(2) _ run] by blast
  next
    fix s x t assume at: "at f0 cs ws b s" and run: "m s = (Err x, t)"
    show "E x t" by (rule assms(4)) (rule at_calm[OF at frameD[OF assms(1) run]])
  qed
qed (use assms(3) in \<open>auto simp: triple_def\<close>)

lemma triple_apply_run:
  "triple (\<lambda>_. True) m (\<lambda>a _. F a) (\<lambda>_ _. True) \<Longrightarrow> triple (\<lambda>_. True) (apply_run m) (\<lambda>a _. F a) (\<lambda>_ _. True)"
  unfolding apply_run_def
  by (intro triple_map_error tripleI) (auto simp: on_world_def dest: tripleD_Ok split: prod.splits)

lemma at_start: "at f0 [] [] b s \<Longrightarrow> after_hunks f0 cwd hunks 0 s"
  by (auto simp: at_def after_hunks_def pending_def intro: steps_none)

lemma at_pending: "at f0 cs ws b s \<Longrightarrow> pending f0 ws s"
  by (simp add: at_def)

lemma apply_hunks_to_files_triple:
  assumes "length prepared = length hunks" "prepared_ok env cwd hunks prepared"
  shows "triple (at f0 [] [] b) (apply_hunks_to_files env host cwd hunks guards prepared destinations v)
    (\<lambda>_. after_hunks f0 cwd hunks (length hunks)) (\<lambda>_. pending f0 [])"
  unfolding apply_hunks_to_files_def
proof (rule seq_fact[OF frame_apply_run[OF silent_validate] triple_apply_run[OF validate_fresh]],
    rule seq_calm[OF frame_apply_run[OF silent_capture]], rule seq_ensure,
    rule seq_fact[OF calm.loop[OF calm_recheck] recheck_prepared[OF assms]],
    rule seq_calm[OF frame_apply_run[OF silent_guards]])
  fix prepared' assume "fresh_destinations cwd hunks" "length prepared' = length hunks \<and> prepared_ok env cwd hunks prepared'"
  then show "triple (at f0 [] [] b) (loop (apply_hunk env host cwd destinations v prepared') () (enumerate 0 hunks))
      (\<lambda>_. after_hunks f0 cwd hunks (length hunks)) (\<lambda>_. pending f0 [])"
    by (intro triple_conseq[OF write_hunks_triple]) (auto intro: at_start)
qed (auto intro: at_pending)

lemma attempt_hunks_triple:
  "triple (at f0 [] [] b) (attempt_hunks env host cwd hunks guards verified)
    (\<lambda>_. after_hunks f0 cwd hunks (length hunks)) (\<lambda>_. pending f0 [])"
  unfolding attempt_hunks_def
  by (rule seq_ensure, rule seq_calm[OF frame_apply_run[OF silent_validate]], rule seq_calm[OF frame_on_world[OF silent_acquire]],
      rule seq_calm[OF frame_apply_run[OF silent_guards]], rule seq_calm[OF frame_apply_run[OF silent_capture]],
      rule seq_calm[OF calm_same_destinations],
      rule seq_fact[OF frame_apply_run[OF silent_preflight] triple_apply_run[OF preflight_prepared]],
      rule seq_calm[OF calm_check_verified], rule apply_hunks_to_files_triple)
     (auto intro: at_pending)

end

end
