(* ===== verification/Apply_Rollback.thy ===== *)
theory Apply_Rollback
  imports Apply_Steps
begin

text \<open>
  Rollback visits the committed changes backwards. A change that is undone disappears from the delta; one
  that cannot be undone stays, and the delta stays exact only if the bytes it wrote are still there. The
  delta that is left then describes the files again.
\<close>

section \<open>Removing a write from the history\<close>

lemma chained_cong: "(\<And>x. x \<in> endpoints_of ep ws \<Longrightarrow> f x = g x) \<Longrightarrow> chained ep f ws \<longleftrightarrow> chained ep g ws"
proof (induction ws arbitrary: f g)
  case (Cons w ws)
  obtain p b a where w: "w = (p, b, a)" by (cases w)
  have "chained ep (f(ep p := a)) ws \<longleftrightarrow> chained ep (g(ep p := a)) ws"
    by (rule Cons.IH) (use Cons.prems in auto)
  then show ?case using Cons.prems by (auto simp: w)
qed simp

lemma effective_antimono: "effective ep E ws \<Longrightarrow> D \<subseteq> E \<Longrightarrow> effective ep D ws"
  by (induction ws arbitrary: D E) (auto, blast+)

lemma remove_write:
  assumes "chained ep f (ws @ (q, b, a) # vs)" "ep q \<notin> endpoints_of ep vs"
  shows "replay ep f (ws @ vs) = (replay ep f (ws @ (q, b, a) # vs))(ep q := b)"
    and "chained ep f (ws @ vs)"
proof -
  let ?F = "replay ep f ws"
  have b: "?F (ep q) = b" using assms(1) by simp
  show "replay ep f (ws @ vs) = (replay ep f (ws @ (q, b, a) # vs))(ep q := b)"
  proof
    fix x
    show "replay ep f (ws @ vs) x = ((replay ep f (ws @ (q, b, a) # vs))(ep q := b)) x"
      using replay_other[OF assms(2), of ?F] b replay_cong[of ?F x "?F(ep q := a)" ep vs] by auto
  qed
  have "chained ep (?F(ep q := a)) vs \<longleftrightarrow> chained ep ?F vs" by (rule chained_cong) (use assms(2) in auto)
  then show "chained ep f (ws @ vs)" using assms(1) by simp
qed

lemma remove_write_effective:
  "effective ep E (ws @ w # vs) \<Longrightarrow> effective ep E (ws @ vs)"
  by (cases w) (auto elim: effective_antimono)

text \<open>A later write at the same endpoint would have replaced the bytes.\<close>

lemma last_write_at_endpoint:
  assumes chain: "chained ep f (ws @ (q, b, a) # vs)" and eff: "effective ep {} (ws @ (q, b, a) # vs)"
    and dist: "distinct (map (\<lambda>w. ep (fst w)) vs)" and still: "replay ep f (ws @ (q, b, a) # vs) (ep q) = a"
  shows "ep q \<notin> endpoints_of ep vs"
proof
  assume "ep q \<in> endpoints_of ep vs"
  then obtain xs w ys where vs: "vs = xs @ w # ys" and w: "ep (fst w) = ep q"
    unfolding endpoints_of_def using split_list by fastforce
  obtain q' b' a' where "w = (q', b', a')" by (cases w)
  with vs w dist have vs: "vs = xs @ (q', b', a') # ys" "ep q' = ep q" "ep q \<notin> endpoints_of ep xs" "ep q \<notin> endpoints_of ep ys"
    by (auto simp: endpoints_of_def image_iff)
  have "b' = a" using chain vs by (simp add: replay_other)
  moreover have "b' \<noteq> a'" using eff vs by auto
  moreover have "a' = a" using still vs by (simp add: replay_other)
  ultimately show False by simp
qed

section \<open>Moves in two parts\<close>

lemma all_writes_split_move: "all_writes (split_move c) = change_writes c"
  by (cases "ch_change c") (auto simp: split_move_def change_writes_def split: option.splits)

lemma all_writes_split_moves: "all_writes (concat (map split_move cs)) = all_writes cs"
  by (induction cs) (simp_all add: all_writes_split_move)

definition single_write :: "applied_patch_change \<Rightarrow> bool" where
  "single_write c \<longleftrightarrow> (\<exists>e r. expected_and_original (ch_change c) = Some (e, r) \<and> change_writes c = [(ch_path_uri c, r, e)])"

lemma split_move_single: "c \<in> set (split_move d) \<Longrightarrow> \<not> is_unsplit_move d \<Longrightarrow> single_write c"
  by (cases "ch_change d")
     (auto simp: split_move_def single_write_def change_writes_def is_unsplit_move_def split: option.splits)

section \<open>Undoing one change\<close>

context quiet_executor
begin

lemma restorable_total: "\<exists>b w'. restorable host p e w = (Ok b, w')"
  unfolding restorable_def regular_or_absent_def
  using side_effect_free_total by (auto simp: bind_def attempt_def ret_def split: prod.splits if_splits)

lemma restorable_true:
  assumes "restorable host p e w = (Ok True :: (bool, 'x) result, w')"
  shows "contents w (ep p) = e \<and> \<not> link p"
proof -
  obtain r w1 where md: "fs_get_metadata host p w = (r, w1)" by fastforce
  from assms md have regular: "case r of Ok md \<Rightarrow> md_is_file md \<and> \<not> md_is_symlink md | Err e \<Rightarrow> io_kind e = NotFound"
    and rest: "remove_failure_was_side_effect_free host p e w1 = (Ok True :: (bool, 'x) result, w')"
    by (auto simp: restorable_def regular_or_absent_def bind_def attempt_def ret_def split: if_splits)
  have "contents w1 = contents w" using frameD[OF silent_metadata md] .
  with side_effect_free_true[OF rest] regular md metadata_link metadata_missing show ?thesis
    by (auto split: result.splits)
qed

lemma restore_change_cases:
  assumes run: "restore_change env host errors i p e r s = (res, t)" and link: "\<not> link p"
  obtains (undone) "res = Ok errors" "changes t = take i (changes s) @ drop (Suc i) (changes s)" "exact t \<longrightarrow> exact s"
      "files s (ep p) = e" "files t = (files s)(ep p := r)"
    | (kept) x where "res = Ok (errors @ [en_chain_text env x])" "changes t = changes s" "exact t \<longrightarrow> exact s"
      "exact t \<longrightarrow> files t = files s"
proof -
  obtain r1 u where m: "conditional_mutation env host p e r s = (r1, u)" by fastforce
  have mut: "mutated p e r r1 s u" by (rule conditional_mutation_mutated[OF m])
  then have same: "changes u = changes s" "exact u \<longrightarrow> exact s"
    and others: "\<And>q. q \<noteq> ep p \<Longrightarrow> files u q = files s q" "files s (ep p) \<noteq> e \<longrightarrow> files u = files s"
    and ok: "\<And>rc. r1 = Ok rc \<Longrightarrow> files s (ep p) = e \<and> files u (ep p) = r"
    using link unfolding mutated_def by blast+
  show thesis
  proof (cases r1)
    case (Ok rc)
    with run m have t: "res = Ok errors" "pr_world t = pr_world u" "exact t = exact u" "changes t = take i (changes u) @ drop (Suc i) (changes u)"
      by (auto simp: restore_change_def bind_def attempt_def change_delta_def modify_def ret_def remove_change_def)
    show thesis by (rule undone) (use t same ok[OF Ok] others in \<open>auto simp: fun_eq_iff\<close>)
  next
    case (Err x)
    obtain r2 v where rec: "reconcile_failed_mutation env host x p e u = (r2, v)" by fastforce
    note rc = reconcile_cases[OF rec]
    have t: "res = Ok (errors @ [en_chain_text env x])" "t = v"
      using run m Err rec rc(1) by (auto simp: restore_change_def bind_def attempt_def ret_def)
    have calm: "files v = files u" "changes v = changes u" "exact v \<longrightarrow> exact u" using rc(2) by (auto simp: calm_step_def)
    have "files t = files s" if "exact t"
    proof -
      have "files u (ep p) = e" using rc(3) that t by simp
      with others have "files u = files s" by (metis ext)
      with calm t show ?thesis by simp
    qed
    then show thesis by (intro kept) (use t calm same m Err in auto)
  qed
qed

text \<open>The run before the changes from \<open>i\<close> downwards are visited; \<open>kept\<close> are the later ones that stayed.\<close>

definition rolling :: "('e \<Rightarrow> string option) \<Rightarrow> applied_patch_change list \<Rightarrow> nat \<Rightarrow> applied_patch_change list \<Rightarrow>
    'w patch_run \<Rightarrow> bool" where
  "rolling f0 cs i kept s \<longleftrightarrow> changes s = take i cs @ kept \<and> pending f0 [] s
     \<and> (exact s \<longrightarrow> (\<forall>c\<in>set cs. single_write c) \<and> distinct (map (\<lambda>w. ep (fst w)) (all_writes kept)))"

lemma rolling_calm: "rolling f0 cs i kept s \<Longrightarrow> calm_step contents s t \<Longrightarrow> rolling f0 cs i kept t"
  using pending_calm by (auto simp: rolling_def calm_step_def)

lemma rolling_keep:
  assumes "changes t = take (Suc i) cs @ kept" "\<not> exact t" "i < length cs"
  shows "rolling f0 cs i (cs ! i # kept) t"
  using assms by (simp add: rolling_def pending_inexact take_Suc_conv_app_nth)

lemma restore_rolling:
  assumes roll: "rolling f0 cs (Suc i) kept s" and i: "i < length cs" and p: "p = ch_path_uri (cs ! i)"
    and e: "expected_and_original (ch_change (cs ! i)) = Some (e, r)"
    and found: "files s (ep p) = e" "\<not> link p"
    and run: "restore_change env host errors i p e r s = (res, t)"
  shows "rolling f0 cs i kept t \<and> res = Ok errors
    \<or> rolling f0 cs i (cs ! i # kept) t \<and> (\<exists>x. res = Ok (errors @ [x]))"
proof (cases "exact t")
  case False
  from run found(2) show ?thesis
  proof (cases rule: restore_change_cases)
    case undone
    then have "changes t = take i cs @ kept" using roll i by (simp add: rolling_def)
    with undone False show ?thesis by (simp add: rolling_def pending_inexact)
  next
    case (kept x)
    have "changes t = take (Suc i) cs @ kept" using roll kept by (simp add: rolling_def)
    with rolling_keep[OF this False i] kept show ?thesis by blast
  qed
next
  case True
  from run found(2) have "exact s" by (cases rule: restore_change_cases) (use True in auto)
  let ?ws = "all_writes (take i cs)" and ?vs = "all_writes kept"
  have "single_write (cs ! i)" using roll \<open>exact s\<close> i by (simp add: rolling_def)
  then have single: "change_writes (cs ! i) = [(p, r, e)]" using e p by (simp add: single_write_def)
  then have hist: "files s = replay ep f0 (?ws @ (p, r, e) # ?vs)" "chained ep f0 (?ws @ (p, r, e) # ?vs)"
      "effective ep {} (?ws @ (p, r, e) # ?vs)" "distinct (map (\<lambda>w. ep (fst w)) ?vs)"
    using roll \<open>exact s\<close> i by (auto simp: rolling_def pending_def take_Suc_conv_app_nth)
  have last: "ep p \<notin> endpoints_of ep ?vs" by (rule last_write_at_endpoint[OF hist(2,3,4)]) (use found(1) hist(1) in simp)
  have singles: "\<forall>c\<in>set cs. single_write c" using roll \<open>exact s\<close> by (simp add: rolling_def)
  from run found(2) show ?thesis
  proof (cases rule: restore_change_cases)
    case undone
    have "files t = replay ep f0 (?ws @ ?vs)" using remove_write(1)[OF hist(2) last] undone hist(1) by simp
    moreover have "changes t = take i cs @ kept" using undone roll i by (simp add: rolling_def)
    ultimately show ?thesis
      using undone(1) True remove_write(2)[OF hist(2) last] remove_write_effective[OF hist(3)] hist(4) singles
      by (simp add: rolling_def pending_def)
  next
    case (kept x)
    have "changes t = take i cs @ (cs ! i # kept)" using kept roll i by (simp add: rolling_def take_Suc_conv_app_nth)
    moreover have "pending f0 [] t" using kept roll True by (auto simp: rolling_def pending_def)
    moreover have "distinct (map (\<lambda>w. ep (fst w)) (all_writes (cs ! i # kept)))"
      using hist(4) last single by (auto simp: endpoints_of_def)
    ultimately show ?thesis using kept singles by (auto simp: rolling_def)
  qed
qed

section \<open>Undoing all changes\<close>

lemma give_up_cases:
  assumes "bind (give_up p) (\<lambda>_. ret errors) s = (res, t)"
  shows "res = Ok errors" "changes t = changes s" "\<not> exact t"
  using assms by (auto simp: give_up_def bind_def and_exact_def on_manifest_def change_delta_def modify_def ret_def)

lemma rollback_change_cases:
  assumes roll: "rolling f0 cs (Suc i) kept s" and i: "i < length cs"
    and run: "rollback_change env host rp errors i s = (res, t)"
  shows "(exact t \<longrightarrow> exact s) \<and> (rolling f0 cs i kept t \<and> res = Ok errors
    \<or> rolling f0 cs i (cs ! i # kept) t \<and> (res = Ok errors \<and> \<not> exact t \<or> (\<exists>x. res = Ok (errors @ [x]))))"
proof -
  let ?p = "ch_path_uri (cs ! i)"
  have at: "dl_changes (pr_delta s) ! i = cs ! i" using roll i by (simp add: rolling_def nth_append)
  have give_up: ?thesis if "bind (give_up ?p) (\<lambda>_. ret errors) u = (res, t)" "changes u = changes s" for u
  proof -
    have "changes t = take (Suc i) cs @ kept" using give_up_cases(2)[OF that(1)] that(2) roll by (simp add: rolling_def)
    with give_up_cases[OF that(1)] rolling_keep[OF this _ i] show ?thesis by blast
  qed
  show ?thesis
  proof (cases "rp = Some ?p")
    case True
    with run at show ?thesis by (intro give_up[of s]) (auto simp: rollback_change_def Let_def bind_def gets_def)
  next
    case False
    show ?thesis
    proof (cases "expected_and_original (ch_change (cs ! i))")
      case None
      with run at False have t: "res = Ok errors" "t = s" by (auto simp: rollback_change_def Let_def bind_def gets_def ret_def)
      have "\<not> single_write (cs ! i)" using None by (simp add: single_write_def)
      then have "changes s = take (Suc i) cs @ kept" "\<not> exact s" using roll i by (auto simp: rolling_def)
      with t rolling_keep[OF this i] show ?thesis by blast
    next
      case (Some er)
      obtain e r where er: "er = (e, r)" by (cases er)
      obtain ok w where ok: "restorable host ?p e (pr_world s) = (Ok ok :: (bool, any_error) result, w)"
        using restorable_total by blast
      let ?u = "s\<lparr>pr_world := w\<rparr>"
      have calm: "calm_step contents s ?u"
        using frameD[OF silent_restorable ok] by (simp add: calm_step_def)
      show ?thesis
      proof (cases ok)
        case False
        with run at \<open>rp \<noteq> Some ?p\<close> Some er ok show ?thesis
          by (intro give_up[of ?u]) (auto simp: rollback_change_def Let_def bind_def gets_def on_world_def)
      next
        case True
        with run at \<open>rp \<noteq> Some ?p\<close> Some er ok have restore: "restore_change env host errors i ?p e r ?u = (res, t)"
          by (auto simp: rollback_change_def Let_def bind_def gets_def on_world_def)
        have found: "files ?u (ep ?p) = e" "\<not> link ?p"
          using restorable_true[of ?p e "pr_world s" w] ok True calm by (auto simp: calm_step_def)
        have "exact t \<longrightarrow> exact ?u"
          using restore found(2) by (cases rule: restore_change_cases) auto
        moreover have "rolling f0 cs i kept t \<and> res = Ok errors
            \<or> rolling f0 cs i (cs ! i # kept) t \<and> (\<exists>x. res = Ok (errors @ [x]))"
          by (rule restore_rolling[OF rolling_calm[OF roll calm] i HOL.refl _ found restore]) (simp add: Some er)
        ultimately show ?thesis by auto
      qed
    qed
  qed
qed

abbreviation split_run :: "'w patch_run \<Rightarrow> 'w patch_run" where
  "split_run s \<equiv> s\<lparr>pr_delta := split_moves (pr_delta s)\<rparr>"

lemma split_pending:
  assumes "pending f0 [] s"
  shows "changes (split_run s) = changes (split_run s) \<and> pending f0 [] (split_run s)
    \<and> (exact (split_run s) \<longrightarrow> (\<forall>c\<in>set (changes (split_run s)). single_write c))"
proof (intro conjI impI ballI)
  show "pending f0 [] (split_run s)" using assms by (auto simp: pending_def split_moves_def all_writes_split_moves)
  fix c assume "exact (split_run s)" "c \<in> set (changes (split_run s))"
  then show "single_write c" by (auto simp: split_moves_def list_ex_iff intro: split_move_single)
qed simp

lemma rollback_from_split:
  "rollback_committed_changes env host rp s =
     loop (rollback_change env host rp) [] (rev [0..<length (changes (split_run s))]) (split_run s)"
  by (simp add: rollback_committed_changes_def bind_def change_delta_def modify_def gets_def)

lemma rollback_triple:
  "triple (pending f0 []) (rollback_committed_changes env host rp)
     (\<lambda>errors s. pending f0 [] s \<and> (exact s \<longrightarrow> errors = [] \<longrightarrow> changes s = [])) (\<lambda>_ _. False)"
proof -
  let ?I = "\<lambda>cs k (errors :: string list) s. \<exists>kept. rolling f0 cs (length cs - k) kept s \<and> (exact s \<longrightarrow> errors = [] \<longrightarrow> kept = [])"
  have step: "triple (?I cs k errors) (rollback_change env host rp errors (rev [0..<length cs] ! k)) (?I cs (Suc k)) (\<lambda>_ _. False)"
    if k: "k < length (rev [0..<length cs])" for cs k errors
  proof -
    let ?i = "length cs - Suc k"
    have i: "rev [0..<length cs] ! k = ?i" "length cs - k = Suc ?i" "?i < length cs"
      using k by (auto simp: rev_nth Suc_diff_Suc)
    show ?thesis
      unfolding i
    proof (rule tripleI)
      fix s errors' t assume "\<exists>kept. rolling f0 cs (Suc ?i) kept s \<and> (exact s \<longrightarrow> errors = [] \<longrightarrow> kept = [])"
        and run: "rollback_change env host rp errors ?i s = (Ok errors', t)"
      then obtain kept where kept: "rolling f0 cs (Suc ?i) kept s" "exact s \<longrightarrow> errors = [] \<longrightarrow> kept = []" by blast
      from rollback_change_cases[OF kept(1) i(3) run] kept(2)
      show "\<exists>kept. rolling f0 cs ?i kept t \<and> (exact t \<longrightarrow> errors' = [] \<longrightarrow> kept = [])" by blast
    next
      fix s x t assume "\<exists>kept. rolling f0 cs (Suc ?i) kept s \<and> (exact s \<longrightarrow> errors = [] \<longrightarrow> kept = [])"
        and run: "rollback_change env host rp errors ?i s = (Err x, t)"
      then show False using rollback_change_cases[OF _ i(3) run] by blast
    qed
  qed
  have loop: "triple (\<lambda>s. changes s = cs \<and> pending f0 [] s \<and> (exact s \<longrightarrow> (\<forall>c\<in>set cs. single_write c)))
      (loop (rollback_change env host rp) [] (rev [0..<length cs]))
      (\<lambda>errors s. pending f0 [] s \<and> (exact s \<longrightarrow> errors = [] \<longrightarrow> changes s = [])) (\<lambda>_ _. False)" for cs
    by (rule triple_conseq[OF triple_loop[where I = "?I cs" and xs = "rev [0..<length cs]", OF step]]) (auto simp: rolling_def)
  show ?thesis
  proof (rule tripleI)
    fix s v t assume s: "pending f0 [] s" and run: "rollback_committed_changes env host rp s = (Ok v, t)"
    show "pending f0 [] t \<and> (exact t \<longrightarrow> v = [] \<longrightarrow> changes t = [])"
      by (rule tripleD_Ok[OF loop split_pending[OF s]]) (use run in \<open>simp add: rollback_from_split\<close>)
  next
    fix s v t assume s: "pending f0 [] s" and run: "rollback_committed_changes env host rp s = (Err v, t)"
    show False
      by (rule tripleD_Err[OF loop split_pending[OF s]]) (use run in \<open>simp add: rollback_from_split\<close>)
  qed
qed

end

end
