(* ===== verification/Native_Fs.thy ===== *)
theory Native_Fs
  imports Apply_Contract
begin

text \<open>
  The conditional mutation of one file (\<^verbatim>\<open>file-system/src/conditional_mutation.rs\<close>) over the calls it makes to
  the operating system.

  \<^item> The world has the ordinary files, the objects under reserved names (\<^verbatim>\<open>.codex-patch-recovery-*\<close> and
    \<^verbatim>\<open>.codex-patch-preimage-*\<close>, which no patch names), the directories, and the events that the next calls meet:
    a call succeeds, or fails with an error, or transfers fewer bytes than it was asked to. After the
    last event all calls succeed. Absence is decided by the files and directories, so an event never
    fails a call with \<^term>\<open>NotFound\<close>.
  \<^item> Locks, handles and sharing modes keep other processes away; here nobody else changes the files.
    A staged temporary file is gone on every path that does not publish it, so it is not part of the world.
  \<^item> The rest of what a run of a patch meets is there too: the answers to the next polls of the cancellation
    token, the leases that other processes hold, and the text that was printed.
  \<^item> Raw error codes that the routine asks for are predicates: \<open>nw_invalid_owner\<close> and \<open>nw_transient\<close>.
\<close>

section \<open>The world\<close>

datatype os_event = Fine | Fails io_error | Transfers nat

record native_world =
  nw_files :: "uri \<rightharpoonup> string"
  nw_hidden :: "uri \<rightharpoonup> string"
  nw_directories :: "uri list"
  nw_readonly :: "uri list"
  nw_linked :: "uri list"
  nw_events :: "os_event list"
  nw_next_name :: nat
  nw_invalid_owner :: "io_error \<Rightarrow> bool"
  nw_transient :: "io_error \<Rightarrow> bool"
  nw_cancelled :: "bool list"
  nw_held_leases :: "(string \<times> bool) list"
  nw_output :: string

type_synonym 'a native = "(native_world, 'a, io_error) computation"

definition io_failure :: "io_kind \<Rightarrow> string \<Rightarrow> io_error" where
  "io_failure kind text = \<lparr>io_kind = kind, io_text = text\<rparr>"

definition os :: "unit native" where
  "os w =
     (case nw_events w of
        Fails e # rest \<Rightarrow> ((if io_kind e = NotFound then Ok () else Err e), w\<lparr>nw_events := rest\<rparr>)
      | _ \<Rightarrow> (Ok (), w\<lparr>nw_events := tl (nw_events w)\<rparr>))"

fun os_calls :: "nat \<Rightarrow> unit native" where
  "os_calls 0 = ret ()"
| "os_calls (Suc n) = bind os (\<lambda>_. os_calls n)"

section \<open>Paths with slashes\<close>

text \<open>The parent of a path is what precedes its last slash; the root has none.\<close>

definition split_name :: "uri \<Rightarrow> (uri \<times> string) option" where
  "split_name p =
     (if CHR ''/'' \<in> set p
      then Some (rev (tl (dropWhile (\<lambda>c. c \<noteq> CHR ''/'') (rev p))), rev (takeWhile (\<lambda>c. c \<noteq> CHR ''/'') (rev p)))
      else None)"

lemma split_name_join:
  assumes "split_name p = Some (d, n)"
  shows "p = d @ ''/'' @ n" and "length d < length p"
proof -
  have slash: "CHR ''/'' \<in> set (rev p)" and d: "d = rev (tl (dropWhile (\<lambda>c. c \<noteq> CHR ''/'') (rev p)))"
    and n: "n = rev (takeWhile (\<lambda>c. c \<noteq> CHR ''/'') (rev p))"
    using assms by (auto simp: split_name_def split: if_splits)
  from split_list_first[OF slash] obtain xs ys where xs: "rev p = xs @ CHR ''/'' # ys" "CHR ''/'' \<notin> set xs" by blast
  then have "\<forall>c\<in>set xs. c \<noteq> CHR ''/''" by auto
  then have "takeWhile (\<lambda>c. c \<noteq> CHR ''/'') (rev p) = xs" "dropWhile (\<lambda>c. c \<noteq> CHR ''/'') (rev p) = CHR ''/'' # ys"
    by (simp_all add: xs takeWhile_append dropWhile_append)
  moreover have "p = rev ys @ CHR ''/'' # rev xs" using arg_cong[OF xs(1), of rev] by simp
  ultimately show "p = d @ ''/'' @ n" "length d < length p" using d n by auto
qed

function parents_of :: "uri \<Rightarrow> uri list" where
  "parents_of p = (case split_name p of None \<Rightarrow> [] | Some (d, n) \<Rightarrow> d # parents_of d)"
  by pat_completeness auto
termination by (relation "measure length") (auto dest: split_name_join(2))

declare parents_of.simps [simp del]

section \<open>Reading and writing in pieces\<close>

text \<open>\<^verbatim>\<open>preimage_matches\<close> reads at most 64 KiB at a time and keeps reading after a difference.\<close>

function compare_chunks :: "os_event list \<Rightarrow> string \<Rightarrow> string \<Rightarrow> nat \<Rightarrow> bool \<Rightarrow> (bool, io_error) result \<times> os_event list" where
  "compare_chunks events expected rest offset matches =
     (if rest = [] then (Ok (matches \<and> offset = length expected), events)
      else
        (case events of
           Fails e # later \<Rightarrow>
             if io_kind e = Interrupted then compare_chunks later expected rest offset matches else (Err e, later)
         | _ \<Rightarrow>
             (let available = min 65536 (length rest);
                  size = (case events of Transfers n # _ \<Rightarrow> max 1 (min n available) | _ \<Rightarrow> available)
              in compare_chunks (tl events) expected (drop size rest) (offset + size)
                   (matches \<and> starts_with (take size rest) (drop offset expected)))))"
  by pat_completeness auto
termination by (relation "measure (\<lambda>(events, expected, rest, offset, matches). length events + length rest)")
  (auto simp: neq_Nil_conv split: os_event.splits list.splits)

definition preimage_matches :: "uri \<Rightarrow> string \<Rightarrow> string \<Rightarrow> bool native" where
  "preimage_matches path bytes expected =
     bind os (\<lambda>_.
       bind (gets nw_readonly) (\<lambda>readonly.
         bind (ensure (path \<notin> set readonly) (io_failure PermissionDenied ''destination is read-only'')) (\<lambda>_.
           if length bytes \<noteq> length expected then ret False
           else (\<lambda>w. case compare_chunks (nw_events w) expected (take (length expected + 1) bytes) 0 True of
                       (r, events) \<Rightarrow> (r, w\<lparr>nw_events := events\<rparr>)))))"

definition splice :: "string \<Rightarrow> nat \<Rightarrow> string \<Rightarrow> string" where
  "splice object offset bytes = take offset object @ bytes @ drop (offset + length bytes) object"

function write_from :: "os_event list \<Rightarrow> string \<Rightarrow> string \<Rightarrow> nat \<Rightarrow> (unit, io_error) result \<times> os_event list \<times> string" where
  "write_from events bytes object written =
     (if length bytes \<le> written then (Ok (), events, object)
      else
        (case events of
           Fails e # later \<Rightarrow>
             if io_kind e = Interrupted then write_from later bytes object written else (Err e, later, object)
         | _ \<Rightarrow>
             (let remaining = length bytes - written;
                  count = (case events of Transfers n # _ \<Rightarrow> min n remaining | _ \<Rightarrow> remaining)
              in if count = 0 then (Err (io_failure WriteZero ''write zero''), tl events, object)
                 else write_from (tl events) bytes (splice object written (take count (drop written bytes))) (written + count))))"
  by pat_completeness auto
termination by (relation "measure (\<lambda>(events, bytes, object, written). length events + (length bytes - written))")
  (auto simp: neq_Nil_conv split: os_event.splits list.splits)

declare compare_chunks.simps [simp del] write_from.simps [simp del]

text \<open>\<^verbatim>\<open>overwrite\<close> of a captured object, which lies under a reserved name.\<close>

definition set_object :: "uri \<Rightarrow> string option \<Rightarrow> native_world \<Rightarrow> native_world" where
  "set_object name content w = w\<lparr>nw_hidden := (nw_hidden w)(name := content)\<rparr>"

definition object_at :: "uri \<Rightarrow> native_world \<Rightarrow> string" where
  "object_at name w = (case nw_hidden w name of Some bytes \<Rightarrow> bytes | None \<Rightarrow> [])"

definition overwrite :: "uri \<Rightarrow> string \<Rightarrow> unit native" where
  "overwrite name bytes =
     bind os (\<lambda>_.
       bind (gets (object_at name)) (\<lambda>object.
         bind (if length object < length bytes then
                 bind os (\<lambda>_. modify (set_object name (Some (object @ replicate (length bytes - length object) (CHR 0x00)))))
               else ret ()) (\<lambda>_.
           bind (\<lambda>w. case write_from (nw_events w) bytes (object_at name w) 0 of
                       (r, events, object) \<Rightarrow> (r, set_object name (Some object) (w\<lparr>nw_events := events\<rparr>))) (\<lambda>_.
             bind os (\<lambda>_.
               bind (gets (object_at name)) (\<lambda>object.
                 modify (set_object name (Some (take (length bytes) object)))))))))"

section \<open>Mutation\<close>

definition fresh_name :: "uri \<Rightarrow> string \<Rightarrow> uri native" where
  "fresh_name parent stem =
     bind (gets nw_next_name) (\<lambda>n.
       bind (modify (\<lambda>w. w\<lparr>nw_next_name := Suc n\<rparr>)) (\<lambda>_.
         ret (parent @ ''/'' @ stem @ show_nat n)))"

definition recovery_name :: "uri \<Rightarrow> uri native" where
  "recovery_name parent = bind (os_calls 2) (\<lambda>_. fresh_name parent ''.codex-patch-recovery-'')"

text \<open>Renames of the open object: to a reserved name, and back to a path that must be free.\<close>

definition capture_object :: "uri \<Rightarrow> string \<Rightarrow> uri \<Rightarrow> unit native" where
  "capture_object path bytes retained =
     bind os (\<lambda>_. modify (\<lambda>w. set_object retained (Some bytes) (w\<lparr>nw_files := (nw_files w)(path := None)\<rparr>)))"

definition publish_file :: "uri \<Rightarrow> string \<Rightarrow> unit native" where
  "publish_file path bytes =
     bind os (\<lambda>_.
       bind (gets (\<lambda>w. nw_files w path)) (\<lambda>present.
         bind (ensure (present = None) (io_failure AlreadyExists ''file exists'')) (\<lambda>_.
           modify (\<lambda>w. w\<lparr>nw_files := (nw_files w)(path \<mapsto> bytes)\<rparr>))))"

definition publish_object :: "uri \<Rightarrow> uri \<Rightarrow> unit native" where
  "publish_object retained path =
     bind (gets (object_at retained)) (\<lambda>bytes.
       bind (publish_file path bytes) (\<lambda>_. modify (set_object retained None)))"

fun retry_transient_denial :: "nat list \<Rightarrow> unit native \<Rightarrow> unit native" where
  "retry_transient_denial [] operation = operation"
| "retry_transient_denial (delay_ms # delays) operation =
     bind (attempt operation) (\<lambda>r.
       bind (gets nw_transient) (\<lambda>transient.
         case r of
           Err e \<Rightarrow> if transient e then retry_transient_denial delays operation else throw e
         | Ok _ \<Rightarrow> ret ()))"

definition restore_captured_original :: "uri \<Rightarrow> uri \<Rightarrow> uri \<Rightarrow> string \<Rightarrow> io_error \<Rightarrow> file_mutation_outcome native" where
  "restore_captured_original path parent retained expected failure =
     bind (attempt (overwrite retained expected)) (\<lambda>r.
       case r of
         Err restore \<Rightarrow>
           bind (fresh_name parent ''.codex-patch-preimage-'') (\<lambda>copy.
             bind (modify (set_object copy (Some expected))) (\<lambda>_.
               ret (RecoveryRequired retained (io_text failure @ ''; restoring the original bytes failed ('' @
                 io_text restore @ ''); the retained file may hold replacement bytes; the complete original bytes are at '' @ copy))))
       | Ok _ \<Rightarrow>
           bind (attempt (publish_object retained path)) (\<lambda>r.
             case r of
               Ok _ \<Rightarrow> throw failure
             | Err publish \<Rightarrow> ret (RecoveryRequired retained (io_text failure @
                 ''; republishing the restored original failed: '' @ io_text publish))))"

definition rewrite_captured_original :: "uri \<Rightarrow> uri \<Rightarrow> string \<Rightarrow> string \<Rightarrow> io_error \<Rightarrow> file_mutation_outcome native" where
  "rewrite_captured_original path parent expected replacement denied =
     bind os (\<lambda>_.
       bind (gets (\<lambda>w. nw_files w path)) (\<lambda>opened.
         case opened of
           None \<Rightarrow> ret Conflict
         | Some bytes \<Rightarrow>
             bind (preimage_matches path bytes expected) (\<lambda>same.
               if \<not> same then ret Conflict
               else
                 bind os (\<lambda>_.
                   bind (gets nw_linked) (\<lambda>linked.
                     bind (ensure (path \<notin> set linked) denied) (\<lambda>_.
                       bind (os_calls 2) (\<lambda>_.
                         bind (recovery_name parent) (\<lambda>retained.
                           bind (capture_object path bytes retained) (\<lambda>_.
                             bind (attempt (bind (overwrite retained replacement) (\<lambda>_. publish_object retained path))) (\<lambda>r.
                               case r of
                                 Ok _ \<Rightarrow> ret Committed
                               | Err failure \<Rightarrow> restore_captured_original path parent retained expected failure))))))))))"

definition security_install_denied :: "io_error \<Rightarrow> (io_error \<Rightarrow> bool) \<Rightarrow> bool" where
  "security_install_denied e invalid_owner \<longleftrightarrow> io_kind e = PermissionDenied \<or> invalid_owner e"

definition retry_delays :: "nat list" where
  "retry_delays = [10, 40, 100, 250]"

text \<open>The end of a replacement, once the staged file has the new bytes.\<close>

definition publish_staged :: "uri \<Rightarrow> uri \<Rightarrow> string option \<Rightarrow> string \<Rightarrow> file_mutation_outcome native" where
  "publish_staged path parent old replacement =
     bind (case old of
             None \<Rightarrow> ret None
           | Some bytes \<Rightarrow>
               bind (recovery_name parent) (\<lambda>retained. bind (capture_object path bytes retained) (\<lambda>_. ret (Some retained)))) (\<lambda>retained.
       bind (attempt (retry_transient_denial retry_delays (publish_file path replacement))) (\<lambda>published.
         case (published, retained) of
           (Err e, Some retained_path) \<Rightarrow> ret (RecoveryRequired retained_path (io_text e))
         | (Err e, None) \<Rightarrow> throw e
         | (Ok _, None) \<Rightarrow> ret Committed
         | (Ok _, Some retained_path) \<Rightarrow>
             bind (attempt (retry_transient_denial retry_delays (bind os (\<lambda>_. modify (set_object retained_path None))))) (\<lambda>r.
               case r of
                 Err e \<Rightarrow> ret (RecoveryRequired retained_path (io_text e))
               | Ok _ \<Rightarrow> ret Committed)))"

definition stage_replacement :: "uri \<Rightarrow> uri \<Rightarrow> string option \<Rightarrow> string \<Rightarrow> file_mutation_outcome native" where
  "stage_replacement path parent old replacement =
     bind os (\<lambda>_.
       bind (case old of None \<Rightarrow> ret (Ok ()) | Some expected \<Rightarrow> attempt os) (\<lambda>security.
         bind (gets nw_invalid_owner) (\<lambda>invalid_owner.
           case (security, old) of
             (Err denied, Some expected) \<Rightarrow>
               if \<not> security_install_denied denied invalid_owner then throw denied
               else rewrite_captured_original path parent expected replacement denied
           | _ \<Rightarrow>
               bind (os_calls 2) (\<lambda>_.
                 bind (case old of None \<Rightarrow> ret () | Some _ \<Rightarrow> os_calls 2) (\<lambda>_.
                   bind (os_calls 2) (\<lambda>_. publish_staged path parent old replacement))))))"

definition mutate_file_if_matches :: "uri \<Rightarrow> string option \<Rightarrow> string option \<Rightarrow> file_mutation_outcome native" where
  "mutate_file_if_matches path expected replacement =
     (case parents_of path of
        [] \<Rightarrow> throw (io_failure InvalidInput ''missing parent'')
      | parent # _ \<Rightarrow>
          bind (gets nw_directories) (\<lambda>directories.
            bind (ensure (parent \<in> set directories) (io_failure NotFound ''not found'')) (\<lambda>_.
              bind (os_calls 3) (\<lambda>_.
                bind os (\<lambda>_.
                  bind (ensure (path \<notin> set directories) (io_failure PermissionDenied ''access denied'')) (\<lambda>_.
                    bind (gets (\<lambda>w. nw_files w path)) (\<lambda>old.
                      case (old, expected) of
                        (Some bytes, None) \<Rightarrow> ret Conflict
                      | (None, Some _) \<Rightarrow> ret Conflict
                      | _ \<Rightarrow>
                          bind (case (old, expected) of
                                  (Some bytes, Some expected) \<Rightarrow> preimage_matches path bytes expected
                                | _ \<Rightarrow> ret True) (\<lambda>same.
                            if \<not> same then ret Conflict
                            else if expected = replacement then ret Unchanged
                            else
                              case replacement of
                                None \<Rightarrow>
                                  bind os (\<lambda>_.
                                    bind (modify (\<lambda>w. w\<lparr>nw_files := (nw_files w)(path := None)\<rparr>)) (\<lambda>_. ret Committed))
                              | Some bytes \<Rightarrow> stage_replacement path parent expected bytes))))))))"

end
