(* ===== verification/Native_Results.thy ===== *)
theory Native_Results
  imports Native_Fs
begin

text \<open>
  The conditional mutation keeps its promise whatever the operating system answers: an outcome other than
  a request for recovery changed the file as it says, an error changed nothing, and a request for recovery leaves
  the original bytes under a reserved name.
\<close>

section \<open>Comparing and overwriting in pieces\<close>

lemma starts_with_parts:
  assumes "k \<le> length xs"
  shows "starts_with xs s \<longleftrightarrow> starts_with (take k xs) s \<and> starts_with (drop k xs) (drop k s)"
proof -
  have "starts_with (a @ b) s \<longleftrightarrow> starts_with a s \<and> starts_with b (drop (length a) s)" for a b
    by (induction a arbitrary: s) (auto simp: starts_with_iff)
  from this[of "take k xs" "drop k xs"] assms show ?thesis by simp
qed

lemma compare_chunks_Ok:
  "compare_chunks events expected rest offset matches = (Ok b, later) \<Longrightarrow>
     b \<longleftrightarrow> matches \<and> offset + length rest = length expected \<and> starts_with rest (drop offset expected)"
proof (induction "length events + length rest" arbitrary: events rest offset matches rule: less_induct)
  case less
  show ?case
  proof (cases "rest = []")
    case True
    with less.prems show ?thesis by (subst (asm) compare_chunks.simps) auto
  next
    case False
    show ?thesis
    proof (cases "\<exists>e more. events = Fails e # more")
      case True
      then obtain e more where events: "events = Fails e # more" by blast
      with less.prems False have "compare_chunks more expected rest offset matches = (Ok b, later)"
        by (subst (asm) compare_chunks.simps) (auto split: if_splits)
      from less.hyps[OF _ this] show ?thesis by (simp add: events)
    next
      case fine: False
      define size where "size = (case events of Transfers n # _ \<Rightarrow> max 1 (min n (min 65536 (length rest)))
        | _ \<Rightarrow> min 65536 (length rest))"
      have run: "compare_chunks (tl events) expected (drop size rest) (offset + size)
          (matches \<and> starts_with (take size rest) (drop offset expected)) = (Ok b, later)"
        using less.prems False fine unfolding size_def
        by (subst (asm) compare_chunks.simps) (auto simp: Let_def split: list.splits os_event.splits)
      have size: "0 < size" "size \<le> length rest"
        using False by (auto simp: size_def Suc_le_eq split: list.splits os_event.splits)
      then have "length (tl events) + length (drop size rest) < length events + length rest" by auto
      from less.hyps[OF this run] starts_with_parts[OF size(2), of "drop offset expected"] size
      show ?thesis by (auto simp: add.commute)
    qed
  qed
qed

lemma write_from_Ok:
  "write_from events bytes object written = (Ok (), later, object') \<Longrightarrow> length bytes \<le> length object \<Longrightarrow>
     take written object = take written bytes \<Longrightarrow> take (length bytes) object' = bytes"
proof (induction "length events + (length bytes - written)" arbitrary: events object written rule: less_induct)
  case less
  show ?case
  proof (cases "length bytes \<le> written")
    case True
    with less.prems(1) have "object' = object" by (subst (asm) write_from.simps) auto
    moreover have "take (length bytes) (take written object) = take (length bytes) (take written bytes)"
      by (simp only: less.prems(3))
    ultimately show ?thesis using True by (simp add: min_def)
  next
    case False
    show ?thesis
    proof (cases "\<exists>e more. events = Fails e # more")
      case True
      then obtain e more where events: "events = Fails e # more" by blast
      with less.prems(1) False have "write_from more bytes object written = (Ok (), later, object')"
        by (subst (asm) write_from.simps) (auto split: if_splits)
      from less.hyps[OF _ this less.prems(2,3)] show ?thesis by (simp add: events)
    next
      case fine: False
      define count where "count = (case events of Transfers n # _ \<Rightarrow> min n (length bytes - written) | _ \<Rightarrow> length bytes - written)"
      let ?object = "splice object written (take count (drop written bytes))"
      have run: "write_from (tl events) bytes ?object (written + count) = (Ok (), later, object')" and "count \<noteq> 0"
        using less.prems(1) False fine unfolding count_def
        by (subst (asm) write_from.simps; auto simp: Let_def split: list.splits os_event.splits if_splits)+
      have count: "count \<le> length bytes - written" by (auto simp: count_def split: list.splits os_event.splits)
      have "length (tl events) + (length bytes - (written + count)) < length events + (length bytes - written)"
        using \<open>count \<noteq> 0\<close> count by auto
      moreover have "length bytes \<le> length ?object" using less.prems(2) count False by (simp add: splice_def)
      moreover have "take (written + count) ?object = take (written + count) bytes"
        using less.prems(2,3) count False by (simp add: splice_def take_add)
      ultimately show ?thesis using less.hyps run by blast
    qed
  qed
qed

section \<open>What each call keeps\<close>

definition disk :: "native_world \<Rightarrow> (uri \<rightharpoonup> string) \<times> (uri \<rightharpoonup> string)" where
  "disk w = (nw_files w, nw_hidden w)"

lemma silent_os: "silent disk os"
  by (auto simp: frame_def disk_def os_def split: list.splits os_event.splits)

lemma silent_os_calls: "silent disk (os_calls n)"
  by (induction n) (auto intro: quiet.ret quiet.bind silent_os)

lemma silent_fresh_name: "silent disk (fresh_name parent stem)"
  by (auto simp: frame_def disk_def fresh_name_def bind_def gets_def modify_def ret_def)

lemma silent_recovery_name: "silent disk (recovery_name parent)"
  unfolding recovery_name_def by (intro quiet.bind silent_os_calls silent_fresh_name)

lemma silent_preimage_matches: "silent disk (preimage_matches path bytes expected)"
  unfolding preimage_matches_def
  by (intro quiet.rules silent_os) (auto simp: frame_def disk_def split: prod.splits)

lemmas silent_calls = silent_os silent_os_calls silent_fresh_name silent_recovery_name silent_preimage_matches

lemma preimage_matches_Ok:
  assumes "preimage_matches path bytes expected w = (Ok same, w')"
  shows "same \<longleftrightarrow> bytes = expected"
proof (cases "length bytes = length expected")
  case True
  with assms obtain now events where "compare_chunks now expected bytes 0 True = (Ok same, events)"
    by (auto simp: preimage_matches_def bind_def gets_def ensure_def ret_def throw_def split: prod.splits result.splits if_splits)
  from compare_chunks_Ok[OF this] True show ?thesis by (auto simp: starts_with_iff)
next
  case False
  with assms show ?thesis
    by (auto simp: preimage_matches_def bind_def gets_def ensure_def ret_def throw_def split: prod.splits result.splits if_splits)
qed

text \<open>The disk has the files \<open>f\<close>, and the reserved names satisfy \<open>H\<close>.\<close>

definition has :: "(uri \<rightharpoonup> string) \<Rightarrow> ((uri \<rightharpoonup> string) \<Rightarrow> bool) \<Rightarrow> native_world \<Rightarrow> bool" where
  "has f H w \<longleftrightarrow> nw_files w = f \<and> H (nw_hidden w)"

lemma seq_silent:
  assumes "silent disk m" "\<And>a. triple (has f H) (n a) Q E" "\<And>e w. has f H w \<Longrightarrow> E e w"
  shows "triple (has f H) (bind m n) Q E"
proof (rule triple_bind)
  have "triple (has f H) m (\<lambda>_. has f H) (\<lambda>_. has f H)"
    by (rule triple_frame[OF assms(1)]) (auto simp: has_def disk_def)
  then show "triple (has f H) m (\<lambda>_. has f H) E" by (rule triple_conseq) (auto intro: assms(3))
qed (rule assms(2))

lemma seq_gets: "(\<And>w. has f H w \<Longrightarrow> triple (has f H) (n (g w)) Q E) \<Longrightarrow> triple (has f H) (bind (gets g) n) Q E"
  by (fastforce simp: triple_def bind_def gets_def)

lemma seq_check: "(c \<Longrightarrow> triple P (n ()) Q E) \<Longrightarrow> (\<And>w. P w \<Longrightarrow> E e w) \<Longrightarrow> triple P (bind (ensure c e) n) Q E"
  by (auto simp: triple_def bind_def ensure_def ret_def throw_def)

lemma seq_matches:
  assumes "\<And>same. same \<longleftrightarrow> bytes = expected \<Longrightarrow> triple (has f H) (n same) Q E" "\<And>e w. has f H w \<Longrightarrow> E e w"
  shows "triple (has f H) (bind (preimage_matches path bytes expected) n) Q E"
proof (rule triple_bind[where Q = "\<lambda>same w. has f H w \<and> (same \<longleftrightarrow> bytes = expected)"])
  show "triple (has f H) (preimage_matches path bytes expected) (\<lambda>same w. has f H w \<and> (same \<longleftrightarrow> bytes = expected)) E"
  proof (rule tripleI)
    fix w same w' assume w: "has f H w" and run: "preimage_matches path bytes expected w = (Ok same, w')"
    show "has f H w' \<and> (same \<longleftrightarrow> bytes = expected)"
      using w frameD[OF silent_preimage_matches run] preimage_matches_Ok[OF run] by (simp add: has_def disk_def)
  next
    fix w e w' assume w: "has f H w" and run: "preimage_matches path bytes expected w = (Err e, w')"
    show "E e w'" using w frameD[OF silent_preimage_matches run] by (intro assms(2)) (simp add: has_def disk_def)
  qed
qed (use assms(1) in \<open>auto simp: triple_def\<close>)

abbreviation anything :: "(uri \<rightharpoonup> string) \<Rightarrow> bool" where
  "anything \<equiv> \<lambda>_. True"

lemma has_weaken: "has f H w \<Longrightarrow> (\<And>h. H h \<Longrightarrow> K h) \<Longrightarrow> has f K w"
  by (simp add: has_def)

lemma has_modify: "(\<And>w. has f H w \<Longrightarrow> Q () (g w)) \<Longrightarrow> triple (has f H) (modify g) Q E"
  by (rule triple_modify)

lemma seq_attempt:
  assumes "triple P m A B" "\<And>a. triple (A a) (n (Ok a)) Q E" "\<And>e. triple (B e) (n (Err e)) Q E"
  shows "triple P (bind (attempt m) n) Q E"
proof (rule triple_bind[where Q = "\<lambda>r. case r of Ok a \<Rightarrow> A a | Err e \<Rightarrow> B e"])
  show "triple P (attempt m) (\<lambda>r. case r of Ok a \<Rightarrow> A a | Err e \<Rightarrow> B e) E"
    by (rule triple_attempt) (simp add: assms(1))
  show "triple (case r of Ok a \<Rightarrow> A a | Err e \<Rightarrow> B e) (n r) Q E" for r using assms(2,3) by (cases r) simp_all
qed

text \<open>An object that was overwritten has exactly the new bytes.\<close>

lemma overwrite_triple:
  "triple (has f anything) (overwrite name bytes) (\<lambda>_. has f (\<lambda>h. h name = Some bytes)) (\<lambda>_. has f anything)"
proof -
  let ?object = "\<lambda>h :: uri \<rightharpoonup> string. case h name of Some b \<Rightarrow> b | None \<Rightarrow> []"
  let ?Q = "\<lambda>_ :: unit. has f (\<lambda>h. h name = Some bytes)" and ?E = "\<lambda>_ :: io_error. has f anything"
  have object_at: "object_at name w = ?object (nw_hidden w)" for w by (simp add: object_at_def)
  let ?filling = "\<lambda>w. case write_from (nw_events w) bytes (object_at name w) 0 of
      (r, events, object) \<Rightarrow> (r, set_object name (Some object) (w\<lparr>nw_events := events\<rparr>))"
  have last: "triple (has f (\<lambda>h. take (length bytes) (?object h) = bytes)) (bind os (\<lambda>_. bind (gets (object_at name)) (\<lambda>object.
      modify (set_object name (Some (take (length bytes) object)))))) ?Q ?E"
    by (intro seq_silent[OF silent_os] seq_gets has_modify) (auto simp: has_def set_object_def object_at_def)
  have writes: "triple (has f (\<lambda>h. length bytes \<le> length (?object h))) ?filling
      (\<lambda>_. has f (\<lambda>h. take (length bytes) (?object h) = bytes)) ?E"
    by (rule tripleI) (auto simp: has_def set_object_def object_at dest: write_from_Ok split: prod.splits)
  have grow: "triple (has f (\<lambda>h. ?object h = object)) (if length object < length bytes then
        bind os (\<lambda>_. modify (set_object name (Some (object @ replicate (length bytes - length object) (CHR 0x00)))))
      else ret ()) (\<lambda>_. has f (\<lambda>h. length bytes \<le> length (?object h))) ?E" for object
    by (auto intro!: seq_silent[OF silent_os] has_modify triple_ret simp: has_def set_object_def)
  have "triple (has f anything) (bind (gets (object_at name)) (\<lambda>object.
      bind (if length object < length bytes then
        bind os (\<lambda>_. modify (set_object name (Some (object @ replicate (length bytes - length object) (CHR 0x00)))))
      else ret ()) (\<lambda>_. bind ?filling (\<lambda>_. bind os (\<lambda>_. bind (gets (object_at name)) (\<lambda>object.
        modify (set_object name (Some (take (length bytes) object))))))))) ?Q ?E"
  proof (rule triple_bind[where Q = "\<lambda>object. has f (\<lambda>h. ?object h = object)"])
    show "triple (has f anything) (gets (object_at name)) (\<lambda>object. has f (\<lambda>h. ?object h = object)) ?E"
      by (rule triple_gets) (simp add: has_def object_at)
  qed (rule triple_bind[OF grow triple_bind[OF writes last]])
  then show ?thesis unfolding overwrite_def by (intro seq_silent[OF silent_os]) auto
qed

lemma capture_triple:
  "triple (has f H) (capture_object path bytes retained) (\<lambda>_. has (f(path := None)) (\<lambda>h. h retained = Some bytes)) (\<lambda>_. has f anything)"
  unfolding capture_object_def
  by (intro seq_silent[OF silent_os] has_modify) (auto simp: has_def set_object_def)

lemma publish_triple:
  "triple (has f H) (publish_file path bytes) (\<lambda>_. has (f(path \<mapsto> bytes)) H) (\<lambda>_. has f H)"
  unfolding publish_file_def
  by (intro seq_silent[OF silent_os] seq_gets seq_check has_modify) (auto simp: has_def)

lemma publish_object_triple:
  "triple (has f (\<lambda>h. h retained = Some bytes)) (publish_object retained path) (\<lambda>_. has (f(path \<mapsto> bytes)) anything)
     (\<lambda>_. has f (\<lambda>h. h retained = Some bytes))"
  unfolding publish_object_def
proof (rule seq_gets)
  fix w assume "has f (\<lambda>h. h retained = Some bytes) w"
  then have "object_at retained w = bytes" by (simp add: has_def object_at_def)
  then show "triple (has f (\<lambda>h. h retained = Some bytes)) (bind (publish_file path (object_at retained w)) (\<lambda>_. modify (set_object retained None)))
      (\<lambda>_. has (f(path \<mapsto> bytes)) anything) (\<lambda>_. has f (\<lambda>h. h retained = Some bytes))"
    by (auto intro!: triple_bind[OF publish_triple] has_modify simp: has_def set_object_def)
qed

lemma retry_triple:
  assumes "triple P operation Q (\<lambda>_. P)"
  shows "triple P (retry_transient_denial delays operation) Q (\<lambda>_. P)"
proof (induction delays)
  case (Cons d ds)
  have "triple (case r of Ok a \<Rightarrow> Q a | Err e \<Rightarrow> P) (bind (gets nw_transient) (\<lambda>transient.
      case r of Err e \<Rightarrow> if transient e then retry_transient_denial ds operation else throw e | Ok _ \<Rightarrow> ret ())) Q (\<lambda>_. P)" for r
    using Cons.IH by (cases r) (auto simp: triple_def bind_def gets_def ret_def throw_def)
  then show ?case
    unfolding retry_transient_denial.simps
    by (rule triple_bind[rotated]) (rule triple_attempt, simp add: assms)
qed (simp add: assms)

section \<open>The promise of a mutation\<close>

definition promised :: "(uri \<rightharpoonup> string) \<Rightarrow> uri \<Rightarrow> string option \<Rightarrow> string option \<Rightarrow> file_mutation_outcome \<Rightarrow> native_world \<Rightarrow> bool" where
  "promised f path expected replacement outcome w =
     (case outcome of
        Committed \<Rightarrow> f path = expected \<and> expected \<noteq> replacement \<and> nw_files w = f(path := replacement)
      | Unchanged \<Rightarrow> f path = expected \<and> expected = replacement \<and> nw_files w = f
      | Conflict \<Rightarrow> f path \<noteq> expected \<and> nw_files w = f
      | RecoveryRequired retained message \<Rightarrow>
          f path = expected \<and> expected \<noteq> replacement \<and> expected \<noteq> None
          \<and> (nw_files w = f(path := None) \<or> nw_files w = f(path := replacement))
          \<and> (\<exists>name. nw_hidden w name = expected))"

abbreviation untouched :: "(uri \<rightharpoonup> string) \<Rightarrow> io_error \<Rightarrow> native_world \<Rightarrow> bool" where
  "untouched f \<equiv> \<lambda>_. has f anything"

lemma restore_triple:
  assumes "f path = Some expected" "Some expected \<noteq> replacement"
  shows "triple (has (f(path := None)) anything) (restore_captured_original path parent retained expected failure)
    (promised f path (Some expected) replacement) (untouched f)"
proof -
  let ?g = "f(path := None)"
  let ?P = "promised f path (Some expected) replacement"
  have kept: "?P (RecoveryRequired k m) w" if "has ?g (\<lambda>h. h name = Some expected) w" for k m w name
    using that assms by (auto simp: promised_def has_def)
  have lost: "triple (has ?g anything) (bind (fresh_name parent stem) (\<lambda>copy. bind (modify (set_object copy (Some expected))) (\<lambda>_.
      ret (RecoveryRequired retained (m copy))))) ?P (untouched f)" for stem m
  proof (rule triple_bind[where Q = "\<lambda>_. has ?g anything"])
    show "triple (has ?g anything) (fresh_name parent stem) (\<lambda>_. has ?g anything) (untouched f)"
      by (rule tripleI) (auto simp: fresh_name_def bind_def gets_def modify_def ret_def has_def)
    fix copy
    show "triple (has ?g anything) (bind (modify (set_object copy (Some expected))) (\<lambda>_. ret (RecoveryRequired retained (m copy)))) ?P (untouched f)"
      by (rule triple_bind[where Q = "\<lambda>_. has ?g (\<lambda>h. h copy = Some expected)"])
         (auto intro!: has_modify triple_ret intro: kept simp: has_def set_object_def)
  qed
  have republish: "triple (has ?g (\<lambda>h. h retained = Some expected)) (bind (attempt (publish_object retained path)) (\<lambda>r. case r of
      Ok _ \<Rightarrow> throw failure | Err publish \<Rightarrow> ret (RecoveryRequired retained (m publish)))) ?P (untouched f)" for m
    by (rule seq_attempt[OF publish_object_triple])
       (use assms(1) in \<open>auto simp: fun_upd_idem intro!: triple_throw triple_ret intro: kept\<close>)
  show ?thesis
    unfolding restore_captured_original_def
    by (rule seq_attempt[OF overwrite_triple]) (simp_all add: republish lost)
qed

lemma rewrite_triple:
  assumes "f path = Some expected" "expected \<noteq> replacement"
  shows "triple (has f anything) (rewrite_captured_original path parent expected replacement denied)
    (promised f path (Some expected) (Some replacement)) (untouched f)"
proof -
  let ?P = "promised f path (Some expected) (Some replacement)"
  have rewrite: "triple (has (f(path := None)) (\<lambda>h. h retained = Some bytes))
      (bind (attempt (bind (overwrite retained replacement) (\<lambda>_. publish_object retained path))) (\<lambda>r. case r of
         Ok _ \<Rightarrow> ret Committed | Err failure \<Rightarrow> restore_captured_original path parent retained expected failure)) ?P (untouched f)"
    for retained bytes
  proof (rule seq_attempt)
    show "triple (has (f(path := None)) (\<lambda>h. h retained = Some bytes))
        (bind (overwrite retained replacement) (\<lambda>_. publish_object retained path))
        (\<lambda>_. has (f(path \<mapsto> replacement)) anything) (untouched (f(path := None)))"
      by (rule triple_bind[OF triple_conseq[OF overwrite_triple[of "f(path := None)"]]
            triple_conseq[OF publish_object_triple[of "f(path := None)" retained replacement path]]])
         (auto simp: has_def)
  qed (use assms restore_triple in \<open>auto intro!: triple_ret simp: promised_def has_def\<close>)
  show ?thesis
    unfolding rewrite_captured_original_def
  proof (rule seq_silent[OF silent_os], rule seq_gets)
    fix w assume "has f anything w"
    then have opened: "nw_files w path = Some expected" using assms(1) by (simp add: has_def)
    show "triple (has f anything) (case nw_files w path of None \<Rightarrow> ret Conflict
         | Some bytes \<Rightarrow>
             bind (preimage_matches path bytes expected) (\<lambda>same.
               if \<not> same then ret Conflict
               else
                 bind os (\<lambda>_.
                   bind (gets nw_linked) (\<lambda>linked.
                     bind (ensure (path \<notin> set linked) denied) (\<lambda>_.
                       bind (os_calls 2) (\<lambda>_.
                         bind (recovery_name parent) (\<lambda>retained.
                           bind (capture_object path bytes retained) (\<lambda>_.
                             bind (attempt (bind (overwrite retained replacement) (\<lambda>_. publish_object retained path))) (\<lambda>r.
                               case r of
                                 Ok _ \<Rightarrow> ret Committed
                               | Err failure \<Rightarrow> restore_captured_original path parent retained expected failure))))))))) ?P (untouched f)"
      unfolding opened option.case
    proof (rule seq_matches, goal_cases)
      case (1 same)
      then have same by simp
      then show ?case
        by (simp only: not_True_eq_False if_False)
           (intro seq_silent[OF silent_os] seq_gets seq_check seq_silent[OF silent_os_calls] seq_silent[OF silent_recovery_name]
              triple_bind[OF triple_conseq[OF capture_triple] rewrite]; simp)
    qed simp
  qed simp
qed

lemma publish_staged_triple:
  assumes "f path = old" "old \<noteq> Some replacement"
  shows "triple (has f anything) (publish_staged path parent old replacement) (promised f path old (Some replacement)) (untouched f)"
proof (cases old)
  case None
  have "triple (has f anything) (bind (attempt (retry_transient_denial retry_delays (publish_file path replacement))) (\<lambda>published.
      case published of Err e \<Rightarrow> throw e | Ok _ \<Rightarrow> ret Committed)) (promised f path None (Some replacement)) (untouched f)"
    by (rule seq_attempt[OF retry_triple[OF publish_triple]])
       (use assms None in \<open>auto intro!: triple_throw triple_ret simp: promised_def has_def\<close>)
  then show ?thesis unfolding publish_staged_def None by (simp add: triple_def bind_def ret_def cong: result.case_cong)
next
  case (Some bytes)
  let ?P = "promised f path (Some bytes) (Some replacement)"
  let ?K = "\<lambda>retained h. h retained = Some bytes"
  have clean: "triple (has (f(path \<mapsto> replacement)) (?K retained))
      (bind (attempt (retry_transient_denial retry_delays (bind os (\<lambda>_. modify (set_object retained None))))) (\<lambda>r.
         case r of Err e \<Rightarrow> ret (RecoveryRequired retained (io_text e)) | Ok _ \<Rightarrow> ret Committed)) ?P (untouched f)" for retained
  proof (rule seq_attempt[OF retry_triple])
    show "triple (has (f(path \<mapsto> replacement)) (?K retained)) (bind os (\<lambda>_. modify (set_object retained None)))
        (\<lambda>_. has (f(path \<mapsto> replacement)) anything) (\<lambda>_. has (f(path \<mapsto> replacement)) (?K retained))"
      by (intro seq_silent[OF silent_os] has_modify) (auto simp: has_def set_object_def)
  qed (use assms Some in \<open>auto intro!: triple_ret simp: promised_def has_def\<close>)
  have publish: "triple (has (f(path := None)) (?K retained))
      (bind (attempt (retry_transient_denial retry_delays (publish_file path replacement))) (\<lambda>published.
         case published of Err e \<Rightarrow> ret (RecoveryRequired retained (io_text e))
         | Ok _ \<Rightarrow> bind (attempt (retry_transient_denial retry_delays (bind os (\<lambda>_. modify (set_object retained None))))) (\<lambda>r.
             case r of Err e \<Rightarrow> ret (RecoveryRequired retained (io_text e)) | Ok _ \<Rightarrow> ret Committed))) ?P (untouched f)" for retained
    by (rule seq_attempt[OF retry_triple[OF publish_triple[of "f(path := None)"]]])
       (use assms Some clean in \<open>auto intro!: triple_ret simp: promised_def has_def\<close>)
  have capture: "triple (has f anything) (bind (recovery_name parent) (\<lambda>retained. bind (capture_object path bytes retained) (\<lambda>_. ret (Some retained))))
      (\<lambda>retained. case retained of None \<Rightarrow> (\<lambda>_. False) | Some name \<Rightarrow> has (f(path := None)) (?K name)) (untouched f)"
    by (intro seq_silent[OF silent_recovery_name] triple_bind[OF capture_triple] triple_ret) auto
  show ?thesis
    unfolding publish_staged_def Some option.case
  proof (rule triple_bind[OF capture], goal_cases)
    case (1 retained)
    then show ?case
    proof (cases retained)
      case None
      then show ?thesis by (simp add: triple_def)
    next
      case (Some name)
      show ?thesis
        unfolding Some prod.case option.case by (rule publish)
    qed
  qed
qed

lemma stage_replacement_triple:
  assumes "f path = old" "old \<noteq> Some replacement"
  shows "triple (has f anything) (stage_replacement path parent old replacement) (promised f path old (Some replacement)) (untouched f)"
proof -
  let ?P = "promised f path old (Some replacement)"
  let ?finish = "bind (os_calls 2) (\<lambda>_. bind (case old of None \<Rightarrow> ret () | Some _ \<Rightarrow> os_calls 2) (\<lambda>_.
      bind (os_calls 2) (\<lambda>_. publish_staged path parent old replacement)))"
  have more: "silent disk (case old of None \<Rightarrow> ret () | Some _ \<Rightarrow> os_calls 2)"
    by (intro quiet.rules silent_os_calls)
  have finish: "triple (has f anything) ?finish ?P (untouched f)"
    using publish_staged_triple[of f path old replacement parent] assms
    by (intro seq_silent[OF silent_os_calls] seq_silent[OF more]) auto
  have denied: "triple (has f anything) (if \<not> security_install_denied denied owner then throw denied
      else rewrite_captured_original path parent expected replacement denied) ?P (untouched f)" if "old = Some expected" for denied owner expected
    using rewrite_triple[of f path expected replacement] assms that by (auto intro!: triple_throw)
  have security: "silent disk (case old of None \<Rightarrow> ret (Ok ()) | Some expected \<Rightarrow> attempt os)"
    by (intro quiet.rules silent_os)
  show ?thesis
    unfolding stage_replacement_def
    by (intro seq_silent[OF silent_os] seq_silent[OF security] seq_gets)
       (use finish denied in \<open>auto split: result.split option.split\<close>)
qed

lemma mutate_triple:
  "triple (has f anything) (mutate_file_if_matches path expected replacement) (promised f path expected replacement) (untouched f)"
proof (cases "parents_of path")
  case Nil
  then show ?thesis by (simp add: mutate_file_if_matches_def triple_throw)
next
  case (Cons parent more)
  let ?P = "promised f path expected replacement"
  let ?replace = "\<lambda>same. if \<not> same then ret Conflict else if expected = replacement then ret Unchanged
      else case replacement of
        None \<Rightarrow> bind os (\<lambda>_. bind (modify (\<lambda>w. w\<lparr>nw_files := (nw_files w)(path := None)\<rparr>)) (\<lambda>_. ret Committed))
      | Some bytes \<Rightarrow> stage_replacement path parent expected bytes"
  have replace: "triple (has f anything) (?replace same) ?P (untouched f)" if "same \<longleftrightarrow> f path = expected" for same
  proof -
    have "triple (has f anything) (bind os (\<lambda>_. bind (modify (\<lambda>w. w\<lparr>nw_files := (nw_files w)(path := None)\<rparr>)) (\<lambda>_. ret Committed)))
        (promised f path expected None) (untouched f)" if "f path = expected" "expected \<noteq> None"
      by (intro seq_silent[OF silent_os])
         (use that in \<open>auto simp: triple_def bind_def modify_def ret_def promised_def has_def\<close>)
    with that stage_replacement_triple[of f path expected] show ?thesis
      by (auto intro!: triple_ret simp: promised_def has_def split: option.split)
  qed
  have compare: "triple (has f anything) (case (old, expected) of
        (Some bytes, None) \<Rightarrow> ret Conflict
      | (None, Some _) \<Rightarrow> ret Conflict
      | _ \<Rightarrow> bind (case (old, expected) of (Some bytes, Some expected) \<Rightarrow> preimage_matches path bytes expected | _ \<Rightarrow> ret True) ?replace)
      ?P (untouched f)" if old: "old = f path" for old
  proof (cases old; cases expected)
    assume "old = None" "expected = None"
    then show ?thesis using replace[of True] old by (simp add: triple_def bind_def ret_def)
  next
    fix bytes wanted assume some: "old = Some bytes" "expected = Some wanted"
    then show ?thesis using replace old by (auto intro!: seq_matches)
  qed (use old in \<open>auto intro!: triple_ret simp: promised_def has_def\<close>)
  show ?thesis
    unfolding mutate_file_if_matches_def Cons list.case
    by (intro seq_gets seq_check seq_silent[OF silent_os_calls] seq_silent[OF silent_os] compare) (auto simp: has_def)
qed

section \<open>Progress\<close>

lemma os_fine: "nw_events w = [] \<Longrightarrow> os w = (Ok (), w)"
  by (cases w) (simp add: os_def)

lemma os_calls_fine: "nw_events w = [] \<Longrightarrow> os_calls n w = (Ok (), w)"
  by (induction n) (simp_all add: ret_def bind_def os_fine)

lemma compare_chunks_fine: "\<exists>b. compare_chunks [] expected rest offset matches = (Ok b, [])"
proof (induction "length rest" arbitrary: rest offset matches rule: less_induct)
  case less
  show ?case
  proof (cases "rest = []")
    case False
    let ?size = "min 65536 (length rest)"
    have "length (drop ?size rest) < length rest" using False by simp
    from less[OF this] False show ?thesis by (subst compare_chunks.simps) (simp add: Let_def)
  qed (simp add: compare_chunks.simps)
qed

lemma preimage_matches_fine:
  assumes "nw_events w = []" "path \<notin> set (nw_readonly w)"
  shows "preimage_matches path bytes expected w = (Ok (bytes = expected), w)"
proof -
  obtain b where b: "compare_chunks [] expected (take (length expected + 1) bytes) 0 True = (Ok b, [])"
    using compare_chunks_fine by blast
  have "w\<lparr>nw_events := []\<rparr> = w" using assms(1) by (cases w) simp
  with b assms have "\<exists>same. preimage_matches path bytes expected w = (Ok same, w)"
    by (auto simp: preimage_matches_def bind_def gets_def ensure_def ret_def os_fine)
  then show ?thesis using preimage_matches_Ok by fastforce
qed

lemma publish_staged_fine:
  assumes "nw_events w = []" "nw_files w path = old"
  shows "\<exists>w'. publish_staged path parent old replacement w = (Ok Committed, w')"
  using assms
  by (cases old)
     (simp_all add: publish_staged_def recovery_name_def fresh_name_def capture_object_def publish_file_def retry_delays_def
        set_object_def bind_def ret_def gets_def modify_def attempt_def ensure_def os_fine os_calls_fine)

lemma stage_replacement_fine:
  assumes "nw_events w = []" "nw_files w path = old"
  shows "\<exists>w'. stage_replacement path parent old replacement w = (Ok Committed, w')"
  using publish_staged_fine[OF assms] assms
  by (cases old) (simp_all add: stage_replacement_def bind_def ret_def gets_def attempt_def os_fine os_calls_fine)

section \<open>Properties\<close>

text \<open>
  C7: The conditional mutation of a file keeps its promise for every sequence of failures of the
  operating system: it reports a commit, no change or a conflict only when that is what happened, an error leaves
  every file as it was, and a request for recovery means that the original bytes are kept under a reserved name.
\<close>

theorem mutation_keeps_promise:
  "case mutate_file_if_matches path expected replacement w of
     (Ok outcome, w') \<Rightarrow> promised (nw_files w) path expected replacement outcome w'
   | (Err e, w') \<Rightarrow> nw_files w' = nw_files w"
proof (cases "mutate_file_if_matches path expected replacement w")
  case (Pair r w')
  have start: "has (nw_files w) anything w" by (simp add: has_def)
  show ?thesis
  proof (cases r)
    case (Ok outcome)
    with tripleD_Ok[OF mutate_triple start] Pair show ?thesis by simp
  next
    case (Err e)
    with tripleD_Err[OF mutate_triple start] Pair show ?thesis by (simp add: has_def)
  qed
qed

text \<open>
  C9: When the operating system reports no failure, the mutation of a writable path in an existing directory
  ends with the outcome that the bytes on disk ask for: a conflict if they are not the expected ones, no change if
  the replacement is the same, and a commit otherwise.
\<close>

theorem mutation_succeeds:
  assumes "nw_events w = []" "parents_of path = parent # ancestors" "parent \<in> set (nw_directories w)"
    and "path \<notin> set (nw_directories w)" "path \<notin> set (nw_readonly w)"
  shows "\<exists>w'. mutate_file_if_matches path expected replacement w =
    (Ok (if nw_files w path \<noteq> expected then Conflict else if expected = replacement then Unchanged else Committed), w')"
proof -
  note eqs = mutate_file_if_matches_def bind_def gets_def ensure_def ret_def modify_def os_fine os_calls_fine preimage_matches_fine
  show ?thesis
  proof (cases "nw_files w path = expected \<and> expected \<noteq> replacement")
    case True
    show ?thesis
    proof (cases replacement)
      case None
      with True assms show ?thesis by (cases expected) (simp_all add: eqs)
    next
      case (Some bytes)
      with True stage_replacement_fine[OF assms(1), of path expected parent bytes] assms show ?thesis
        by (cases expected) (simp_all add: eqs)
    qed
  next
    case False
    with assms show ?thesis by (cases "nw_files w path"; cases expected) (auto simp: eqs)
  qed
qed

definition example_native :: native_world where
  "example_native =
     \<lparr>nw_files = [''/f'' \<mapsto> ''a''], nw_hidden = Map.empty, nw_directories = [[]], nw_readonly = [], nw_linked = [],
      nw_events = [], nw_next_name = 0, nw_invalid_owner = (\<lambda>_. False), nw_transient = (\<lambda>_. False),
      nw_cancelled = [], nw_held_leases = [], nw_output = []\<rparr>"

theorem mutation_succeeds_witness:
  "\<exists>w'. mutate_file_if_matches ''/f'' (Some ''a'') (Some ''b'') example_native = (Ok Committed, w')"
proof -
  have "parents_of ''/f'' = [[]]" by (simp add: parents_of.simps split_name_def)
  then show ?thesis
    using mutation_succeeds[of example_native "''/f''" "[]" "[]" "Some ''a''" "Some ''b''"] by (simp add: example_native_def)
qed

end
