(* ===== verification/Native_Executor.thy ===== *)
theory Native_Executor
  imports Native_Results
begin

text \<open>
  The file system of the local executor (\<^verbatim>\<open>DirectFileSystem\<close> in \<^verbatim>\<open>exec-server/src/local_file_system.rs\<close>) on files
  without links, and the rest of the host. It satisfies the contract that patch application relies on.
\<close>

section \<open>The host\<close>

definition slash_paths :: path_ops where
  "slash_paths =
     \<lparr>po_join = (\<lambda>outer p. Ok (if starts_with ''/'' p then p else outer @ ''/'' @ p)),
      po_parents = parents_of,
      po_basename = (\<lambda>p. map_option snd (split_name p)),
      po_native = id,
      po_path_buf = id,
      po_windows = (\<lambda>_. False),
      po_lowercase = id,
      po_extension = (\<lambda>p. map_option (\<lambda>i. drop (Suc i) p) (rfind_str ''.'' p))\<rparr>"

definition native_env :: "apply_env \<Rightarrow> apply_env" where
  "native_env outer = outer\<lparr>en_paths := slash_paths\<rparr>"

definition native_read_file :: "uri \<Rightarrow> string native" where
  "native_read_file path =
     bind (os_calls 2) (\<lambda>_.
       bind (gets (\<lambda>w. path \<in> set (nw_directories w))) (\<lambda>directory.
         bind (ensure (\<not> directory) (io_failure InvalidInput (''path `'' @ path @ ''` is not a file''))) (\<lambda>_.
           bind (gets (\<lambda>w. nw_files w path)) (\<lambda>file.
             case file of
               None \<Rightarrow> throw (io_failure NotFound ''not found'')
             | Some bytes \<Rightarrow>
                 bind (ensure (length bytes \<le> 512 * 1024 * 1024) (io_failure InvalidInput ''file is too large'')) (\<lambda>_.
                   bind os (\<lambda>_. ret bytes))))))"

definition native_get_metadata :: "uri \<Rightarrow> file_metadata native" where
  "native_get_metadata path =
     bind (os_calls 2) (\<lambda>_.
       bind (gets (\<lambda>w. (path \<in> set (nw_directories w), nw_files w path))) (\<lambda>(directory, file).
         if directory then ret \<lparr>md_is_directory = True, md_is_file = False, md_is_symlink = False\<rparr>
         else
           case file of
             None \<Rightarrow> throw (io_failure NotFound ''not found'')
           | Some _ \<Rightarrow> ret \<lparr>md_is_directory = False, md_is_file = True, md_is_symlink = False\<rparr>))"

definition native_create_directory :: "uri \<Rightarrow> unit native" where
  "native_create_directory path =
     bind os (\<lambda>_.
       bind (gets (\<lambda>w. list_ex (\<lambda>d. nw_files w d \<noteq> None) (path # parents_of path))) (\<lambda>blocked.
         bind (ensure (\<not> blocked) (io_failure AlreadyExists ''file exists'')) (\<lambda>_.
           modify (\<lambda>w. w\<lparr>nw_directories := (path # parents_of path) @ nw_directories w\<rparr>))))"

definition native_canonicalize :: "uri \<Rightarrow> uri native" where
  "native_canonicalize path =
     bind os (\<lambda>_.
       bind (gets (\<lambda>w. path \<in> set (nw_directories w) \<or> nw_files w path \<noteq> None)) (\<lambda>present.
         if present then ret path else throw (io_failure NotFound ''not found'')))"

definition native_mutate :: "uri \<Rightarrow> string option \<Rightarrow> string option \<Rightarrow> file_mutation_outcome native" where
  "native_mutate path expected replacement =
     bind (if replacement = None then ret () else os) (\<lambda>_. mutate_file_if_matches path expected replacement)"

definition native_try_lock :: "string \<Rightarrow> string \<Rightarrow> bool \<Rightarrow> bool native" where
  "native_try_lock directory key mutated =
     bind os (\<lambda>_. gets (\<lambda>w. \<not> list_ex (\<lambda>(k, exclusive). k = key \<and> (mutated \<or> exclusive)) (nw_held_leases w)))"

definition native_print :: "string \<Rightarrow> unit native" where
  "native_print t = modify (\<lambda>w. w\<lparr>nw_output := nw_output w @ t\<rparr>)"

definition native_host :: "native_world apply_host" where
  "native_host =
     \<lparr>fs_read_file = native_read_file,
      fs_get_metadata = native_get_metadata,
      fs_mutate_file_if_matches = native_mutate,
      fs_create_directory = native_create_directory,
      fs_canonicalize = native_canonicalize,
      fs_directory_case_sensitive = (\<lambda>_. bind os (\<lambda>_. ret (Some True))),
      fs_uses_host_native_paths = True,
      ah_symlink_metadata = (\<lambda>p w. (map_option (\<lambda>_. (True, False, False)) (nw_files w p), w)),
      ah_is_cancelled = (\<lambda>w. case nw_cancelled w of [] \<Rightarrow> (False, w) | b # bs \<Rightarrow> (b, w\<lparr>nw_cancelled := bs\<rparr>)),
      ah_stdout = native_print,
      ah_stderr = native_print,
      ah_lease_directory = bind os (\<lambda>_. ret ''/leases''),
      ah_open_lease = (\<lambda>directory key. os),
      ah_try_lock = native_try_lock\<rparr>"

section \<open>The contract holds\<close>

lemma silent_files: "silent disk m \<Longrightarrow> silent nw_files m"
  by (auto simp: frame_def disk_def)

lemmas silent_files_calls = quiet.rules silent_files[OF silent_os] silent_files[OF silent_os_calls]

lemma silent_native:
  "silent nw_files (native_read_file p)" "silent nw_files (native_get_metadata p)" "silent nw_files (native_canonicalize p)"
  "silent nw_files (native_try_lock d k x)"
  unfolding native_read_file_def native_get_metadata_def native_canonicalize_def native_try_lock_def
  by (intro silent_files_calls)+

lemma silent_native_modify: "(\<And>w. nw_files (g w) = nw_files w) \<Longrightarrow> silent nw_files (modify g)"
  by (simp add: frame_def modify_def)

lemma silent_native_create: "silent nw_files (native_create_directory p)"
  unfolding native_create_directory_def by (intro silent_files_calls silent_native_modify) simp

lemma silent_native_print: "silent nw_files (native_print t)"
  unfolding native_print_def by (intro silent_native_modify) simp

lemma os_not_missing: "os w = (Err e, w') \<Longrightarrow> io_kind e \<noteq> NotFound"
  by (auto simp: os_def split: list.splits os_event.splits if_splits)

lemma os_calls_not_missing: "os_calls n w = (Err e, w') \<Longrightarrow> io_kind e \<noteq> NotFound"
  by (induction n arbitrary: w) (auto simp: bind_def ret_def dest: os_not_missing split: prod.splits result.splits)

lemma native_read_found:
  assumes "native_read_file p w = (Ok c, w')"
  shows "nw_files w p = Some c"
proof -
  obtain v where "os_calls 2 w = (Ok (), v)" "nw_files v p = Some c"
    using assms by (auto simp: native_read_file_def bind_def gets_def ensure_def ret_def throw_def
        split: prod.splits result.splits option.splits if_splits)
  then show ?thesis using frameD[OF silent_files[OF silent_os_calls]] by fastforce
qed

lemma native_metadata_missing:
  assumes "native_get_metadata p w = (Err e, w')" "io_kind e = NotFound"
  shows "nw_files w p = None"
proof -
  obtain v where "os_calls 2 w = (Ok (), v)" "nw_files v p = None"
    using assms os_calls_not_missing[of 2 w e]
    by (auto simp: native_get_metadata_def bind_def gets_def ret_def throw_def
        split: prod.splits result.splits option.splits if_splits)
  then show ?thesis using frameD[OF silent_files[OF silent_os_calls]] by fastforce
qed

lemma native_metadata_link: "native_get_metadata p w = (Ok md, w') \<Longrightarrow> \<not> md_is_symlink md"
  by (auto simp: native_get_metadata_def bind_def gets_def ret_def throw_def
        split: prod.splits result.splits option.splits if_splits)

lemma native_mutate_triple:
  "triple (has f anything) (native_mutate path expected replacement) (promised f path expected replacement) (untouched f)"
  unfolding native_mutate_def
  by (intro seq_silent[OF quiet.if_then[OF quiet.ret silent_os]] mutate_triple)

lemma native_mutate_Ok: "native_mutate p e r w = (Ok outcome, w') \<Longrightarrow> promised (nw_files w) p e r outcome w'"
  using tripleD_Ok[OF native_mutate_triple, of "nw_files w" w] by (simp add: has_def)

lemma native_mutate_Err: "native_mutate p e r w = (Err x, w') \<Longrightarrow> nw_files w' = nw_files w"
  using tripleD_Err[OF native_mutate_triple, of "nw_files w" w] by (simp add: has_def)

text \<open>The identity of a path is the path, whichever of its directories exist.\<close>

lemma basename_plain:
  assumes "split_name p = Some (d, n)"
  shows "\<not> starts_with ''/'' n"
proof -
  have "n = rev (takeWhile (\<lambda>c. c \<noteq> CHR ''/'') (rev p))"
    using assms by (auto simp: split_name_def split: if_splits)
  then have "CHR ''/'' \<notin> set n" by (auto dest: set_takeWhileD)
  then show ?thesis by (auto simp: starts_with_iff)
qed

abbreviation below :: "uri \<Rightarrow> string list \<Rightarrow> uri" where
  "below outer segments \<equiv> foldl (\<lambda>d n. d @ ''/'' @ n) outer segments"

lemma native_join_segments:
  "list_all (\<lambda>n. \<not> starts_with ''/'' n) segments \<Longrightarrow>
     join_segments (native_env outer) False sensitive resolved segments = Ok (below resolved segments)"
  by (induction segments arbitrary: resolved sensitive) (simp_all add: native_env_def slash_paths_def)

lemma native_resolve:
  "resolve_endpoint (native_env outer) native_host p segments (c # parents_of c) w = (Ok (resolved, missing), w') \<Longrightarrow>
     list_all (\<lambda>n. \<not> starts_with ''/'' n) segments \<Longrightarrow>
     below resolved missing = below c segments \<and> list_all (\<lambda>n. \<not> starts_with ''/'' n) missing"
proof (induction c arbitrary: segments w rule: parents_of.induct)
  case (1 c)
  obtain r v where can: "native_canonicalize c w = (r, v)" by fastforce
  have host: "fs_canonicalize native_host = native_canonicalize" by (simp add: native_host_def)
  show ?case
  proof (cases r)
    case (Ok x)
    then have "x = c" using can
      by (auto simp: native_canonicalize_def bind_def gets_def ret_def throw_def split: prod.splits result.splits if_splits)
    with 1 can Ok show ?thesis by (simp add: host bind_def attempt_def ret_def)
  next
    case (Err e)
    have name: "po_basename (en_paths (native_env outer)) c = map_option snd (split_name c)"
      by (simp add: native_env_def slash_paths_def)
    from 1(2) can Err obtain u where step: "io_kind e = NotFound"
      "(case map_option snd (split_name c) of None \<Rightarrow> resolve_endpoint (native_env outer) native_host p segments []
        | Some n \<Rightarrow> resolve_endpoint (native_env outer) native_host p (n # segments) (parents_of c)) u = (Ok (resolved, missing), w')"
      by (auto simp: host name bind_def attempt_def throw_def split: if_splits prod.splits result.splits)
    show ?thesis
    proof (cases "split_name c")
      case None
      with step(2) show ?thesis by (simp add: throw_def)
    next
      case (Some dn)
      obtain d n where dn: "dn = (d, n)" by (cases dn)
      with Some have "parents_of c = d # parents_of d" by (subst parents_of.simps) simp
      with step(2) Some dn have "resolve_endpoint (native_env outer) native_host p (n # segments) (d # parents_of d) u = (Ok (resolved, missing), w')"
        by simp
      from 1(1)[OF Some dn[symmetric] this] 1(3) basename_plain split_name_join(1) Some dn show ?thesis by auto
    qed
  qed
qed

lemma native_identity:
  assumes "mutation_endpoint_identity (native_env outer) native_host p w = (Ok i, w')"
  shows "i = p"
proof -
  have windows: "po_windows (en_paths (native_env outer)) q = False" "po_parents (en_paths (native_env outer)) = parents_of" for q
    by (simp_all add: native_env_def slash_paths_def)
  from assms obtain resolved missing v where
    "resolve_endpoint (native_env outer) native_host p [] (p # parents_of p) w = (Ok (resolved, missing), v)"
    and "join_segments (native_env outer) False True resolved missing = Ok i"
    by (auto simp del: resolve_endpoint.simps simp: mutation_endpoint_identity_def windows bind_def ret_def of_result_def
        split: prod.splits result.splits)
  with native_resolve[of outer p "[]" p w resolved missing v] native_join_segments show ?thesis by simp
qed

interpretation native: quiet_executor "native_env outer" native_host nw_files id "\<lambda>_. False" for outer :: apply_env
proof unfold_locales
  note host = native_host_def
  show "silent nw_files (fs_read_file native_host p)" "silent nw_files (fs_get_metadata native_host p)"
    "silent nw_files (fs_create_directory native_host p)" "silent nw_files (fs_canonicalize native_host p)"
    "silent nw_files (ah_stdout native_host t)" "silent nw_files (ah_stderr native_host t)"
    "silent nw_files (ah_try_lock native_host d k x)" for p t d k x
    by (simp_all add: host silent_native silent_native_create silent_native_print)
  show "silent nw_files (fs_directory_case_sensitive native_host p)" "silent nw_files (ah_lease_directory native_host)"
    "silent nw_files (ah_open_lease native_host d k)" for p d k
    by (simp_all add: host) (intro silent_files_calls)+
  show "nw_files w' = nw_files w" if "ah_symlink_metadata native_host p w = (mode, w')" for p w mode w'
    using that by (simp add: host)
  show "nw_files w' = nw_files w" if "ah_is_cancelled native_host w = (stop, w')" for w stop w'
    using that by (auto simp: host split: list.splits)
  show "nw_files w (id p) = Some c" if "fs_read_file native_host p w = (Ok c, w')" for p w c w'
    using that by (simp add: host native_read_found)
  show "md_is_symlink md = False" if "fs_get_metadata native_host p w = (Ok md, w')" for p w md w'
    using that by (simp add: host native_metadata_link)
  show "nw_files w (id p) = None \<and> \<not> False" if "fs_get_metadata native_host p w = (Err err, w')" "io_kind err = NotFound" for p w err w'
    using that by (simp add: host native_metadata_missing)
  show "nw_files w' q = nw_files w q" if run: "fs_mutate_file_if_matches native_host p e r w = (res, w')" and "q \<noteq> id p" for p e r w res w' q
    using run \<open>q \<noteq> id p\<close> native_mutate_Ok[of p e r w _ w'] native_mutate_Err[of p e r w _ w']
    by (cases res) (auto simp: host promised_def split: file_mutation_outcome.splits)
  show "nw_files w' = nw_files w" if "fs_mutate_file_if_matches native_host p e r w = (res, w')" "nw_files w (id p) \<noteq> e" for p e r w res w'
    using that native_mutate_Ok[of p e r w _ w'] native_mutate_Err[of p e r w _ w']
    by (cases res) (auto simp: host promised_def split: file_mutation_outcome.splits)
  show "nw_files w (id p) = e \<and> nw_files w' (id p) = r \<and> e \<noteq> r" if "fs_mutate_file_if_matches native_host p e r w = (Ok Committed, w')"
    for p e r w w'
    using that native_mutate_Ok[of p e r w _ w'] by (auto simp: host promised_def)
  show "nw_files w (id p) = e \<and> e = r \<and> nw_files w' = nw_files w" if "fs_mutate_file_if_matches native_host p e r w = (Ok Unchanged, w')"
    for p e r w w'
    using that native_mutate_Ok[of p e r w _ w'] by (auto simp: host promised_def)
  show "nw_files w' = nw_files w" if "fs_mutate_file_if_matches native_host p e r w = (Ok Conflict, w')" for p e r w w'
    using that native_mutate_Ok[of p e r w _ w'] by (auto simp: host promised_def)
  show "nw_files w' = nw_files w" if "fs_mutate_file_if_matches native_host p e r w = (Err err, w')" for p e r w err w'
    using that native_mutate_Err[of p e r w _ w'] by (auto simp: host)
  show "a = b" if "mutation_endpoint_identity (native_env outer) native_host p w = (Ok a, w1)"
      "mutation_endpoint_identity (native_env outer) native_host p' w' = (Ok b, w2)" "id p = id p'" for p w a w1 p' w' b w2
    using native_identity[OF that(1)] native_identity[OF that(2)] that(3) by simp
qed

end
