(* ===== verification/Apply_Results.thy ===== *)
theory Apply_Results
  imports Apply_Rollback Native_Executor Patch_Render
begin

text \<open>
  The whole application of a patch: an exact delta describes the files that a run leaves behind, a
  successful run has the effect of its hunks and found its revision guards satisfied, and a failed run
  leaves the files as it found them unless it says otherwise.
\<close>

section \<open>Reporting\<close>

context quiet_executor
begin

lemma calm_report_success: "frame (calm_step contents) (report_success host hunks)"
  unfolding report_success_def by (intro calm_steps silent_steps quiet.if_then)

lemma after_hunks_calm: "after_hunks f0 cwd hunks k s \<Longrightarrow> calm_step contents s t \<Longrightarrow> after_hunks f0 cwd hunks k t"
  using pending_calm[of f0 "[]" s t] by (auto simp: after_hunks_def calm_step_def)

abbreviation incomplete :: "string list \<Rightarrow> any_error \<Rightarrow> any_error" where
  "incomplete errors e \<equiv> with_context (''rollback incomplete: '' @ join ''; '' errors) e"

definition undone :: "('e \<Rightarrow> string option) \<Rightarrow> string list \<Rightarrow> 'w patch_run \<Rightarrow> bool" where
  "undone f0 errors s \<longleftrightarrow> pending f0 [] s \<and> (exact s \<longrightarrow> errors = [] \<longrightarrow> changes s = [])"

lemma undone_calm: "undone f0 errors s \<Longrightarrow> calm_step contents s t \<Longrightarrow> undone f0 errors t"
  using pending_calm[of f0 "[]" s t] by (auto simp: undone_def calm_step_def)

lemma seq_manifest:
  assumes "\<And>s t. P s \<Longrightarrow> calm_step contents s t \<Longrightarrow> P t" "triple P (f ()) Q E"
  shows "triple P (bind (on_manifest g) f) Q E"
proof (rule triple_bind)
  show "triple P (on_manifest g) (\<lambda>_. P) E"
  proof (rule tripleI)
    fix s a t assume "P s" "on_manifest g s = (Ok a, t)"
    then show "P t" using assms(1) frameD[OF frame_on_manifest] by blast
  qed (simp add: on_manifest_def change_delta_def modify_def)
qed (simp add: assms(2))

lemma report_failure_triple:
  "triple (pending f0 []) (report_failure env host e) (\<lambda>_ _. False) (\<lambda>x s. pending f0 [] s
     \<and> ((\<forall>t w. \<exists>w'. ah_stderr host t w = (Ok (), w')) \<longrightarrow> exact s \<longrightarrow> changes s = []
          \<or> (\<exists>errors. errors \<noteq> [] \<and> x = final_error (en_chain_text env (incomplete errors e)) (incomplete errors e))))"
  (is "triple _ _ _ ?E")
proof -
  let ?e = "\<lambda>errors. if errors = [] then e else incomplete errors e"
  let ?print = "\<lambda>t. map_error io_to_apply (on_world (ah_stderr host t))"
  let ?text = "\<lambda>e. en_chain_text env e"
  have calm: "frame (calm_step contents) (?print t)" for t by (intro calm_steps silent_steps)
  have stderr: "\<not> (\<forall>t w. \<exists>w'. ah_stderr host t w = (Ok (), w'))" if "?print t s = (Err x, s')" for t s x s'
  proof
    assume "\<forall>t w. \<exists>w'. ah_stderr host t w = (Ok (), w')"
    then obtain w' where "ah_stderr host t (pr_world s) = (Ok (), w')" by blast
    with that show False by (simp add: map_error_def on_world_def)
  qed
  have print: "triple (undone f0 errors) (bind (?print t) n) (\<lambda>_ _. False) ?E"
    if "\<And>a. triple (undone f0 errors) (n a) (\<lambda>_ _. False) ?E" for t n errors
  proof (rule triple_bind[OF _ that])
    show "triple (undone f0 errors) (?print t) (\<lambda>_. undone f0 errors) ?E"
    proof (rule tripleI)
      fix s a t' assume "undone f0 errors s" "?print t s = (Ok a, t')"
      then show "undone f0 errors t'" using frameD[OF calm] undone_calm by blast
    next
      fix s x t' assume s: "undone f0 errors s" and run: "?print t s = (Err x, t')"
      have "pending f0 [] t'" using undone_calm[OF s frameD[OF calm run]] by (simp add: undone_def)
      with stderr[OF run] show "?E x t'" by blast
    qed
  qed
  have finish: "triple (undone f0 errors) (bind (on_manifest (\<lambda>m. m\<lparr>mf_rolling_back := False\<rparr>)) (\<lambda>_.
      bind (?print (?text (?e errors) @ [LF])) (\<lambda>_. bind (gets (failure_summary \<circ> pr_delta)) (\<lambda>summary.
        bind (?print summary) (\<lambda>_. throw (final_error (?text (?e errors)) (?e errors))))))) (\<lambda>_ _. False) ?E" for errors
  proof (rule seq_manifest[OF undone_calm])
    show "triple (undone f0 errors) (bind (?print (?text (?e errors) @ [LF])) (\<lambda>_. bind (gets (failure_summary \<circ> pr_delta)) (\<lambda>summary.
        bind (?print summary) (\<lambda>_. throw (final_error (?text (?e errors)) (?e errors)))))) (\<lambda>_ _. False) ?E"
    proof (rule print, rule triple_bind[where Q = "\<lambda>_. undone f0 errors"])
      show "triple (undone f0 errors) (gets (failure_summary \<circ> pr_delta)) (\<lambda>_. undone f0 errors) ?E"
        by (rule triple_gets)
      show "triple (undone f0 errors) (bind (?print summary) (\<lambda>_. throw (final_error (?text (?e errors)) (?e errors))))
          (\<lambda>_ _. False) ?E" for summary
      proof (rule print, rule triple_throw)
        fix s assume s: "undone f0 errors s"
        show "?E (final_error (?text (?e errors)) (?e errors)) s"
        proof (cases "errors = []")
          case True
          with s show ?thesis unfolding undone_def by blast
        next
          case False
          have "final_error (?text (?e errors)) (?e errors) = final_error (?text (incomplete errors e)) (incomplete errors e)"
            by (simp only: False if_False)
          with s False show ?thesis unfolding undone_def by blast
        qed
      qed
    qed
  qed
  have rollback: "triple (pending f0 []) (bind (attempt (rollback_committed_changes env host rp)) (\<lambda>r.
       (let rollback_errors = (case r of Ok errors \<Rightarrow> errors | Err _ \<Rightarrow> []);
            e = (if rollback_errors = [] then e else incomplete rollback_errors e); msg = ?text e
        in bind (on_manifest (\<lambda>m. m\<lparr>mf_rolling_back := False\<rparr>)) (\<lambda>_. bind (?print (msg @ [LF])) (\<lambda>_.
             bind (gets (failure_summary \<circ> pr_delta)) (\<lambda>summary. bind (?print summary) (\<lambda>_. throw (final_error msg e)))))))
      ) (\<lambda>_ _. False) ?E" for rp
  proof (rule seq_attempt[OF rollback_triple], goal_cases)
    case (1 errors)
    show ?case
      unfolding Let_def result.case
      by (rule triple_conseq[OF finish[of errors]]) (simp add: undone_def, assumption+)
  qed (simp add: triple_def)
  show ?thesis
    unfolding report_failure_def
    by (rule seq_manifest[OF pending_calm], assumption, assumption, rule seq_manifest[OF pending_calm], assumption, assumption,
        rule rollback)
qed

section \<open>The outcome of a run\<close>

abbreviation printing_works :: bool where
  "printing_works \<equiv> (\<forall>t w. \<exists>w'. ah_stdout host t w = (Ok (), w')) \<and> (\<forall>t w. \<exists>w'. ah_stderr host t w = (Ok (), w'))"

lemma print_summary_works:
  assumes "\<forall>t w. \<exists>w'. ah_stdout host t w = (Ok (), w')"
  shows "\<exists>w'. print_summary host hunks w = (Ok (), w')"
proof -
  have "\<exists>w'. print_lines host ls w = (Ok (), w')" for ls
  proof (induction ls arbitrary: w)
    case (Cons l ls)
    obtain v where "ah_stdout host l w = (Ok (), v)" using assms by blast
    with Cons.IH[of v] show ?case by (simp add: bind_def)
  qed (simp add: ret_def)
  then show ?thesis unfolding print_summary_def by blast
qed

lemma report_success_works:
  assumes "\<forall>t w. \<exists>w'. ah_stdout host t w = (Ok (), w')"
  shows "\<exists>t. report_success host hunks s = (Ok (), t)"
proof -
  let ?m = "if dl_exact (pr_delta s) \<and> dl_changes (pr_delta s) = [] then ah_stdout host (''Success. unchanged: no file bytes were written.'' @ [LF])
            else print_summary host hunks"
  obtain w' where "?m (pr_world s) = (Ok (), w')"
    using assms print_summary_works[OF assms, of hunks "pr_world s"] by (cases "dl_exact (pr_delta s) \<and> dl_changes (pr_delta s) = []") auto
  then show ?thesis by (simp add: report_success_def bind_def gets_def attempt_def on_world_def ret_def)
qed

lemma apply_outcome:
  assumes run: "apply_hunks_with_verified_action env host cwd hunks guards verified w = (res, s)"
  shows "pending (contents w) [] s"
    and "res = Ok u \<Longrightarrow> exact s \<Longrightarrow> patch_steps env ep cwd (enumerate 0 hunks) (contents w) (files s)"
    and "res = Err x \<Longrightarrow> x \<noteq> Panic \<Longrightarrow> printing_works \<Longrightarrow> exact s \<Longrightarrow> changes s = []
      \<or> (\<exists>errors e. errors \<noteq> [] \<and> x = final_error (en_chain_text env (incomplete errors e)) (incomplete errors e))"
proof -
  let ?f0 = "contents w" and ?s0 = "\<lparr>pr_world = w, pr_delta = unattempted env cwd hunks\<rparr>"
  have start: "at ?f0 [] [] True ?s0" by (simp add: at_def pending_def unattempted_def delta_new_def)
  obtain r s1 where att: "attempt_hunks env host cwd hunks guards verified ?s0 = (r, s1)" by fastforce
  have "pending ?f0 [] s \<and> (res = Ok u \<longrightarrow> exact s \<longrightarrow> patch_steps env ep cwd (enumerate 0 hunks) ?f0 (files s))
    \<and> (res = Err x \<longrightarrow> x \<noteq> Panic \<longrightarrow> printing_works \<longrightarrow> exact s \<longrightarrow> changes s = []
      \<or> (\<exists>errors e. errors \<noteq> [] \<and> x = final_error (en_chain_text env (incomplete errors e)) (incomplete errors e)))"
  proof (cases r)
    case (Ok v)
    then have rep: "report_success host hunks s1 = (res, s)" using run att by (simp add: apply_hunks_with_verified_action_def)
    have "after_hunks ?f0 cwd hunks (length hunks) s1" using tripleD_Ok[OF attempt_hunks_triple start] att Ok by blast
    then have after: "after_hunks ?f0 cwd hunks (length hunks) s" by (rule after_hunks_calm) (rule frameD[OF calm_report_success rep])
    have "res = Ok ()" if "printing_works" using report_success_works[of hunks s1] rep that by auto
    with after show ?thesis by (auto simp: after_hunks_def)
  next
    case (Err e)
    have pend: "pending ?f0 [] s1" using tripleD_Err[OF attempt_hunks_triple start] att Err by blast
    show ?thesis
    proof (cases "er_cause e = Cause_Apply Panic")
      case True
      with run att Err pend show ?thesis by (auto simp: apply_hunks_with_verified_action_def)
    next
      case False
      then have rep: "report_failure env host e s1 = (res, s)" using run att Err by (simp add: apply_hunks_with_verified_action_def)
      show ?thesis
      proof (cases res)
        case (Ok v)
        with tripleD_Ok[OF report_failure_triple pend] rep show ?thesis by blast
      next
        case (Err y)
        with tripleD_Err[OF report_failure_triple pend] rep show ?thesis by blast
      qed
    qed
  qed
  then show "pending ?f0 [] s" "res = Ok u \<Longrightarrow> exact s \<Longrightarrow> patch_steps env ep cwd (enumerate 0 hunks) ?f0 (files s)"
    "res = Err x \<Longrightarrow> x \<noteq> Panic \<Longrightarrow> printing_works \<Longrightarrow> exact s \<Longrightarrow> changes s = []
      \<or> (\<exists>errors e. errors \<noteq> [] \<and> x = final_error (en_chain_text env (incomplete errors e)) (incomplete errors e))"
    by blast+
qed

end

section \<open>Revision guards\<close>

definition guard_holds :: "apply_env \<Rightarrow> (uri \<Rightarrow> 'e) \<Rightarrow> uri \<Rightarrow> ('e \<Rightarrow> string option) \<Rightarrow> file_revision_guard \<Rightarrow> bool" where
  "guard_holds env ep cwd f guard \<longleftrightarrow>
     (\<exists>path. po_join (en_paths env) cwd (guard_path guard) = Ok path
        \<and> (case expected_sha256 guard of
             Some h \<Rightarrow> (\<exists>bytes. f (ep path) = Some bytes \<and> source_hash_matches h (en_sha256 env bytes))
           | None \<Rightarrow> f (ep path) = None))"

context quiet_executor
begin

lemma guard_state_found:
  assumes "guard_state env host path expected w = (Ok (current, excerpt), w')" "guard_satisfied expected current"
  shows "case expected of Some h \<Rightarrow> (\<exists>bytes. contents w (ep path) = Some bytes \<and> source_hash_matches h (en_sha256 env bytes))
    | None \<Rightarrow> contents w (ep path) = None"
  using assms
  by (auto simp: guard_state_def guard_satisfied_def bind_def attempt_def ret_def throw_def Let_def
      dest: read_found metadata_missing split: option.splits prod.splits result.splits if_splits)

lemma check_guard_found:
  assumes "check_guard env host cwd failures guard w = (Ok failures', w')" "failures' = []"
  shows "failures = [] \<and> guard_holds env ep cwd (contents w) guard"
proof -
  from assms obtain path current excerpt v where "po_join (en_paths env) cwd (guard_path guard) = Ok path"
    "guard_state env host path (expected_sha256 guard) w = (Ok (current, excerpt), v)"
    "guard_satisfied (expected_sha256 guard) current" "failures = []"
    by (auto simp: check_guard_def bind_def of_result_def ret_def split: prod.splits result.splits if_splits)
  with guard_state_found show ?thesis unfolding guard_holds_def by blast
qed

lemma guards_found:
  "triple (\<lambda>w. contents w = f) (validate_revision_guards env host cwd guards)
     (\<lambda>_ _. \<forall>g\<in>set guards. guard_holds env ep cwd f g) (\<lambda>_ _. True)"
  unfolding validate_revision_guards_def
proof (rule triple_bind)
  let ?I = "\<lambda>i (failures :: string list) w. contents w = f \<and> (failures = [] \<longrightarrow> (\<forall>j<i. guard_holds env ep cwd f (guards ! j)))"
  have step: "triple (?I i failures) (check_guard env host cwd failures (guards ! i)) (?I (Suc i)) (\<lambda>_ _. True)"
    if "i < length guards" for i failures
  proof (rule tripleI)
    fix w failures' w' assume w: "?I i failures w" and run: "check_guard env host cwd failures (guards ! i) w = (Ok failures', w')"
    have "silent contents (check_guard env host cwd failures (guards ! i))"
      unfolding check_guard_def guard_state_def Let_def by (intro quiet.rules silent_basic)
    with frameD[OF this run] w check_guard_found[OF run] show "?I (Suc i) failures' w'" by (auto simp: less_Suc_eq)
  qed simp
  have "triple (?I 0 []) (loop (check_guard env host cwd) [] guards) (?I (length guards)) (\<lambda>_ _. True)"
    by (rule triple_loop[where I = ?I]) (rule step)
  then show "triple (\<lambda>w. contents w = f) (loop (check_guard env host cwd) [] guards) (?I (length guards)) (\<lambda>_ _. True)"
    by simp
  show "triple (?I (length guards) failures) (ensure (failures = []) x) (\<lambda>_ _. \<forall>g\<in>set guards. guard_holds env ep cwd f g) (\<lambda>_ _. True)"
    for failures x
    by (rule triple_ensure) (auto simp: all_set_conv_all_nth)
qed

lemma seq_files:
  assumes "frame (calm_step contents) m" "\<And>a. triple (\<lambda>s. files s = f) (n a) Q (\<lambda>_ _. True)"
  shows "triple (\<lambda>s. files s = f) (bind m n) Q (\<lambda>_ _. True)"
proof (rule triple_bind)
  have "triple (\<lambda>s. files s = f) m (\<lambda>_ s. files s = f) (\<lambda>_ s. files s = f)"
    by (rule triple_frame[OF assms(1)]) (simp add: calm_step_def)
  then show "triple (\<lambda>s. files s = f) m (\<lambda>_ s. files s = f) (\<lambda>_ _. True)" by (rule triple_conseq) auto
qed (rule assms(2))

lemma attempt_guards:
  "triple (\<lambda>s. files s = f) (attempt_hunks env host cwd hunks guards verified)
     (\<lambda>_ _. \<forall>g\<in>set guards. guard_holds env ep cwd f g) (\<lambda>_ _. True)"
  unfolding attempt_hunks_def
proof (rule seq_files[OF calm.ensure], rule seq_files[OF frame_apply_run[OF silent_validate]],
    rule seq_files[OF frame_on_world[OF silent_acquire]], rule triple_bind)
  show "triple (\<lambda>s. files s = f) (apply_run (validate_revision_guards env host cwd guards))
      (\<lambda>_ _. \<forall>g\<in>set guards. guard_holds env ep cwd f g) (\<lambda>_ _. True)"
    unfolding apply_run_def
    by (intro triple_map_error tripleI) (auto simp: on_world_def split: prod.splits, use tripleD_Ok[OF guards_found] in blast)
qed (auto simp: triple_def split: prod.splits result.splits)

lemma report_failure_fails: "fst (report_failure env host e s) \<noteq> Ok u"
  by (auto simp: report_failure_def bind_def on_manifest_def change_delta_def modify_def attempt_def Let_def gets_def
      throw_def split: prod.splits result.splits)

lemma success_guards:
  assumes "apply_hunks_with_verified_action env host cwd hunks guards verified w = (Ok u, s)" "g \<in> set guards"
  shows "guard_holds env ep cwd (contents w) g"
proof -
  obtain r s1 where att: "attempt_hunks env host cwd hunks guards verified \<lparr>pr_world = w, pr_delta = unattempted env cwd hunks\<rparr> = (r, s1)"
    by fastforce
  have "\<exists>v. r = Ok v"
  proof (cases r)
    case (Err e)
    have "fst (report_failure env host e s1) \<noteq> Ok u"
      using report_failure_fails by blast
    with assms(1) att Err show ?thesis by (auto simp: apply_hunks_with_verified_action_def split: if_splits)
  qed simp
  with att assms(2) tripleD_Ok[OF attempt_guards, of "\<lparr>pr_world = w, pr_delta = unattempted env cwd hunks\<rparr>"] show ?thesis by fastforce
qed

end

section \<open>Properties\<close>

text \<open>
  C5: A delta that is still marked exact when the application of a patch ends, with success or failure,
  describes the files exactly: they are the initial files after the recorded writes, and each recorded write found
  the bytes that it names. This holds for every executor that keeps the contract.
\<close>

theorem applied_delta_exact:
  assumes "quiet_executor env host contents ep link"
    and "apply_hunks_with_verified_action env host cwd hunks guards verified w = (res, s)"
    and "dl_exact (pr_delta s)"
  shows "contents (pr_world s) = replay ep (contents w) (all_writes (dl_changes (pr_delta s)))
    \<and> chained ep (contents w) (all_writes (dl_changes (pr_delta s)))"
  using quiet_executor.apply_outcome(1)[OF assms(1,2)] assms(3)
  by (simp add: quiet_executor.pending_def[OF assms(1)])

text \<open>
  C4: A patch text that is applied with success and an exact delta parses to hunks, and the files change
  exactly as these hunks say, in order: a file is created where none was, a deleted file was there, an update
  replaces the contents by what its chunks make of them, and a move does so at another path and removes the source.
\<close>

theorem applied_patch_refines_hunks:
  assumes "quiet_executor env host contents ep link"
    and "apply_patch_with_cancellation env host cwd patch w = (Ok (), s)"
    and "dl_exact (pr_delta s)"
  shows "\<exists>args. parse_patch patch = Ok args
    \<and> patch_steps env ep cwd (enumerate 0 (args_hunks args)) (contents w) (contents (pr_world s))"
proof (cases "parse_patch patch")
  case (Ok args)
  with assms(2) have "apply_hunks_with_verified_action env host cwd (args_hunks args) (args_revision_guards args) None w = (Ok (), s)"
    by (simp add: apply_patch_with_cancellation_def)
  from quiet_executor.apply_outcome(2)[OF assms(1) this] assms(3) Ok show ?thesis by simp
next
  case (Err e)
  with assms(2) show ?thesis
    by (auto simp: apply_patch_with_cancellation_def without_delta_def bind_def throw_def split: prod.splits result.splits)
qed


text \<open>
  C8: A successful application found every revision guard satisfied by the files it started from: a guard
  with a hash by a file with that hash, a guard of absence by no file.
\<close>

theorem revision_guards_held:
  assumes "quiet_executor env host contents ep link"
    and "apply_hunks_with_verified_action env host cwd hunks guards verified w = (Ok (), s)"
    and "guard \<in> set guards"
  shows "guard_holds env ep cwd (contents w) guard"
  by (rule quiet_executor.success_guards[OF assms])

section \<open>Examples on the local executor\<close>

definition example_host_env :: apply_env where
  "example_host_env = native_env \<lparr>en_edit = \<lparr>env_sha256 = id, env_diff = (\<lambda>_ _. []), env_anchor_json = (\<lambda>_. None),
      env_string_json = Some, env_json_apply = (\<lambda>s _ _. Ok s)\<rparr>, en_paths = slash_paths,
     en_mismatch_report = (\<lambda>_ _ _ _. ([], None)), en_json_error = (\<lambda>_. None), en_chain_text = (\<lambda>_. []), en_windows = False\<rparr>"

definition example_disk :: "bool list \<Rightarrow> native_world" where
  "example_disk cancels =
     \<lparr>nw_files = [''/r/o'' \<mapsto> ''x''], nw_hidden = Map.empty, nw_directories = [''/r'', []],
      nw_readonly = [], nw_linked = [], nw_events = [], nw_next_name = 0, nw_invalid_owner = (\<lambda>_. False),
      nw_transient = (\<lambda>_. False), nw_cancelled = cancels, nw_held_leases = [], nw_output = []\<rparr>"

definition example_changes :: "hunk list" where
  "example_changes = [AddFile ''n'' ''y'', DeleteFile ''o'']"

definition example_guard :: file_revision_guard where
  "example_guard = \<lparr>guard_path = ''n'', expected_sha256 = None\<rparr>"

text \<open>Evaluation enters the continuation of a step only when the step has returned.\<close>

lemma bind_weak: "m = m' \<Longrightarrow> bind m f = bind m' f"
  by simp

lemmas run_monad = bind_def ret_def throw_def attempt_def map_error_def gets_def modify_def ensure_def of_result_def loop.simps
  on_world_def change_delta_def on_manifest_def and_exact_def push_change_def io_run_def apply_run_def Let_def

lemmas run_native = native_host_def native_read_file_def native_get_metadata_def native_canonicalize_def native_mutate_def
  native_try_lock_def native_print_def os_def os_calls.simps numeral_2_eq_2 numeral_3_eq_3 io_failure_def
  mutate_file_if_matches_def stage_replacement_def publish_staged_def retry_delays_def publish_file_def preimage_matches_def
  compare_chunks.simps native_env_def slash_paths_def split_name_def starts_with_def

lemmas run_preparation = mutation_endpoint_identity_def inspect_endpoint_def validate_mutation_endpoints_def claim_hunk_def
  claim_endpoint_def hunk_source_def join_destination_def acquire_def identities_def hunk_leases_def guard_leases_def
  join_any_def lease_of_def lease_key_def lock_lease_def bt_or_insert_def validate_revision_guards_def check_guard_def guard_state_def
  guard_satisfied_def capture_destination_preimages_def capture_destination_def destination_path_def same_verified_destinations_def
  preflight_hunks_def preflight_hunk_def check_verified_def read_file_text_def in_bytes_def

lemmas run_writes = attempt_hunks_def apply_hunks_to_files_def recheck_hunk_def previous_update_def apply_hunk_def write_hunk_def
  add_file_def delete_file_def destination_of_def ok_or_def try_write_def write_file_with_missing_parent_retry_def
  conditional_mutation_def note_mode_def preimage_mode_def cancelled_def note_identity_def plain_change_def
  ensure_not_directory_def interrupted_def unattempted_def delta_new_def

lemmas run_reports = apply_hunks_with_verified_action_def report_success_def report_failure_def print_summary_def
  rollback_committed_changes_def rollback_change_def split_moves_def split_move_def is_unsplit_move_def restorable_def
  regular_or_absent_def remove_failure_was_side_effect_free_def restore_change_def remove_change_def from_io_def cause_def

lemma example_parents: "parents_of ''/r/n'' = [''/r'', []]" "parents_of ''/r/o'' = [''/r'', []]"
  by (simp_all add: parents_of.simps split_name_def)

lemmas run_example = run_monad run_native run_preparation run_writes run_reports example_parents example_host_env_def
  example_disk_def example_changes_def example_guard_def

lemma example_host_quiet: "quiet_executor example_host_env native_host nw_files id (\<lambda>_. False)"
  unfolding example_host_env_def by (rule native.quiet_executor_axioms)

lemma example_success:
  "\<exists>s. apply_hunks_with_verified_action example_host_env native_host ''/r'' example_changes [example_guard] None (example_disk []) = (Ok (), s)
     \<and> dl_exact (pr_delta s) \<and> length (dl_changes (pr_delta s)) = 2"
  by (simp cong: bind_weak add: run_example)

lemma example_failure:
  "\<exists>x s. apply_hunks_with_verified_action example_host_env native_host ''/r'' example_changes [] None (example_disk [False, True]) = (Err x, s)
     \<and> x \<noteq> Panic \<and> dl_exact (pr_delta s) \<and> dl_changes (pr_delta s) = []"
  by (simp cong: bind_weak add: run_example)

definition example_patch :: string where
  "example_patch = render_patch None [] [AddFile ''n'' (''y'' @ [LF])]"

lemma example_patch_parses:
  obtains a where "parse_patch example_patch = Ok a" "args_hunks a = [AddFile ''n'' (''y'' @ [LF])]" "args_revision_guards a = []"
proof -
  have "printable_hunk (AddFile ''n'' (''y'' @ [LF]))" by code_simp
  then have "printable None [] [AddFile ''n'' (''y'' @ [LF])]" by (simp add: printable_def)
  moreover have "length example_patch \<le> MAX_PATCH_INPUT_BYTES"
    by (simp add: example_patch_def render_patch_def render_body_def MAX_PATCH_INPUT_BYTES_def BEGIN_PATCH_MARKER_def
        END_PATCH_MARKER_def ADD_FILE_MARKER_def)
  ultimately show thesis using parse_render_patch[of None "[]"] that by (simp add: example_patch_def)
qed

lemma example_patch_applies:
  "\<exists>s. apply_patch_with_cancellation example_host_env native_host ''/r'' example_patch (example_disk []) = (Ok (), s)
     \<and> dl_exact (pr_delta s) \<and> nw_files (pr_world s) = (nw_files (example_disk []))(''/r/n'' \<mapsto> ''y'' @ [LF])"
proof -
  obtain a where a: "parse_patch example_patch = Ok a" "args_hunks a = [AddFile ''n'' (''y'' @ [LF])]"
    "args_revision_guards a = []" by (rule example_patch_parses)
  show ?thesis
    unfolding apply_patch_with_cancellation_def a result.case by (simp cong: bind_weak add: run_example)
qed

section \<open>Witnesses\<close>

theorem applied_delta_exact_witness:
  "\<exists>s :: native_world patch_run. dl_exact (pr_delta s) \<and> length (dl_changes (pr_delta s)) = 2
     \<and> nw_files (pr_world s) = replay id (nw_files (example_disk [])) (all_writes (dl_changes (pr_delta s)))"
proof -
  obtain s where s: "apply_hunks_with_verified_action example_host_env native_host ''/r'' example_changes [example_guard] None (example_disk []) = (Ok (), s)"
    "dl_exact (pr_delta s)" "length (dl_changes (pr_delta s)) = 2" using example_success by blast
  from applied_delta_exact[OF example_host_quiet s(1,2)] s(2,3) show ?thesis by blast
qed

theorem applied_patch_refines_hunks_witness:
  "\<exists>(s :: native_world patch_run) args. parse_patch example_patch = Ok args \<and> nw_files (pr_world s) ''/r/n'' = Some (''y'' @ [LF])
     \<and> patch_steps example_host_env id ''/r'' (enumerate 0 (args_hunks args)) (nw_files (example_disk [])) (nw_files (pr_world s))"
proof -
  obtain s where s: "apply_patch_with_cancellation example_host_env native_host ''/r'' example_patch (example_disk []) = (Ok (), s)"
    "dl_exact (pr_delta s)" "nw_files (pr_world s) = (nw_files (example_disk []))(''/r/n'' \<mapsto> ''y'' @ [LF])"
    using example_patch_applies by blast
  have "nw_files (pr_world s) ''/r/n'' = Some (''y'' @ [LF])" unfolding s(3) by simp
  with applied_patch_refines_hunks[OF example_host_quiet s(1,2)] show ?thesis by blast
qed


theorem revision_guards_held_witness:
  "guard_holds example_host_env id ''/r'' (nw_files (example_disk [])) example_guard"
proof -
  obtain s where "apply_hunks_with_verified_action example_host_env native_host ''/r'' example_changes [example_guard] None (example_disk []) = (Ok (), s)"
    using example_success by blast
  from revision_guards_held[OF example_host_quiet this] show ?thesis by simp
qed

end
