(* ===== verification/Spec2Isabelle.thy ===== *)
theory Spec2Isabelle
  imports Patch_Render Exact_Edits Policy_Files Shell_Results Approval_Results Apply_Results
begin

text \<open>
  Verification of the command-approval and patch-application core of the repository: the crates
  \<^verbatim>\<open>apply-patch\<close>, \<^verbatim>\<open>execpolicy\<close> and \<^verbatim>\<open>shell-command\<close>, the parts of \<^verbatim>\<open>protocol\<close> and \<^verbatim>\<open>core\<close> that
  decide whether a command needs the user's approval, and the parts of \<^verbatim>\<open>file-system\<close> and \<^verbatim>\<open>exec-server\<close> through
  which a patch reaches the disk (all under \<^verbatim>\<open>src/codex-rs/\<close>).

  \<^bold>\<open>How the parts interact.\<close> A model proposes patches and commands. A patch text is parsed
  (\<^verbatim>\<open>parser.rs\<close>, \<^verbatim>\<open>streaming_parser.rs\<close>) into hunks; each update hunk is matched against the current
  file (\<^verbatim>\<open>seek_sequence.rs\<close>, the matcher of \<^verbatim>\<open>apply-patch/src/lib.rs\<close>) or applied as an exact edit
  (\<^verbatim>\<open>unique_anchor.rs\<close>, \<^verbatim>\<open>counted_replace.rs\<close>), which gives the new contents.
  They are written by conditional mutations (\<^verbatim>\<open>conditional_mutation.rs\<close>), each of which replaces only the bytes it expects,
  and what was written is recorded and undone when a later hunk fails. A command is taken apart
  by shell (\<^verbatim>\<open>bash.rs\<close>, \<^verbatim>\<open>powershell_parser.rs\<close>), each plain command is judged by the rules of the policy
  files (\<^verbatim>\<open>execpolicy\<close>) and, where no rule applies, by the lists of safe and of dangerous commands
  (\<^verbatim>\<open>command_safety\<close>); \<^verbatim>\<open>core/src/exec_policy.rs\<close> combines the judgements with the approval mode and
  the permission profile into a requirement: skip, ask (with a proposed rule) or refuse.

  \<^bold>\<open>Theories and sources.\<close>
  \<^item> \<open>Rust_Base\<close>: strings as UTF-8 bytes, results, \<^verbatim>\<open>usize\<close> arithmetic, shared list and string facts.
  \<^item> \<open>Patch_Parser\<close>, \<open>Parser_Invariant\<close>, \<open>Patch_Render\<close>: \<^verbatim>\<open>parser.rs\<close>, \<^verbatim>\<open>source_hash.rs\<close> and
    \<^verbatim>\<open>streaming_parser.rs\<close>. The parser's state is \<open>streaming_patch_parser\<close>; every \<^verbatim>\<open>&mut self\<close> method
    returns it. Shown: the state invariant, independence of how the input is cut, refinement of the
    mode machine, what an accepted patch guarantees, and the round trip with a printer.
  \<^item> \<open>Kmp_Search\<close>, \<open>Seek_Sequence\<close>: \<^verbatim>\<open>seek_sequence.rs\<close>. All search loops equal one reference; the
    table-driven search ends and takes linear time.
  \<^item> \<open>Chunk_Matcher\<close>, \<open>Matcher_Edits\<close>, \<open>Matcher_Invariant\<close>, \<open>Matcher_Results\<close>: the matcher of
    \<^verbatim>\<open>lib.rs\<close>. The state is \<open>chunk_cursor\<close>. Shown: no panic, disjoint claims, only asked-for lines
    change, ambiguity is resolved only when the choice does not matter.
  \<^item> \<open>Patch_Diagnostics\<close>: bounded excerpts in failures. \<open>Exact_Edits\<close>: anchor and counted edits and
    the choice between edit kinds.
  \<^item> \<open>Exec_Policy\<close>, \<open>Policy_Results\<close>, \<open>Policy_Parser\<close>, \<open>Policy_Files\<close>: \<^verbatim>\<open>execpolicy\<close>. The state is
    \<open>policy\<close> with its index by executable name. Shown: the strictest applicable rule decides, additions and
    overlays lose nothing, declared examples hold, loaded policies are well formed.
  \<^item> \<open>Shell_Parse\<close>, \<open>Shell_Results\<close>, \<open>Native_Lookup\<close>: shell wrappers and trusted executables of
    \<^verbatim>\<open>shell-command\<close>. \<open>Command_Danger\<close>, \<open>Danger_Results\<close>, \<open>Command_Safe\<close>, \<open>Safe_Results\<close>: the two
    lists of commands. Shown: plain scripts are recognised exactly, identities are proven before
    trust, forced removals are recognised exactly, nothing safe is dangerous.
  \<^item> \<open>Permissions\<close>, \<open>Exec_Approval\<close>, \<open>Approval_Results\<close>: permission profiles, \<^verbatim>\<open>core/src/exec_policy.rs\<close>
    and the default requirement of \<^verbatim>\<open>core/src/tools/sandboxing.rs\<close>. Shown: requirements are sound, a
    dangerous command is never skipped, an accepted amendment makes progress.
  \<^item> \<open>Executor_Fs\<close>, \<open>Patch_Manifest\<close>, \<open>Patch_Endpoints\<close>, \<open>Patch_Prepare\<close>, \<open>Patch_Apply\<close>: the application of a
    parsed patch to files (\<^verbatim>\<open>apply-patch/src/lib.rs\<close>, \<^verbatim>\<open>manifest.rs\<close>, \<^verbatim>\<open>transaction.rs\<close>, the endpoint check of
    \<^verbatim>\<open>invocation.rs\<close>). A run is a \<open>computation\<close> on a world and an \<open>applied_patch_delta\<close>; it takes leases, checks
    revision guards and endpoints, computes all contents, writes hunk by hunk and rolls back on failure.
  \<^item> \<open>Apply_Contract\<close>, \<open>Apply_Writes\<close>, \<open>Apply_Hunks\<close>, \<open>Apply_Steps\<close>, \<open>Apply_Rollback\<close>, \<open>Apply_Results\<close>: its
    correctness over the contract \<open>quiet_executor\<close>. Shown: an exact delta describes the files that are
    left, a successful run refines the step relation \<open>patch_steps\<close> and found its guards satisfied, a
    failed run with an exact delta left every file as it was or reports an incomplete rollback.
  \<^item> \<open>Native_Fs\<close>, \<open>Native_Results\<close>, \<open>Native_Executor\<close>: \<^verbatim>\<open>file-system/src/conditional_mutation.rs\<close> over the answers of
    the operating system, and the local executor of \<^verbatim>\<open>exec-server\<close>. Shown: whatever calls fail, a mutation
    does what its outcome says and never loses the original bytes; without failures it succeeds;
    the executor satisfies the contract of patch application.

  \<^bold>\<open>Interfaces.\<close> Locales state what one component relies on in another, and each is interpreted on the
  model: \<open>incremental\<close> (a consumer fed in pieces), \<open>block_search\<close> (what the matcher needs of the search),
  \<open>coarser\<close> (a comparison tier that accepts what a stricter one accepts),
  \<open>multi_store\<close> (what the policy needs of a multimap), \<open>command_judge\<close> (what approvals need of the policy),
  \<open>preorder_frame\<close> (what sequences, loops and handlers keep; interpreted for two relations on runs) and
  \<open>quiet_executor\<close> (what patch application needs of a file system; interpreted on the local executor).

  \<^bold>\<open>Bounds and termination.\<close> Every definition is a total function; loops are structural recursions or
  have a measure. The only fuel is that of \<open>first_update\<close>, which follows strictly smaller indices and gets as
  many steps as its index, which is enough. The one \<^const>\<open>while\<close> loop (the failure table) is shown to end. A Rust panic is a value (\<open>Panicked\<close> or \<^term>\<open>None\<close>) and the
  results exclude it. \<^verbatim>\<open>usize\<close> is \<^typ>\<open>nat\<close>; where a result depends on it, the size of the file is
  assumed to be at most \<open>usize_max\<close>. Limits of the source (patch bytes, excerpts, candidates) are the
  constants of the source.

  \<^bold>\<open>Parameters.\<close> Code outside the repository is an argument: SHA-256, the line diff of \<^verbatim>\<open>similar\<close>, JSON
  decoding, the Starlark evaluator (as the builtin calls a file makes), tree-sitter parse trees, path and
  URL syntax, the file system and the environment of the host. They are the records
  \<open>edit_environment\<close>, \<open>host\<close>, \<open>shell_env\<close>, \<open>lookup_env\<close> and \<open>approval_env\<close>, and
  for patch application \<open>executor_fs\<close>, \<open>apply_host\<close>, \<open>path_ops\<close> and \<open>apply_env\<close>; their laws are the assumptions
  of \<open>quiet_executor\<close>, which the statements about whole runs discharge on the local executor or name. Results hold
  for all of them, except where a statement names what it assumes (\<open>iterates\<close>, for instance).

  \<^bold>\<open>Not modelled.\<close> Links, other writers during a run, handles and sharing modes of the operating
  system; recognising a patch inside a shell invocation, and the provenance records. Appending to
  policy files works through an asynchronous interface. The JSON editor works on values of
  a JSON library. The similarity ranking of failure reports is floating-point. The PowerShell parser is
  a child process. Sessions, turns, the model client, tool artifacts, conversation and task stores,
  timing and user interfaces are asynchronous orchestration, persistence and presentation.
\<close>

section \<open>Properties that span components\<close>

subsection \<open>From patch text to applied edits\<close>


definition example_env :: edit_environment where
  "example_env = \<lparr>env_sha256 = id, env_diff = (\<lambda>_ _. []), env_anchor_json = (\<lambda>_. None), env_string_json = Some,
     env_json_apply = (\<lambda>_ _ _. Err [])\<rparr>"


text \<open>Files whose lines all end in a line feed.\<close>

definition lf_text :: "string list \<Rightarrow> string" where
  "lf_text lines = concat (map (\<lambda>l. l @ [LF]) lines)"

lemma split_inclusive_lf_text:
  assumes "list_all line_text ls"
  shows "split_inclusive LF (lf_text ls) = map (\<lambda>l. l @ [LF]) ls"
  using assms
proof (induction ls)
  case (Cons l ls)
  have "split_inclusive LF (l @ LF # r) = (l @ [LF]) # split_inclusive LF r" if "LF \<notin> set l" for l r
    using that by (induction l) (auto split: list.split)
  with Cons show ?case by (simp add: lf_text_def line_text_def)
qed (simp add: lf_text_def)

lemma logical_line_lf:
  assumes "line_text l"
  shows "logical_line (l @ [LF]) = l"
proof -
  have "strip_suffix CRLF (l @ [LF]) = None"
    using assms by (cases "strip_suffix CRLF (l @ [LF])") (auto simp: line_text_def CRLF_def ends_with_iff)
  then show ?thesis by (simp add: logical_line_def)
qed

lemma lf_text_ends: "lf_text ls = [] \<or> ends_with [LF] (lf_text ls)"
  by (cases ls rule: rev_cases) (auto simp: lf_text_def ends_with_iff)

lemma lf_text_newline:
  assumes "list_all line_text ls"
  shows "ps_newline (prepare_source (lf_text ls)) = [LF]"
proof -
  have "\<not> ends_with CRLF (l @ [LF])" if "l \<in> set ls" for l
    using assms that by (auto simp: line_text_def CRLF_def ends_with_iff list_all_iff)
  then show ?thesis
    using split_inclusive_lf_text[OF assms] by (cases ls) (auto simp: prepare_source_def Let_def ends_with_iff)
qed

lemma terminate_lines_done:
  assumes "\<And>l. l \<in> set ls \<Longrightarrow> ends_with [LF] l"
  shows "terminate_lines nl ls = ls"
proof (cases ls rule: rev_cases)
  case (snoc front l)
  with assms have "map (\<lambda>line. if ends_with [LF] line then line else line @ nl) front = front"
    by (simp add: map_idI)
  with snoc show ?thesis by (simp add: terminate_lines_def)
qed (simp add: terminate_lines_def)

lemma final_text_lf:
  assumes "list_all line_text ls"
  shows "final_text (prepare_source (lf_text ls)) rs = lf_text (merged 0 ls rs)"
proof -
  have lines: "written_lines [LF] (map (\<lambda>l. l @ [LF]) ls) rs = map (\<lambda>l. l @ [LF]) (merged 0 ls rs)"
    by (simp add: written_lines_def push_newlines_def merged_map)
  have "terminate_lines [LF] (map (\<lambda>l. l @ [LF]) xs) = map (\<lambda>l. l @ [LF]) xs" for xs
    by (rule terminate_lines_done) (auto simp: ends_with_iff)
  moreover have "restore_final_newline (lf_text ls) xs = xs" for xs
    using lf_text_ends[of ls] by (auto simp: restore_final_newline_def)
  ultimately show ?thesis
    by (simp add: final_text_def lf_text_newline[OF assms] split_inclusive_lf_text[OF assms] lines)
       (simp add: lf_text_def)
qed

text \<open>
  C1: end to end. A printed patch with one chunk that was made for a file (its old lines stand there
  at exactly one place) is parsed back and, applied to the file, replaces these lines by the new
  lines of the chunk and nothing else.
\<close>

theorem printed_update_applies:
  assumes "printable None [] [UpdateFile p None [chunk]]"
    and "length (render_patch None [] [UpdateFile p None [chunk]]) \<le> MAX_PATCH_INPUT_BYTES"
    and "change_context chunk = None" "old_lines chunk \<noteq> []" "list_all line_text ls" "length ls \<le> usize_max"
    and "window_sites ''exact'' ls (old_lines chunk) 0 (is_end_of_file chunk) = {st}"
  shows "\<exists>a. parse_patch (render_patch None [] [UpdateFile p None [chunk]]) = Ok a
    \<and> args_hunks a = [UpdateFile p None [chunk]]
    \<and> new_contents_from_chunks env path (lf_text ls) [chunk] =
        Ok (lf_text (take st ls @ new_lines chunk @ drop (st + length (old_lines chunk)) ls))"
proof -
  let ?m = "matcher_of (env_sha256 env) (env_diff env) (prepare_source (lf_text ls)) [chunk]"
  have ok: "chunks_ok [chunk]" using assms(1) by (simp add: printable_def printable_chunk_def chunks_ok_def)
  have phys: "split_inclusive LF (lf_text ls) = map (\<lambda>l. l @ [LF]) ls"
    by (rule split_inclusive_lf_text[OF assms(5)])
  have lines: "cm_original_lines ?m = ls" "cm_chunks ?m = [chunk]"
    using assms(5) by (simp_all add: matcher_of_def phys logical_line_lf o_def list_all_iff map_idI)
  have m: "matcher_ok ?m" using assms(6) by (intro matcher_of_ok[OF ok]) (simp add: phys)
  from exact_chunk_applies[OF m lines(2) assms(3,4)] assms(7) obtain rs where
    rs: "compute_replacements ?m = Ok rs"
      "merged 0 ls rs = take st ls @ new_lines chunk @ drop (st + length (old_lines chunk)) ls"
    by (auto simp: lines)
  have "length (split_inclusive LF (lf_text ls)) \<le> usize_max" using assms(6) by (simp add: phys)
  from textual_contents_outcome[OF ok this, of "env_sha256 env" "env_diff env"] rs
  have "textual_contents (env_sha256 env) (env_diff env) (prepare_source (lf_text ls)) [chunk] =
      Ok (lf_text (merged 0 ls rs))"
    by (metis final_text_lf[OF assms(5)] result.distinct(1) result.inject(1))
  then have "new_contents_from_chunks env path (lf_text ls) [chunk] = Ok (lf_text (merged 0 ls rs))"
    using assms(3) by (simp add: new_contents_from_chunks_def new_contents_from_prepared_def Let_def
        is_anchor_chunk_def is_json_chunk_def is_counted_chunk_def)
  with parse_render_patch[OF assms(1,2)] rs(2) show ?thesis by simp
qed

lemma example_update:
  "printable None [] [UpdateFile ''f'' None [example_chunk]]"
  "length (render_patch None [] [UpdateFile ''f'' None [example_chunk]]) \<le> MAX_PATCH_INPUT_BYTES"
  using example_printable example_length
  by (simp_all add: printable_def example_hunks_def render_patch_def render_body_def)

theorem printed_update_applies_witness:
  "new_contents_from_chunks example_env example_path (lf_text [''x'', ''a'', ''y'']) [example_chunk] =
     Ok (lf_text [''x'', ''b'', ''y''])"
proof -
  have "window_sites ''exact'' [''x'', ''a'', ''y''] (old_lines example_chunk) 0 (is_end_of_file example_chunk) = {1}"
    by (auto simp: example_chunk_def window_sites_def window_def site_matches_def tier_key_def le_Suc_eq)
  from printed_update_applies[OF example_update _ _ _ _ this, of example_env example_path] show ?thesis
    by (auto simp: example_chunk_def line_text_def usize_max_def ends_with_iff)
qed

end
